theory Spec2Isabelle
  imports Complex_Main "HOL-Library.Sublist" "HOL-Library.AList" "HOL-Library.Log_Nat"
begin

section \<open>JavaScript numbers\<close>

text \<open>
  A JavaScript number is an IEEE 754 double: a rational that a double can hold, an
  infinity or \<open>NaN\<close> (the two zeros are not told apart; nothing below depends on the
  sign of a zero). \<open>Approximated\<close> stands for the result of \<open>Math.pow\<close> where the
  language leaves it to the implementation (ECMA-262 calls it an
  implementation-approximated value): the model does not say which double it is.
  \<open>Finite q\<close> is a number when \<open>q\<close> is a double, that is when
  \<open>round_double q = Finite q\<close>.
\<close>

datatype number = Finite rat | PosInfinity | NegInfinity | NaN | Approximated

text \<open>The integer part of the binary logarithm of a positive rational, from the bit lengths of its numerator and denominator.\<close>

definition floorLog2 :: "rat \<Rightarrow> int" where
  "floorLog2 a =
     (case quotient_of a of
        (p, q) \<Rightarrow> if a < 2 powi (bitlen p - bitlen q) then bitlen p - bitlen q - 1
                  else bitlen p - bitlen q)"

text \<open>Rounding to the nearest integer, a tie going to the even one.\<close>

definition roundHalfEven :: "rat \<Rightarrow> int" where
  "roundHalfEven x =
     (if x - of_int \<lfloor>x\<rfloor> < 1 / 2 then \<lfloor>x\<rfloor>
      else if 1 / 2 < x - of_int \<lfloor>x\<rfloor> then \<lfloor>x\<rfloor> + 1
      else if even \<lfloor>x\<rfloor> then \<lfloor>x\<rfloor> else \<lfloor>x\<rfloor> + 1)"

text \<open>
  The distance between neighbouring doubles at a positive rational: 53 significant
  bits, and the fixed distance \<open>2 powi (- 1074)\<close> below \<open>2 powi (- 1022)\<close>.
\<close>

definition ulp :: "rat \<Rightarrow> rat" where
  "ulp a = 2 powi (max (floorLog2 a) (- 1022) - 52)"

text \<open>
  The double an exact result is rounded to (round to nearest, ties to even; what
  reaches \<open>2 ^ 1024\<close> is an infinity).
\<close>

definition round_double :: "rat \<Rightarrow> number" where
  "round_double q =
     (if q = 0 then Finite 0
      else if 2 powi 1024 \<le> of_int (roundHalfEven (\<bar>q\<bar> / ulp \<bar>q\<bar>)) * ulp \<bar>q\<bar>
      then (if 0 < q then PosInfinity else NegInfinity)
      else Finite (sgn q * (of_int (roundHalfEven (\<bar>q\<bar> / ulp \<bar>q\<bar>)) * ulp \<bar>q\<bar>)))"

text \<open>The operator \<open>*\<close>.\<close>

fun js_times :: "number \<Rightarrow> number \<Rightarrow> number" where
  "js_times NaN y = NaN"
| "js_times x NaN = NaN"
| "js_times Approximated y = Approximated"
| "js_times x Approximated = Approximated"
| "js_times (Finite a) (Finite b) = round_double (a * b)"
| "js_times (Finite a) PosInfinity =
     (if a = 0 then NaN else if 0 < a then PosInfinity else NegInfinity)"
| "js_times (Finite a) NegInfinity =
     (if a = 0 then NaN else if 0 < a then NegInfinity else PosInfinity)"
| "js_times PosInfinity (Finite b) =
     (if b = 0 then NaN else if 0 < b then PosInfinity else NegInfinity)"
| "js_times NegInfinity (Finite b) =
     (if b = 0 then NaN else if 0 < b then NegInfinity else PosInfinity)"
| "js_times PosInfinity PosInfinity = PosInfinity"
| "js_times PosInfinity NegInfinity = NegInfinity"
| "js_times NegInfinity PosInfinity = NegInfinity"
| "js_times NegInfinity NegInfinity = PosInfinity"

text \<open>
  \<open>Math.pow(base, exponent)\<close> for an exponent that is a natural number. The language
  fixes the result for the exponent 0 and for a base that is \<open>NaN\<close> or an infinity.
  For a finite base the result is within one unit in the last place of the exact
  power, so it is the exact power whenever a double can hold that; otherwise the
  model leaves it open.
\<close>

fun js_pow :: "number \<Rightarrow> nat \<Rightarrow> number" where
  "js_pow x 0 = Finite 1"
| "js_pow (Finite b) (Suc k) =
     (if round_double (b ^ Suc k) = Finite (b ^ Suc k) then Finite (b ^ Suc k) else Approximated)"
| "js_pow PosInfinity (Suc k) = PosInfinity"
| "js_pow NegInfinity (Suc k) = (if even k then NegInfinity else PosInfinity)"
| "js_pow NaN (Suc k) = NaN"
| "js_pow Approximated (Suc k) = Approximated"

section \<open>The retry wrapper (utils/retry.ts)\<close>

text \<open>
  A JavaScript closure \<open>fn: () => Promise<T>\<close> is modelled by the outcome of each of
  its successive invocations: \<open>fn k\<close> is what the call number \<open>k\<close> (counted from 0)
  does. A rejection carries the thrown value: an \<open>Error\<close> object (its message) or any
  other value (its \<open>String(...)\<close> rendering). \<open>delayMs\<close> and \<open>backoffMultiplier\<close> are
  any numbers. \<open>maxAttempts\<close> is a finite number: with \<open>Infinity\<close> the loop has no
  bound. The loop variable is counted in natural numbers, as \<open>attempt++\<close> does up to
  \<open>2 ^ 53\<close>.
\<close>

datatype thrown = ErrorObj string | NonError string

datatype 'a outcome = Resolves 'a | Rejects thrown

text \<open>What \<open>retry\<close> itself can throw: an \<open>Error\<close>, or the uninitialised \<open>lastError\<close>.\<close>

datatype js_throw = ThrowError string | ThrowUndefined

record RetryOptions =
  maxAttempts :: "rat option"
  delayMs :: "number option"
  backoffMultiplier :: "number option"
  onRetry :: bool

record 'a retry_run =
  outcome_of :: "js_throw + 'a"
  calls :: nat
  sleeps :: "number list"
  notified :: "(nat \<times> string) list"

text \<open>\<open>error instanceof Error ? error : new Error(String(error))\<close>\<close>

fun toError :: "thrown \<Rightarrow> string" where
  "toError (ErrorObj m) = m"
| "toError (NonError s) = s"

text \<open>\<open>throw lastError!\<close>\<close>

fun throwLast :: "string option \<Rightarrow> js_throw" where
  "throwLast None = ThrowUndefined"
| "throwLast (Some m) = ThrowError m"

text \<open>
  The \<open>for (let attempt = 1; attempt <= maxAttempts; attempt++)\<close> loop, with the loop
  variable, \<open>lastError\<close> and the effects so far (invocations of \<open>fn\<close>, sleeps, calls of
  \<open>onRetry\<close>) as arguments. A sleep is recorded by the number handed to \<open>sleep\<close>.
\<close>

function retry_loop ::
  "(nat \<Rightarrow> 'a outcome) \<Rightarrow> rat \<Rightarrow> number \<Rightarrow> number \<Rightarrow> bool \<Rightarrow>
   nat \<Rightarrow> string option \<Rightarrow> nat \<Rightarrow> number list \<Rightarrow> (nat \<times> string) list \<Rightarrow> 'a retry_run" where
  "retry_loop fn maxA delay mult cb attempt lastError n sl nt =
     (if of_nat attempt \<le> maxA then
        (case fn n of
           Resolves v \<Rightarrow>
             \<lparr>outcome_of = Inr v, calls = Suc n, sleeps = sl, notified = nt\<rparr>
         | Rejects e \<Rightarrow>
             (if of_nat attempt = maxA then
                \<lparr>outcome_of = Inl (throwLast (Some (toError e))), calls = Suc n,
                 sleeps = sl, notified = nt\<rparr>
              else
                retry_loop fn maxA delay mult cb (Suc attempt) (Some (toError e)) (Suc n)
                  (sl @ [js_times delay (js_pow mult (attempt - 1))])
                  (if cb then nt @ [(attempt, toError e)] else nt)))
      else \<lparr>outcome_of = Inl (throwLast lastError), calls = n, sleeps = sl, notified = nt\<rparr>)"
  by pat_completeness auto
termination
proof (relation "measure (\<lambda>(fn, maxA, delay, mult, cb, attempt, lastError, n, sl, nt).
        nat (\<lfloor>maxA\<rfloor> + 1 - int attempt))")
  show "wf (measure (\<lambda>(fn, maxA, delay, mult, cb, attempt, lastError, n, sl, nt).
        nat (\<lfloor>maxA\<rfloor> + 1 - int attempt)))" by simp
next
  fix fn :: "nat \<Rightarrow> 'a outcome" and maxA :: rat and delay mult :: number and cb :: bool
    and attempt :: nat and lastError :: "string option" and n :: nat and sl :: "number list"
    and nt :: "(nat \<times> string) list" and x2 :: thrown
  assume "of_nat attempt \<le> maxA"
  then have "int attempt \<le> \<lfloor>maxA\<rfloor>" by (simp add: le_floor_iff)
  then show "((fn, maxA, delay, mult, cb, Suc attempt, Some (toError x2), Suc n,
               sl @ [js_times delay (js_pow mult (attempt - 1))],
               if cb then nt @ [(attempt, toError x2)] else nt),
              fn, maxA, delay, mult, cb, attempt, lastError, n, sl, nt)
             \<in> measure (\<lambda>(fn, maxA, delay, mult, cb, attempt, lastError, n, sl, nt).
                  nat (\<lfloor>maxA\<rfloor> + 1 - int attempt))"
    by simp
qed

declare retry_loop.simps [simp del]

text \<open>The defaults of the destructuring: 3 attempts, 1000 ms, multiplier 2.\<close>

definition retry :: "(nat \<Rightarrow> 'a outcome) \<Rightarrow> RetryOptions \<Rightarrow> 'a retry_run" where
  "retry fn options =
     retry_loop fn
       (case maxAttempts options of None \<Rightarrow> 3 | Some m \<Rightarrow> m)
       (case delayMs options of None \<Rightarrow> Finite 1000 | Some d \<Rightarrow> d)
       (case backoffMultiplier options of None \<Rightarrow> Finite 2 | Some b \<Rightarrow> b)
       (onRetry options) 1 None 0 [] []"


section \<open>JavaScript strings\<close>

text \<open>
  \<open>s.includes(t)\<close> and \<open>s.toLowerCase()\<close>. Strings are byte lists here, and only the
  ASCII letters change case.
\<close>

fun str_includes :: "string \<Rightarrow> string \<Rightarrow> bool" where
  "str_includes [] t = (t = [])"
| "str_includes (c # s) t = (prefix t (c # s) \<or> str_includes s t)"

definition lower_char :: "char \<Rightarrow> char" where
  "lower_char c =
     (case map_of (zip ''ABCDEFGHIJKLMNOPQRSTUVWXYZ'' ''abcdefghijklmnopqrstuvwxyz'') c of
        None \<Rightarrow> c
      | Some l \<Rightarrow> l)"

definition toLowerCase :: "string \<Rightarrow> string" where
  "toLowerCase s = map lower_char s"

section \<open>The persisted application history (dari-site-plan-agent.ts, lines 199-261)\<close>

text \<open>
  \<open>persistedApplications\<close> is a JavaScript \<open>Map\<close> from plot number to
  \<open>PersistedApplicationData\<close>: an association list in insertion order, where \<open>set\<close> on
  a key that is present replaces the value in place (\<open>AList.update\<close>) and \<open>get\<close> is
  \<open>map_of\<close>. The history file holds \<open>JSON.stringify\<close> of the array of values; it is
  modelled by that array, by \<open>NoFile\<close> when \<open>existsSync\<close> is false, and by
  \<open>Unparsable\<close> when \<open>readFileSync\<close> or \<open>JSON.parse\<close> throws or what is parsed
  has no \<open>forEach\<close>: the \<open>catch\<close> then leaves the map as it was. The arrays
  modelled are arrays of entries, as the agent writes them; an array with an element
  on which \<open>app.plotNumber\<close> throws, where the entries before it are already set when
  the \<open>catch\<close> is reached, is not among them. \<open>fileWritable\<close> says whether
  \<open>writeFileSync\<close> succeeds; when it throws, the \<open>catch\<close> of
  \<open>savePersistedApplications\<close> only logs. \<open>new Date().toISOString()\<close> is the argument
  \<open>now\<close>; the two readings of the clock in \<open>addPersistedApplication\<close> are taken as
  one.
\<close>

record PersistedApplicationData =
  p_plotNumber :: string
  p_applicationId :: string
  paymentDate :: string
  downloaded :: bool
  lastChecked :: string

type_synonym ledger = "(string \<times> PersistedApplicationData) list"

datatype file_content = NoFile | Unparsable | JsonArray "PersistedApplicationData list"

record storage =
  persistedApplications :: ledger
  storageFile :: file_content
  fileWritable :: bool

definition loadPersistedApplications :: "'a storage_scheme \<Rightarrow> 'a storage_scheme" where
  "loadPersistedApplications st =
     (case storageFile st of
        NoFile \<Rightarrow> st
      | Unparsable \<Rightarrow> st
      | JsonArray applications \<Rightarrow>
          st\<lparr>persistedApplications :=
               foldl (\<lambda>m app. AList.update (p_plotNumber app) app m)
                 (persistedApplications st) applications\<rparr>)"

definition savePersistedApplications :: "'a storage_scheme \<Rightarrow> 'a storage_scheme" where
  "savePersistedApplications st =
     (if fileWritable st
      then st\<lparr>storageFile := JsonArray (map snd (persistedApplications st))\<rparr>
      else st)"

definition addPersistedApplication ::
  "string \<Rightarrow> string \<Rightarrow> string \<Rightarrow> bool \<Rightarrow> 'a storage_scheme \<Rightarrow> 'a storage_scheme" where
  "addPersistedApplication now plotNo appId dl st =
     savePersistedApplications
       (st\<lparr>persistedApplications :=
            AList.update plotNo
              \<lparr>p_plotNumber = plotNo, p_applicationId = appId, paymentDate = now,
               downloaded = dl, lastChecked = now\<rparr>
              (persistedApplications st)\<rparr>)"

definition updatePersistedApplicationDownloadStatus ::
  "string \<Rightarrow> string \<Rightarrow> bool \<Rightarrow> 'a storage_scheme \<Rightarrow> 'a storage_scheme" where
  "updatePersistedApplicationDownloadStatus now plotNo dl st =
     (case map_of (persistedApplications st) plotNo of
        None \<Rightarrow> st
      | Some existing \<Rightarrow>
          savePersistedApplications
            (st\<lparr>persistedApplications :=
                 AList.update plotNo (existing\<lparr>downloaded := dl, lastChecked := now\<rparr>)
                   (persistedApplications st)\<rparr>))"

text \<open>
  A later process run constructs a new agent: its map starts empty and only the file
  survives.
\<close>

definition restart :: "'a storage_scheme \<Rightarrow> 'a storage_scheme" where
  "restart st = st\<lparr>persistedApplications := []\<rparr>"

text \<open>
  What every map built by the operations above satisfies: one entry per key, and each
  entry filed under its own plot number.
\<close>

definition ledger_ok :: "ledger \<Rightarrow> bool" where
  "ledger_ok m = (distinct (map fst m) \<and> list_all (\<lambda>kv. p_plotNumber (snd kv) = fst kv) m)"

section \<open>What the browser shows\<close>

text \<open>
  The browser and the page intelligence are outside the program. Every interaction is
  modelled by its result, supplied by an environment record: an \<open>observe\<close> gives a
  list of elements, a step that can throw gives \<open>Inl message\<close> (or \<open>Some message\<close>
  where it returns nothing), and a closure handed to \<open>retry\<close> gives the outcome of
  each of its calls. The agents have a browser throughout (\<open>this.stagehand.page\<close> is
  set by \<open>initialize\<close>), so the \<open>Stagehand not initialized\<close> guards are not taken.
\<close>

record element =
  description :: "string option"
  method_of :: string

text \<open>\<open>item.description?.toLowerCase() || ''\<close>\<close>

definition desc :: "element \<Rightarrow> string" where
  "desc item = (case description item of None \<Rightarrow> [] | Some d \<Rightarrow> toLowerCase d)"

text \<open>A string or \<open>null\<close> used as a condition.\<close>

definition truthy :: "string option \<Rightarrow> bool" where
  "truthy s = (case s of None \<Rightarrow> False | Some t \<Rightarrow> t \<noteq> [])"

text \<open>\<open>error instanceof Error ? error.message : String(error)\<close> for what \<open>retry\<close> throws.\<close>

fun thrownMessage :: "js_throw \<Rightarrow> string" where
  "thrownMessage (ThrowError m) = m"
| "thrownMessage ThrowUndefined = ''undefined''"

text \<open>\<open>record.error ? `${record.error}; ${extra}` : alone\<close>\<close>

definition extendError :: "string option \<Rightarrow> string \<Rightarrow> string \<Rightarrow> string" where
  "extendError e extra alone =
     (case e of None \<Rightarrow> alone | Some t \<Rightarrow> if t = [] then alone else t @ ''; '' @ extra)"

text \<open>The two options every click of the site plan agent passes to \<open>retry\<close>.\<close>

definition clickOptions :: RetryOptions where
  "clickOptions = \<lparr>maxAttempts = Some 3, delayMs = Some (Finite 2000), backoffMultiplier = None,
                    onRetry = True\<rparr>"

section \<open>The site plan agent (dari-site-plan-agent.ts)\<close>

record PlotData =
  plotNumber :: string
  rowIndex :: nat

record SitePlanRecord = PlotData +
  applicationId :: "string option"
  paid :: bool
  walletBalanceSufficient :: bool
  certificateDownloaded :: bool
  downloadedViaFallback :: bool
  downloadAttempts :: nat
  lastDownloadAttemptTime :: "string option"
  alreadyExistedInApplications :: bool
  error :: "string option"

text \<open>
  What the agent does to the outside world, in order: every invocation of the
  \<open>Pay now\<close> click, every read of the page text for the application id fallback,
  every observation of the download wait (with its number), every invocation of a
  download click, and every plot the recovery pass takes up.
\<close>

datatype event =
    PayNowClick string
  | AppIdFallback string
  | ObserveDownload string nat
  | DownloadClick string
  | RecoveryAttempt string

record site_agent = storage +
  sitePlans :: "SitePlanRecord list"
  events :: "event list"

record site_config =
  paymentEnabled :: bool

text \<open>\<open>private readonly prePayCheckEnabled: boolean = false\<close> (line 57).\<close>

definition prePayCheckEnabled :: bool where
  "prePayCheckEnabled = False"

subsection \<open>The download wait (downloadCertificate, lines 1699-1862)\<close>

record download_env =
  dlLoadState :: "string option"
  startUrl :: string
  pageStateObservation :: "nat \<Rightarrow> string + element list"
  downloadClick :: "nat \<Rightarrow> nat \<Rightarrow> unit outcome"
  loopLoadState :: "nat \<Rightarrow> string option"
  currentUrl :: "nat \<Rightarrow> string"

definition MAX_OBSERVATIONS :: nat where
  "MAX_OBSERVATIONS = 120"

definition isDownloadButton :: "element \<Rightarrow> bool" where
  "isDownloadButton item =
     (if method_of item \<noteq> ''click'' then False
      else str_includes (desc item) ''download'' \<and>
           (str_includes (desc item) ''certificate'' \<or>
            str_includes (desc item) ''site plan'' \<or>
            str_includes (desc item) ''verification'' \<or>
            str_includes (desc item) ''document'' \<or>
            str_includes (desc item) ''pdf''))"

definition isErrorMessage :: "element \<Rightarrow> bool" where
  "isErrorMessage item =
     (str_includes (desc item) ''error'' \<or> str_includes (desc item) ''failed'' \<or>
      str_includes (desc item) ''unsuccessful'')"

text \<open>
  The \<open>while (!downloadButtonFound && observationCount < MAX_OBSERVATIONS)\<close> loop.
  The result says whether the function returned from inside the loop, the final
  \<open>downloadButtonFound\<close>, the record and the agent. An observation, a click or a
  \<open>waitForLoadState\<close> that throws is caught by the \<open>catch (obsError)\<close> of the loop
  body, which goes on to the sleep and the next test of the loop condition.
\<close>

function downloadLoop ::
  "download_env \<Rightarrow> string \<Rightarrow> bool \<Rightarrow> nat \<Rightarrow> SitePlanRecord \<Rightarrow> site_agent \<Rightarrow>
   bool \<times> bool \<times> SitePlanRecord \<times> site_agent" where
  "downloadLoop env now downloadButtonFound observationCount record st =
     (if \<not> downloadButtonFound \<and> observationCount < MAX_OBSERVATIONS then
        (let st1 = st\<lparr>events := events st @
                      [ObserveDownload (plotNumber record) (Suc observationCount)]\<rparr> in
         case pageStateObservation env (Suc observationCount) of
           Inl obsError \<Rightarrow>
             downloadLoop env now downloadButtonFound (Suc observationCount) record st1
         | Inr obs \<Rightarrow>
             (if find isErrorMessage obs \<noteq> None then
                (True, downloadButtonFound,
                 record\<lparr>error := Some ''Certificate generation failed''\<rparr>, st1)
              else
                (case find isDownloadButton obs of
                   Some downloadButton \<Rightarrow>
                     (let r = retry (downloadClick env (Suc observationCount)) clickOptions;
                          st2 = st1\<lparr>events := events st1 @
                                  replicate (calls r) (DownloadClick (plotNumber record))\<rparr> in
                      case outcome_of r of
                        Inl obsError \<Rightarrow>
                          downloadLoop env now True (Suc observationCount) record st2
                      | Inr u \<Rightarrow>
                          (False, True, record\<lparr>certificateDownloaded := True\<rparr>,
                           updatePersistedApplicationDownloadStatus now (plotNumber record)
                             True st2))
                 | None \<Rightarrow>
                     (case loopLoadState env (Suc observationCount) of
                        Some obsError \<Rightarrow>
                          downloadLoop env now downloadButtonFound (Suc observationCount)
                            record st1
                      | None \<Rightarrow>
                          (if currentUrl env (Suc observationCount) \<noteq> startUrl env \<and>
                              (str_includes (currentUrl env (Suc observationCount)) ''error'' \<or>
                               str_includes (currentUrl env (Suc observationCount)) ''404'')
                           then
                             (False, downloadButtonFound,
                              record\<lparr>error :=
                                Some ''Page navigated to error during download wait''\<rparr>, st1)
                           else
                             downloadLoop env now downloadButtonFound (Suc observationCount)
                               record st1)))))
      else (False, downloadButtonFound, record, st))"
  by pat_completeness auto
termination
  by (relation "measure (\<lambda>(env, now, found, observationCount, record, st).
        MAX_OBSERVATIONS - observationCount)") auto

declare downloadLoop.simps [simp del]

text \<open>
  The whole body of \<open>downloadCertificate\<close> stands in a \<open>try\<close> whose \<open>catch\<close> writes
  the record's error: the function always returns.
\<close>

definition downloadCertificate ::
  "download_env \<Rightarrow> string \<Rightarrow> SitePlanRecord \<Rightarrow> site_agent \<Rightarrow> SitePlanRecord \<times> site_agent" where
  "downloadCertificate env now record0 st =
     (let record = record0\<lparr>downloadAttempts := Suc (downloadAttempts record0),
                            lastDownloadAttemptTime := Some now\<rparr> in
      case dlLoadState env of
        Some msg \<Rightarrow>
          (record\<lparr>error := Some (extendError (error record) (''Download error: '' @ msg)
                                    (''Download error: '' @ msg))\<rparr>, st)
      | None \<Rightarrow>
          (if str_includes (startUrl env) ''404'' \<or> str_includes (startUrl env) ''error'' \<or>
              str_includes (startUrl env) ''not-found''
           then (record\<lparr>error := Some ''Payment redirect failed - error page detected''\<rparr>, st)
           else
             (case downloadLoop env now False 0 record st of
                (returned, downloadButtonFound, record1, st1) \<Rightarrow>
                  if returned then (record1, st1)
                  else if \<not> downloadButtonFound then
                    (record1\<lparr>error := Some (extendError (error record1)
                        ''Download button never appeared''
                        ''Download button did not appear after extended observations'')\<rparr>,
                     st1)
                  else (record1, st1))))"

subsection \<open>The applications page (lines 2092-2305)\<close>

record view_env =
  viewClick :: "nat \<Rightarrow> unit outcome"
  viewLoadState :: "string option"
  headerObservation :: "nat \<Rightarrow> string + element list"
  viewDownloadClick :: "nat \<Rightarrow> nat \<Rightarrow> unit outcome"

definition isHeaderDownloadButton :: "element \<Rightarrow> bool" where
  "isHeaderDownloadButton item =
     (if method_of item \<noteq> ''click'' then False
      else str_includes (desc item) ''download'' \<and>
           (str_includes (desc item) ''certificate'' \<or>
            str_includes (desc item) ''site plan'' \<or>
            str_includes (desc item) ''verification'' \<or>
            str_includes (desc item) ''document''))"

definition MAX_ATTEMPTS :: nat where
  "MAX_ATTEMPTS = 60"

text \<open>The \<open>while (attemptNumber < MAX_ATTEMPTS)\<close> loop; the result starts with \<open>downloadFound\<close>.\<close>

function viewLoop ::
  "view_env \<Rightarrow> string \<Rightarrow> nat \<Rightarrow> SitePlanRecord \<Rightarrow> site_agent \<Rightarrow>
   bool \<times> SitePlanRecord \<times> site_agent" where
  "viewLoop env now attemptNumber record st =
     (if attemptNumber < MAX_ATTEMPTS then
        (case headerObservation env (Suc attemptNumber) of
           Inl obsError \<Rightarrow> viewLoop env now (Suc attemptNumber) record st
         | Inr obs \<Rightarrow>
             (case find isHeaderDownloadButton obs of
                None \<Rightarrow> viewLoop env now (Suc attemptNumber) record st
              | Some downloadButton \<Rightarrow>
                  (let r = retry (viewDownloadClick env (Suc attemptNumber)) clickOptions;
                       st1 = st\<lparr>events := events st @
                               replicate (calls r) (DownloadClick (plotNumber record))\<rparr> in
                   case outcome_of r of
                     Inl obsError \<Rightarrow> viewLoop env now (Suc attemptNumber) record st1
                   | Inr u \<Rightarrow>
                       (True,
                        record\<lparr>certificateDownloaded := True, downloadedViaFallback := True\<rparr>,
                        updatePersistedApplicationDownloadStatus now (plotNumber record)
                          True st1))))
      else (False, record, st))"
  by pat_completeness auto
termination
  by (relation "measure (\<lambda>(env, now, attemptNumber, record, st).
        MAX_ATTEMPTS - attemptNumber)") auto

declare viewLoop.simps [simp del]

text \<open>
  \<open>viewAndDownloadApplication\<close> throws (\<open>Inl\<close>) when the \<open>View Application\<close> click or
  the wait after it throws; both happen before the record is touched.
\<close>

definition viewAndDownloadApplication ::
  "view_env \<Rightarrow> string \<Rightarrow> SitePlanRecord \<Rightarrow> site_agent \<Rightarrow>
   string + SitePlanRecord \<times> site_agent" where
  "viewAndDownloadApplication env now record st =
     (case outcome_of (retry (viewClick env) clickOptions) of
        Inl t \<Rightarrow> Inl (''Failed to view and download application: '' @ thrownMessage t)
      | Inr u \<Rightarrow>
          (case viewLoadState env of
             Some msg \<Rightarrow> Inl (''Failed to view and download application: '' @ msg)
           | None \<Rightarrow>
               (case viewLoop env now 0 record st of
                  (downloadFound, record1, st1) \<Rightarrow>
                    if \<not> downloadFound then
                      Inr (record1\<lparr>error := Some (extendError (error record1)
                             ''Fallback download timeout''
                             ''Fallback download timeout - button never appeared'')\<rparr>, st1)
                    else Inr (record1, st1))))"

text \<open>
  \<open>navigateToApplicationsPage\<close> and \<open>searchApplicationById\<close> only act on the browser;
  each is a message when it throws. Together with the view they are the three steps
  both the pre-payment shortcut and the recovery pass take.
\<close>

record applications_env =
  navigateToApplicationsPage :: "string option"
  searchApplicationById :: "string option"
  viewEnv :: view_env

definition openAndDownload ::
  "applications_env \<Rightarrow> string \<Rightarrow> SitePlanRecord \<Rightarrow> site_agent \<Rightarrow>
   string + SitePlanRecord \<times> site_agent" where
  "openAndDownload env now record st =
     (case navigateToApplicationsPage env of
        Some msg \<Rightarrow> Inl msg
      | None \<Rightarrow>
          (case searchApplicationById env of
             Some msg \<Rightarrow> Inl msg
           | None \<Rightarrow> viewAndDownloadApplication (viewEnv env) now record st))"

subsection \<open>The recovery pass (processFailedDownloads, lines 2022-2090)\<close>

text \<open>\<open>record.paid && !record.certificateDownloaded && record.applicationId\<close>\<close>

definition failedDownload :: "SitePlanRecord \<Rightarrow> bool" where
  "failedDownload record =
     (paid record \<and> \<not> certificateDownloaded record \<and> truthy (applicationId record))"

definition failedDownloads :: "SitePlanRecord list \<Rightarrow> SitePlanRecord list" where
  "failedDownloads plans = filter failedDownload plans"

text \<open>One round of the loop; what \<open>recoverFromError\<close> throws is caught and changes nothing.\<close>

definition recoverOne ::
  "applications_env \<Rightarrow> string \<Rightarrow> SitePlanRecord \<Rightarrow> site_agent \<Rightarrow> SitePlanRecord \<times> site_agent" where
  "recoverOne env now record st =
     (let st1 = st\<lparr>events := events st @ [RecoveryAttempt (plotNumber record)]\<rparr> in
      case openAndDownload env now record st1 of
        Inr done \<Rightarrow> done
      | Inl msg \<Rightarrow>
          (record\<lparr>error := Some (extendError (error record) (''Fallback failed: '' @ msg)
                                    (''Fallback recovery failed: '' @ msg))\<rparr>, st1))"

text \<open>
  The records of \<open>failedDownloads\<close> are the objects of \<open>sitePlans\<close> themselves, so the
  loop over them updates \<open>sitePlans\<close> in place: the walk below goes through
  \<open>sitePlans\<close>, takes up the records the filter selected, in order, and counts them.
\<close>

fun recoverAll ::
  "(nat \<Rightarrow> applications_env) \<Rightarrow> string \<Rightarrow> nat \<Rightarrow> SitePlanRecord list \<Rightarrow> site_agent \<Rightarrow>
   SitePlanRecord list \<times> site_agent" where
  "recoverAll envs now i [] st = ([], st)"
| "recoverAll envs now i (record # rest) st =
     (if failedDownload record then
        (case recoverOne (envs i) now record st of
           (record1, st1) \<Rightarrow>
             (case recoverAll envs now (Suc i) rest st1 of
                (rest1, st2) \<Rightarrow> (record1 # rest1, st2)))
      else
        (case recoverAll envs now i rest st of
           (rest1, st2) \<Rightarrow> (record # rest1, st2)))"

definition processFailedDownloads ::
  "(nat \<Rightarrow> applications_env) \<Rightarrow> string \<Rightarrow> site_agent \<Rightarrow> site_agent" where
  "processFailedDownloads envs now st =
     (if failedDownloads (sitePlans st) = [] then st
      else
        (case recoverAll envs now 0 (sitePlans st) st of
           (plans, st1) \<Rightarrow> savePersistedApplications (st1\<lparr>sitePlans := plans\<rparr>)))"

subsection \<open>Waiting for the login (lines 94-129 and 611-654)\<close>

text \<open>
  \<open>intelligentWaitUntilPageReady\<close>: \<open>Math.floor(maxWaitSeconds / 3)\<close> observations,
  true at the first that finds an element; an observation that throws counts as
  finding nothing.
\<close>

function readyLoop :: "(nat \<Rightarrow> string + element list) \<Rightarrow> nat \<Rightarrow> nat \<Rightarrow> bool" where
  "readyLoop observe maxTries attempt =
     (if attempt \<le> maxTries then
        (case observe attempt of
           Inl msg \<Rightarrow> readyLoop observe maxTries (Suc attempt)
         | Inr observation \<Rightarrow>
             if length observation > 0 then True
             else readyLoop observe maxTries (Suc attempt))
      else False)"
  by pat_completeness auto
termination
  by (relation "measure (\<lambda>(observe, maxTries, attempt). Suc maxTries - attempt)") auto

declare readyLoop.simps [simp del]

definition intelligentWaitUntilPageReady :: "(nat \<Rightarrow> string + element list) \<Rightarrow> nat \<Rightarrow> bool" where
  "intelligentWaitUntilPageReady observe maxWaitSeconds =
     readyLoop observe (maxWaitSeconds div 3) 1"

record login_env =
  loginUrl :: "nat \<Rightarrow> string"
  loginObservation :: "nat \<Rightarrow> nat \<Rightarrow> string + element list"

definition MAX_WAIT_ATTEMPTS :: nat where
  "MAX_WAIT_ATTEMPTS = 60"

text \<open>
  \<open>!currentUrl.includes('login') && !currentUrl.includes('auth') &&
  !currentUrl.includes('uaepass')\<close>
\<close>

definition leftAuthDomain :: "string \<Rightarrow> bool" where
  "leftAuthDomain url =
     (\<not> str_includes url ''login'' \<and> \<not> str_includes url ''auth'' \<and>
      \<not> str_includes url ''uaepass'')"

text \<open>The \<open>for\<close> loop of \<open>waitForUAEPassApproval\<close>; the result is \<open>loginSuccessful\<close>.\<close>

function approvalLoop :: "login_env \<Rightarrow> nat \<Rightarrow> bool" where
  "approvalLoop env attempt =
     (if attempt \<le> MAX_WAIT_ATTEMPTS then
        (if leftAuthDomain (loginUrl env attempt) then
           (if intelligentWaitUntilPageReady (loginObservation env attempt) 60 then True
            else approvalLoop env (Suc attempt))
         else approvalLoop env (Suc attempt))
      else False)"
  by pat_completeness auto
termination
  by (relation "measure (\<lambda>(env, attempt). Suc MAX_WAIT_ATTEMPTS - attempt)") auto

declare approvalLoop.simps [simp del]

definition waitForUAEPassApproval :: "login_env \<Rightarrow> string + unit" where
  "waitForUAEPassApproval env =
     (if \<not> approvalLoop env 1
      then Inl ''Login verification timeout. Please check if UAE Pass approval was completed.''
      else Inr ())"

subsection \<open>Reading identifiers and amounts\<close>

text \<open>\<open>String.prototype.trim\<close>, for the ASCII white space.\<close>

definition isSpace :: "char \<Rightarrow> bool" where
  "isSpace c = (c \<in> set [CHR '' '', CHR 0x09, CHR 0x0A, CHR 0x0B, CHR 0x0C, CHR 0x0D])"

definition trim :: "string \<Rightarrow> string" where
  "trim s = rev (dropWhile isSpace (rev (dropWhile isSpace s)))"

text \<open>
  A match of \<open>/(C{n,})/\<close> for a character class \<open>C\<close>: the first maximal run of at
  least \<open>n\<close> characters of the class. \<open>acc\<close> is the run being read, reversed.
\<close>

fun firstRun :: "(char \<Rightarrow> bool) \<Rightarrow> nat \<Rightarrow> string \<Rightarrow> string \<Rightarrow> string option" where
  "firstRun C n acc [] = (if n \<le> length acc then Some (rev acc) else None)"
| "firstRun C n acc (c # cs) =
     (if C c then firstRun C n (c # acc) cs
      else if n \<le> length acc then Some (rev acc)
      else firstRun C n [] cs)"

definition isDigit :: "char \<Rightarrow> bool" where
  "isDigit c = (c \<in> set ''0123456789'')"

text \<open>The class \<open>[A-Z0-9-]\<close> under the flag \<open>i\<close>.\<close>

definition isIdChar :: "char \<Rightarrow> bool" where
  "isIdChar c =
     (lower_char c \<in> set ''abcdefghijklmnopqrstuvwxyz'' \<or> isDigit c \<or> c = CHR ''-'')"

text \<open>
  \<open>parseFloat(s.replace(/[^0-9.]/g, ''))\<close>. What is left after the replacement is
  digits and dots, of which \<open>parseFloat\<close> reads the longest prefix that is a decimal
  numeral; \<open>None\<close> is \<open>NaN\<close>. The value is the exact rational, not its rounding to a
  double.
\<close>

definition digitValue :: "char \<Rightarrow> nat" where
  "digitValue c =
     (case map_of (zip ''0123456789'' [0, 1, 2, 3, 4, 5, 6, 7, 8, 9]) c of
        None \<Rightarrow> 0
      | Some n \<Rightarrow> n)"

definition digitsValue :: "string \<Rightarrow> nat" where
  "digitsValue ds = foldl (\<lambda>n c. 10 * n + digitValue c) 0 ds"

definition parseFloat :: "string \<Rightarrow> rat option" where
  "parseFloat s =
     (let whole = takeWhile isDigit s;
          rest = dropWhile isDigit s;
          frac = (case rest of [] \<Rightarrow> [] | c # r \<Rightarrow> if c = CHR ''.'' then takeWhile isDigit r else [])
      in if whole = [] \<and> frac = [] then None
         else Some (of_nat (digitsValue whole) + of_nat (digitsValue frac) / 10 ^ length frac))"

definition parseAmount :: "string \<Rightarrow> rat option" where
  "parseAmount s = parseFloat (filter (\<lambda>c. isDigit c \<or> c = CHR ''.'') s)"

subsection \<open>One plot (searchAndProcessPlot, lines 957-1550)\<close>

text \<open>
  The environment of one pass through \<open>searchAndProcessPlot\<close>, in the order of the
  source. A field that is a message option or \<open>Inl\<close> stands for the steps of the named
  lines that can throw and do nothing else the program looks at.
  \<^item> \<open>clock\<close>: \<open>new Date().toISOString()\<close>.
  \<^item> \<open>applications\<close>: the applications page, for the pre-payment shortcut.
  \<^item> \<open>searchSteps\<close>: lines 1013-1101 (observing the filter, typing the plot number,
    observing and clicking the search button).
  \<^item> \<open>postSearchUrl\<close>, \<open>renavigate\<close>: the URL tested at line 1106, and
    \<open>navigateToServicesMenu\<close> with \<open>selectSitePlanService\<close> before the function calls
    itself again.
  \<^item> \<open>resultsObservation\<close>, \<open>pageText\<close>: lines 1130 and 1144.
  \<^item> \<open>selectSteps\<close>: lines 1159-1190; \<open>proceedObserve\<close>: line 1205;
    \<open>proceedClick\<close>: lines 1235-1242.
  \<^item> \<open>pageCheck\<close>: the observations of the unbounded loop of lines 1249-1289.
  \<^item> \<open>certificateUrl\<close>: line 1306.
  \<^item> \<open>extraction\<close>: the \<open>extraction\<close> field \<open>page.extract\<close> returns in
    \<open>extractApplicationId\<close>; \<open>idFallback\<close>: \<open>textContent('body')\<close> there, with the
    first group of the first of the four patterns that matches it.
  \<^item> \<open>paymentOptions\<close>: line 1331; \<open>walletSelected\<close>: \<open>ensureDariWalletSelected\<close>;
    \<open>paymentDetailsCheck\<close>: lines 1388-1393.
  \<^item> \<open>walletBalance\<close>, \<open>paymentAmount\<close>: what \<open>extractWalletBalance\<close> and
    \<open>extractPaymentAmount\<close> return.
  \<^item> \<open>payNowObservation\<close>, \<open>payNowClick\<close>, \<open>postPaymentObservation\<close>: lines 1451,
    1474 and 1494-1499.
\<close>

record plot_env =
  clock :: string
  applications :: applications_env
  searchSteps :: "string option"
  postSearchUrl :: string
  renavigate :: "string option"
  resultsObservation :: "string + element list"
  pageText :: "string + string option"
  selectSteps :: "string option"
  proceedObserve :: "string + element list"
  proceedClick :: "string option"
  pageCheck :: "nat \<Rightarrow> string + element list"
  certificateUrl :: string
  extraction :: "string + string option"
  idFallback :: "string + string option"
  paymentOptions :: "string + element list"
  walletSelected :: bool
  paymentDetailsCheck :: "string option"
  walletBalance :: "string option"
  paymentAmount :: "string option"
  payNowObservation :: "string + element list"
  payNowClick :: "nat \<Rightarrow> unit outcome"
  postPaymentObservation :: "string + element list"
  download :: download_env

definition newRecord :: "PlotData \<Rightarrow> SitePlanRecord" where
  "newRecord plot =
     \<lparr>plotNumber = plotNumber plot, rowIndex = rowIndex plot, applicationId = None,
      paid = False, walletBalanceSufficient = False, certificateDownloaded = False,
      downloadedViaFallback = False, downloadAttempts = 0, lastDownloadAttemptTime = None,
      alreadyExistedInApplications = False, error = None\<rparr>"

text \<open>
  The outer \<open>catch\<close> of \<open>searchAndProcessPlot\<close>: the record, as it is when the
  exception is thrown, gets the message and is returned.
\<close>

definition caught :: "string \<Rightarrow> SitePlanRecord \<Rightarrow> site_agent \<Rightarrow> SitePlanRecord \<times> site_agent" where
  "caught msg record st = (record\<lparr>error := Some msg\<rparr>, st)"

text \<open>
  Lines 981-1010, with the switch as an argument. The result starts with whether the
  function returns the record here.
\<close>

definition preCheck ::
  "bool \<Rightarrow> plot_env \<Rightarrow> SitePlanRecord \<Rightarrow> site_agent \<Rightarrow> bool \<times> SitePlanRecord \<times> site_agent" where
  "preCheck enabled env record st =
     (if enabled then
        (case map_of (persistedApplications st) (plotNumber record) of
           None \<Rightarrow> (False, record, st)
         | Some persisted \<Rightarrow>
             (let record1 = record\<lparr>applicationId := Some (p_applicationId persisted),
                                    paid := True, alreadyExistedInApplications := True\<rparr> in
              case openAndDownload (applications env) (clock env) record1 st of
                Inl msg \<Rightarrow> (False, record1\<lparr>alreadyExistedInApplications := False\<rparr>, st)
              | Inr (record2, st2) \<Rightarrow>
                  (if certificateDownloaded record2 then
                     (True, record2,
                      updatePersistedApplicationDownloadStatus (clock env) (plotNumber record)
                        True st2)
                   else (False, record2, st2))))
      else (False, record, st))"

text \<open>
  \<open>extractApplicationId\<close> (lines 1552-1603). The id the page intelligence gives is
  usable when, trimmed, it has at least six characters and \<open>/([A-Z0-9-]{6,})/i\<close>
  matches it. Otherwise the page text is read once and the four patterns are tried on
  it. Anything thrown is caught and gives \<open>null\<close>.
\<close>

definition usableId :: "string option \<Rightarrow> string option" where
  "usableId extracted =
     (if truthy extracted then
        (if trim (the extracted) \<noteq> [] \<and> 6 \<le> length (trim (the extracted))
         then firstRun isIdChar 6 [] (trim (the extracted))
         else None)
      else None)"

definition extractApplicationId ::
  "plot_env \<Rightarrow> string \<Rightarrow> site_agent \<Rightarrow> string option \<times> site_agent" where
  "extractApplicationId env plotNo st =
     (case extraction env of
        Inl msg \<Rightarrow> (None, st)
      | Inr extracted \<Rightarrow>
          (case usableId extracted of
             Some found \<Rightarrow> (Some found, st)
           | None \<Rightarrow>
               (let st1 = st\<lparr>events := events st @ [AppIdFallback plotNo]\<rparr> in
                case idFallback env of
                  Inl msg \<Rightarrow> (None, st1)
                | Inr matched \<Rightarrow> (if truthy matched then matched else None, st1))))"

text \<open>Steps 12 to 15 (lines 1449-1529): the payment itself, then the download wait.\<close>

definition isPayNowButton :: "element \<Rightarrow> bool" where
  "isPayNowButton item =
     ((str_includes (desc item) ''pay now'' \<or>
       str_includes (desc item) ''pay'' \<and> str_includes (desc item) ''now'') \<and>
      method_of item = ''click'')"

definition payNow :: "plot_env \<Rightarrow> SitePlanRecord \<Rightarrow> site_agent \<Rightarrow> SitePlanRecord \<times> site_agent" where
  "payNow env record st =
     (case payNowObservation env of
        Inl msg \<Rightarrow> caught msg record st
      | Inr obs \<Rightarrow>
          (case find isPayNowButton obs of
             None \<Rightarrow> (record\<lparr>error := Some ''Pay Now button not found''\<rparr>, st)
           | Some payNowButton \<Rightarrow>
               (let r = retry (payNowClick env) clickOptions;
                    st1 = st\<lparr>events := events st @
                            replicate (calls r) (PayNowClick (plotNumber record))\<rparr> in
                case outcome_of r of
                  Inl t \<Rightarrow> caught (thrownMessage t) record st1
                | Inr u \<Rightarrow>
                    (case postPaymentObservation env of
                       Inl msg \<Rightarrow> caught msg record st1
                     | Inr after \<Rightarrow>
                         (if list_ex isErrorMessage after then
                            (record\<lparr>error := Some ''Payment failed - error message detected''\<rparr>,
                             st1)
                          else
                            downloadCertificate (download env) (clock env)
                              (record\<lparr>paid := True\<rparr>) st1)))))"

text \<open>
  Steps 10 and 11 (lines 1417-1542). \<open>balance >= amount\<close> is false when either side
  is \<open>NaN\<close>.
\<close>

definition validateFunds ::
  "site_config \<Rightarrow> plot_env \<Rightarrow> SitePlanRecord \<Rightarrow> site_agent \<Rightarrow> SitePlanRecord \<times> site_agent" where
  "validateFunds cfg env record st =
     (if truthy (walletBalance env) \<and> truthy (paymentAmount env) then
        (case (parseAmount (the (walletBalance env)), parseAmount (the (paymentAmount env))) of
           (Some balance, Some amount) \<Rightarrow>
             (if amount \<le> balance then
                (if \<not> paymentEnabled cfg
                 then (record\<lparr>walletBalanceSufficient := True\<rparr>, st)
                 else payNow env (record\<lparr>walletBalanceSufficient := True\<rparr>) st)
              else
                (record\<lparr>walletBalanceSufficient := False,
                        error := Some (''Insufficient balance: '' @ the (walletBalance env) @
                                       '' < '' @ the (paymentAmount env))\<rparr>, st))
         | _ \<Rightarrow>
             (record\<lparr>walletBalanceSufficient := False,
                     error := Some (''Insufficient balance: '' @ the (walletBalance env) @
                                    '' < '' @ the (paymentAmount env))\<rparr>, st))
      else (record\<lparr>error := Some ''Could not extract payment information''\<rparr>, st))"

text \<open>Steps 6 to 9 (lines 1330-1415): the wallet option.\<close>

definition isDariWallet :: "element \<Rightarrow> bool" where
  "isDariWallet item =
     (str_includes (desc item) ''dari wallet'' \<or>
      str_includes (desc item) ''dari'' \<and> str_includes (desc item) ''wallet'')"

definition paymentSection ::
  "site_config \<Rightarrow> plot_env \<Rightarrow> SitePlanRecord \<Rightarrow> site_agent \<Rightarrow> SitePlanRecord \<times> site_agent" where
  "paymentSection cfg env record st =
     (case paymentOptions env of
        Inl msg \<Rightarrow> caught msg record st
      | Inr options \<Rightarrow>
          (case find isDariWallet options of
             None \<Rightarrow> (record\<lparr>error := Some ''DARI wallet option not found on page''\<rparr>, st)
           | Some dariWalletOption \<Rightarrow>
               (if method_of dariWalletOption \<noteq> ''click'' then
                  (record\<lparr>error := Some ''DARI wallet element found but not interactive''\<rparr>, st)
                else if \<not> walletSelected env then
                  (record\<lparr>error := Some ''Failed to select DARI wallet payment option''\<rparr>, st)
                else
                  (case paymentDetailsCheck env of
                     Some msg \<Rightarrow> caught msg record st
                   | None \<Rightarrow> validateFunds cfg env record st))))"

text \<open>
  Step 5 (lines 1318-1329). With an id the record and the history get it; without
  one the source logs \<open>Will continue with payment section...\<close> and goes on.
\<close>

definition identify ::
  "site_config \<Rightarrow> plot_env \<Rightarrow> SitePlanRecord \<Rightarrow> site_agent \<Rightarrow> SitePlanRecord \<times> site_agent" where
  "identify cfg env record st =
     (case extractApplicationId env (plotNumber record) st of
        (extracted, st1) \<Rightarrow>
          (if truthy extracted then
             paymentSection cfg env (record\<lparr>applicationId := extracted\<rparr>)
               (addPersistedApplication (clock env) (plotNumber record) (the extracted) False st1)
           else paymentSection cfg env record st1))"

text \<open>
  The loop \<open>while (!certificatePageLoaded)\<close> of lines 1249-1289 has no bound: it ends
  when an observation shows the page, or throws. \<open>None\<close> is the loop that never ends.
\<close>

definition certificateContent :: "element list \<Rightarrow> bool" where
  "certificateContent obs =
     (list_ex (\<lambda>item. str_includes (desc item) ''dari wallet'' \<or>
                       str_includes (desc item) ''credit card'' \<or>
                       str_includes (desc item) ''debit'' \<or>
                       str_includes (desc item) ''payment'') obs \<or>
      list_ex (\<lambda>item. str_includes (desc item) ''application id'' \<or>
                       str_includes (desc item) ''reference number'') obs \<or>
      list_ex (\<lambda>item. str_includes (desc item) ''certificate'' \<or>
                       str_includes (desc item) ''site plan'') obs)"

partial_function (option) awaitCertificatePage ::
  "(nat \<Rightarrow> string + element list) \<Rightarrow> nat \<Rightarrow> (string + nat) option" where
  "awaitCertificatePage check observationAttempts =
     (case check (Suc observationAttempts) of
        Inl msg \<Rightarrow> Some (Inl msg)
      | Inr obs \<Rightarrow>
          if certificateContent obs then Some (Inr (Suc observationAttempts))
          else awaitCertificatePage check (Suc observationAttempts))"

definition afterProceed ::
  "site_config \<Rightarrow> plot_env \<Rightarrow> SitePlanRecord \<Rightarrow> site_agent \<Rightarrow>
   (SitePlanRecord \<times> site_agent) option" where
  "afterProceed cfg env record st =
     (case awaitCertificatePage (pageCheck env) 0 of
        None \<Rightarrow> None
      | Some (Inl msg) \<Rightarrow> Some (caught msg record st)
      | Some (Inr observations) \<Rightarrow>
          (if str_includes (certificateUrl env) ''404'' \<or>
              str_includes (certificateUrl env) ''error''
           then Some (record\<lparr>error := Some ''Navigation failed after clicking Proceed''\<rparr>, st)
           else Some (identify cfg env record st)))"

text \<open>Lines 1126-1242: the search results, the property card and the Proceed button.\<close>

definition noPropertyMessage :: "string option \<Rightarrow> element list \<Rightarrow> bool" where
  "noPropertyMessage text obs =
     ((case text of None \<Rightarrow> False
       | Some t \<Rightarrow> str_includes (toLowerCase t) ''you don't own any property'') \<or>
      (case text of None \<Rightarrow> False
       | Some t \<Rightarrow> str_includes (toLowerCase t) ''will not be able to proceed'') \<or>
      (case text of None \<Rightarrow> False
       | Some t \<Rightarrow> str_includes (toLowerCase t) ''no properties found'') \<or>
      length obs = 0)"

definition isProceedAction :: "element \<Rightarrow> bool" where
  "isProceedAction item =
     (method_of item = ''click'' \<and> str_includes (desc item) ''proceed'' \<and>
      \<not> str_includes (desc item) ''cancel'')"

definition selectAndProceed ::
  "site_config \<Rightarrow> plot_env \<Rightarrow> SitePlanRecord \<Rightarrow> site_agent \<Rightarrow>
   (SitePlanRecord \<times> site_agent) option" where
  "selectAndProceed cfg env record st =
     (case resultsObservation env of
        Inl msg \<Rightarrow> Some (caught msg record st)
      | Inr results \<Rightarrow>
          (case pageText env of
             Inl msg \<Rightarrow> Some (caught msg record st)
           | Inr text \<Rightarrow>
               (if noPropertyMessage text results then
                  Some (record\<lparr>error := Some ''Property not found or not owned by user''\<rparr>, st)
                else
                  (case selectSteps env of
                     Some msg \<Rightarrow> Some (caught msg record st)
                   | None \<Rightarrow>
                       (case proceedObserve env of
                          Inl msg \<Rightarrow> Some (caught msg record st)
                        | Inr obs \<Rightarrow>
                            (case find isProceedAction obs of
                               None \<Rightarrow>
                                 Some (caught ''Could not find Proceed button via observe()''
                                         record st)
                             | Some proceedAction \<Rightarrow>
                                 (case proceedClick env of
                                    Some msg \<Rightarrow> Some (caught msg record st)
                                  | None \<Rightarrow> afterProceed cfg env record st)))))))"

text \<open>\<open>/abudhabipay\.|paymentpage\./i.test(postSearchUrl)\<close>\<close>

definition paymentGateway :: "string \<Rightarrow> bool" where
  "paymentGateway url =
     (str_includes (toLowerCase url) ''abudhabipay.'' \<or>
      str_includes (toLowerCase url) ''paymentpage.'')"

text \<open>
  The function itself. After a redirect to the payment gateway it calls itself for
  the same plot, with a new record; \<open>envs k\<close> is the environment of pass number \<open>k\<close>.
  The first argument is the switch of the pre-payment check.
\<close>

partial_function (option) processPlotFrom ::
  "bool \<Rightarrow> site_config \<Rightarrow> (nat \<Rightarrow> plot_env) \<Rightarrow> PlotData \<Rightarrow> nat \<Rightarrow> site_agent \<Rightarrow>
   (SitePlanRecord \<times> site_agent) option" where
  "processPlotFrom enabled cfg envs plot k st =
     (case preCheck enabled (envs k) (newRecord plot) st of
        (returned, record, st1) \<Rightarrow>
          if returned then Some (record, st1)
          else
            (case searchSteps (envs k) of
               Some msg \<Rightarrow> Some (caught msg record st1)
             | None \<Rightarrow>
                 if paymentGateway (postSearchUrl (envs k)) then
                   (case renavigate (envs k) of
                      Some msg \<Rightarrow> Some (caught msg record st1)
                    | None \<Rightarrow> processPlotFrom enabled cfg envs plot (Suc k) st1)
                 else selectAndProceed cfg (envs k) record st1))"

definition searchAndProcessPlot ::
  "site_config \<Rightarrow> (nat \<Rightarrow> plot_env) \<Rightarrow> PlotData \<Rightarrow> site_agent \<Rightarrow>
   (SitePlanRecord \<times> site_agent) option" where
  "searchAndProcessPlot cfg envs plot st = processPlotFrom prePayCheckEnabled cfg envs plot 0 st"

subsection \<open>The batch (processAllPlots, lines 1897-1983, and executeWorkflow, 2307-2350)\<close>

text \<open>
  \<open>searchAndProcessPlot\<close> catches whatever is thrown inside it, so the \<open>catch\<close> of the
  loop body is never entered. Going back to the service page between plots can
  throw, which is caught. Every tenth plot, and after the loop, the history is saved.
\<close>

fun processPlots ::
  "site_config \<Rightarrow> (nat \<Rightarrow> nat \<Rightarrow> plot_env) \<Rightarrow> nat \<Rightarrow> PlotData list \<Rightarrow> site_agent \<Rightarrow>
   site_agent option" where
  "processPlots cfg envs i [] st = Some st"
| "processPlots cfg envs i (plot # rest) st =
     (case searchAndProcessPlot cfg (envs i) plot st of
        None \<Rightarrow> None
      | Some (record, st1) \<Rightarrow>
          processPlots cfg envs (Suc i) rest
            (if Suc i mod 10 = 0
             then savePersistedApplications (st1\<lparr>sitePlans := sitePlans st1 @ [record]\<rparr>)
             else st1\<lparr>sitePlans := sitePlans st1 @ [record]\<rparr>))"

definition processAllPlots ::
  "site_config \<Rightarrow> (nat \<Rightarrow> nat \<Rightarrow> plot_env) \<Rightarrow> PlotData list \<Rightarrow> site_agent \<Rightarrow>
   site_agent option" where
  "processAllPlots cfg envs plots st =
     (case processPlots cfg envs 0 plots st of
        None \<Rightarrow> None
      | Some st1 \<Rightarrow> Some (savePersistedApplications st1))"

text \<open>
  A run. \<open>loginSteps\<close> stands for \<open>navigateToDari\<close>, the login clicks and the mobile
  number; \<open>afterLogin\<close> for the account switch and the two navigation steps. The
  result is what \<open>executeWorkflow\<close> throws, if anything, and the agent as the run
  leaves it; \<open>None\<close> is a run that never ends.
\<close>

record run_env =
  initialize :: "string option"
  plotNumbers :: "string + PlotData list"
  loginSteps :: "string option"
  login :: login_env
  afterLogin :: "string option"
  plotEnvs :: "nat \<Rightarrow> nat \<Rightarrow> plot_env"
  recoveryEnvs :: "nat \<Rightarrow> applications_env"
  recoveryClock :: string

definition executeWorkflow ::
  "site_config \<Rightarrow> run_env \<Rightarrow> site_agent \<Rightarrow> (string option \<times> site_agent) option" where
  "executeWorkflow cfg env st0 =
     (case initialize env of
        Some msg \<Rightarrow> Some (Some msg, st0)
      | None \<Rightarrow>
          (let st = (if prePayCheckEnabled then loadPersistedApplications st0 else st0) in
           case plotNumbers env of
             Inl msg \<Rightarrow> Some (Some msg, st)
           | Inr plots \<Rightarrow>
               (case loginSteps env of
                  Some msg \<Rightarrow> Some (Some msg, st)
                | None \<Rightarrow>
                    (case waitForUAEPassApproval (login env) of
                       Inl msg \<Rightarrow> Some (Some msg, st)
                     | Inr u \<Rightarrow>
                         (case afterLogin env of
                            Some msg \<Rightarrow> Some (Some msg, st)
                          | None \<Rightarrow>
                              (case processAllPlots cfg (plotEnvs env) plots st of
                                 None \<Rightarrow> None
                               | Some st1 \<Rightarrow>
                                   Some (None, processFailedDownloads (recoveryEnvs env)
                                                 (recoveryClock env) st1)))))))"

subsection \<open>Vocabulary for the properties\<close>

text \<open>
  Observation \<open>k\<close> of the download wait leaves the wait going: it throws, or it shows
  neither an error indicator nor a download button and the page has not moved to an
  error URL.
\<close>

definition stillWaiting :: "download_env \<Rightarrow> nat \<Rightarrow> bool" where
  "stillWaiting env k =
     (case pageStateObservation env k of
        Inl msg \<Rightarrow> True
      | Inr obs \<Rightarrow>
          find isErrorMessage obs = None \<and> find isDownloadButton obs = None \<and>
          (loopLoadState env k \<noteq> None \<or>
           \<not> (currentUrl env k \<noteq> startUrl env \<and>
              (str_includes (currentUrl env k) ''error'' \<or>
               str_includes (currentUrl env k) ''404''))))"

text \<open>The plots of the \<open>Pay now\<close> clicks and of the recovery attempts among the events.\<close>

fun payClicks :: "event list \<Rightarrow> string list" where
  "payClicks [] = []"
| "payClicks (PayNowClick p # es) = p # payClicks es"
| "payClicks (e # es) = payClicks es"

fun recoveryAttempts :: "event list \<Rightarrow> string list" where
  "recoveryAttempts [] = []"
| "recoveryAttempts (RecoveryAttempt p # es) = p # recoveryAttempts es"
| "recoveryAttempts (e # es) = recoveryAttempts es"

fun fallbackReads :: "event list \<Rightarrow> string list" where
  "fallbackReads [] = []"
| "fallbackReads (AppIdFallback p # es) = p # fallbackReads es"
| "fallbackReads (e # es) = fallbackReads es"

text \<open>
  One pass through \<open>searchAndProcessPlot\<close> gets as far as the certificate page: the
  search goes through without a redirect, the property is found and selected, the
  Proceed button is found and clicked, and the page shows up at a good URL.
\<close>

definition reachesCertificatePage :: "plot_env \<Rightarrow> bool" where
  "reachesCertificatePage env =
     (searchSteps env = None \<and> \<not> paymentGateway (postSearchUrl env) \<and>
      (case resultsObservation env of
         Inl msg \<Rightarrow> False
       | Inr results \<Rightarrow>
           (case pageText env of
              Inl msg \<Rightarrow> False
            | Inr text \<Rightarrow> \<not> noPropertyMessage text results)) \<and>
      selectSteps env = None \<and>
      (case proceedObserve env of
         Inl msg \<Rightarrow> False
       | Inr obs \<Rightarrow> find isProceedAction obs \<noteq> None) \<and>
      proceedClick env = None \<and>
      (\<exists>n. awaitCertificatePage (pageCheck env) 0 = Some (Inr n)) \<and>
      \<not> str_includes (certificateUrl env) ''404'' \<and>
      \<not> str_includes (certificateUrl env) ''error'')"

text \<open>The wallet option is there, can be clicked and is selected, and the page settles.\<close>

definition reachesFunds :: "plot_env \<Rightarrow> bool" where
  "reachesFunds env =
     ((case paymentOptions env of
         Inl msg \<Rightarrow> False
       | Inr options \<Rightarrow>
           (case find isDariWallet options of
              None \<Rightarrow> False
            | Some dariWalletOption \<Rightarrow> method_of dariWalletOption = ''click'')) \<and>
      walletSelected env \<and> paymentDetailsCheck env = None)"

text \<open>The download wait starts: the page has loaded, and not at an error URL.\<close>

definition startOk :: "download_env \<Rightarrow> bool" where
  "startOk env =
     (dlLoadState env = None \<and> \<not> str_includes (startUrl env) ''404'' \<and>
      \<not> str_includes (startUrl env) ''error'' \<and> \<not> str_includes (startUrl env) ''not-found'')"

text \<open>
  The payment goes through at the first click: the \<open>Pay now\<close> button is found, the
  click succeeds and the page after it shows no error.
\<close>

definition paysAtOnce :: "plot_env \<Rightarrow> bool" where
  "paysAtOnce env =
     ((case payNowObservation env of
         Inl msg \<Rightarrow> False
       | Inr obs \<Rightarrow> find isPayNowButton obs \<noteq> None) \<and>
      payNowClick env 0 = Resolves () \<and>
      (case postPaymentObservation env of
         Inl msg \<Rightarrow> False
       | Inr after \<Rightarrow> \<not> list_ex isErrorMessage after))"

text \<open>Both amounts are read, and the balance covers the amount.\<close>

definition fundsSuffice :: "plot_env \<Rightarrow> bool" where
  "fundsSuffice env =
     (truthy (walletBalance env) \<and> truthy (paymentAmount env) \<and>
      (case (parseAmount (the (walletBalance env)), parseAmount (the (paymentAmount env))) of
         (Some balance, Some amount) \<Rightarrow> amount \<le> balance
       | _ \<Rightarrow> False))"

section \<open>The affection plan agent (dari-affection-plan-agent.ts)\<close>

text \<open>
  The messages that print amounts with \<open>toFixed(2)\<close> are kept as constructors that
  hold the amounts. \<open>InsufficientBalance totalRequired totalPlots balance shortage\<close> is
  the error \<open>Insufficient balance: need ... AED for ... plots, have ... AED. Add ...
  AED and restart.\<close>; any other thrown value is its message.
\<close>

datatype failure = InsufficientBalance rat nat rat rat | Failure string

datatype plot_error =
    PlotNotFound
  | ApplicationIdNotFound
  | CouldNotParse
  | InsufficientForBatch rat nat rat
  | InsufficientForPlot rat
  | Uncaught failure

record PlotResult = PlotData +
  r_applicationId :: "string option"
  paymentCompleted :: bool
  downloadCompleted :: bool
  r_error :: "plot_error option"

record affection_agent =
  results :: "PlotResult list"
  a_events :: "event list"

text \<open>
  The environment of one call of \<open>searchAndFilterPlot\<close>, in the order of the source.
  \<^item> \<open>a_searchSteps\<close>: lines 630-692 (observing the filter, typing the plot number,
    observing and clicking \<open>Show Results\<close>).
  \<^item> \<open>a_resultsObservation\<close>, \<open>a_pageText\<close>: lines 698 and 715.
  \<^item> \<open>a_navigateBack\<close>: \<open>navigateBackToServicePage\<close> for a plot that is not found.
  \<^item> \<open>a_selectSteps\<close>: lines 760-940 (the property card, the Proceed button, the
    waits for the next page, which only log, and the observation of the new page).
  \<^item> \<open>a_pageContent\<close>: \<open>hasApplicationId\<close> and \<open>applicationId\<close> of the extraction
    at line 969; \<open>a_idText\<close>: \<open>textContent('body')\<close> at line 1010.
  \<^item> \<open>a_walletSteps\<close>: lines 1040-1065; \<open>a_paymentDetails\<close>: \<open>walletBalance\<close>
    and \<open>paymentAmount\<close> of the extraction at line 1084.
  \<^item> \<open>a_payNowObservation\<close>, \<open>a_payNowClick\<close>: lines 1210 and 1224.
  \<^item> \<open>a_afterPayment\<close>: lines 1243-1367 (the waits for the download page; the two
    bounded loops in them only log).
  \<^item> \<open>a_downloadPageObservation\<close>, \<open>a_downloadClick\<close>: lines 1376 and 1411.
\<close>

record aplot_env =
  a_searchSteps :: "string option"
  a_resultsObservation :: "string + element list"
  a_pageText :: "string + string option"
  a_navigateBack :: "string option"
  a_selectSteps :: "string option"
  a_pageContent :: "string + bool \<times> string option"
  a_idText :: "string + string option"
  a_walletSteps :: "string option"
  a_paymentDetails :: "string + string \<times> string"
  a_payNowObservation :: "string + element list"
  a_payNowClick :: "nat \<Rightarrow> unit outcome"
  a_afterPayment :: "string option"
  a_downloadPageObservation :: "string + element list"
  a_downloadClick :: "nat \<Rightarrow> unit outcome"

definition plotResult ::
  "PlotData \<Rightarrow> string option \<Rightarrow> bool \<Rightarrow> bool \<Rightarrow> plot_error option \<Rightarrow> PlotResult" where
  "plotResult plot appId payment dl err =
     \<lparr>plotNumber = plotNumber plot, rowIndex = rowIndex plot, r_applicationId = appId,
      paymentCompleted = payment, downloadCompleted = dl, r_error = err\<rparr>"

text \<open>\<open>this.results.push(...)\<close>\<close>

definition pushResult :: "PlotResult \<Rightarrow> affection_agent \<Rightarrow> affection_agent" where
  "pushResult r st = st\<lparr>results := results st @ [r]\<rparr>"

text \<open>The not-found test of lines 718-726.\<close>

definition plotNotFound :: "string option \<Rightarrow> element list \<Rightarrow> bool" where
  "plotNotFound text obs =
     ((case text of None \<Rightarrow> False
       | Some t \<Rightarrow> str_includes (toLowerCase t) ''you don't own any property'' \<or>
                   str_includes (toLowerCase t) ''you do not own any property'' \<or>
                   str_includes (toLowerCase t) ''will not be able to proceed'') \<or>
      (case text of None \<Rightarrow> False
       | Some t \<Rightarrow> str_includes (toLowerCase t) ''no result'' \<or>
                   str_includes (toLowerCase t) ''not found'') \<or>
      length obs = 0)"

definition isAffectionPayNow :: "element \<Rightarrow> bool" where
  "isAffectionPayNow el = (str_includes (desc el) ''pay now'' \<and> method_of el = ''click'')"

definition isAffectionDownload :: "element \<Rightarrow> bool" where
  "isAffectionDownload el =
     (method_of el = ''click'' \<and>
      (str_includes (desc el) ''download'' \<and>
       (str_includes (desc el) ''certificate'' \<or> str_includes (desc el) ''plan'' \<or>
        str_includes (desc el) ''button'')))"

text \<open>
  Lines 1198-1479: the \<open>Pay now\<close> click and the download. A missing button ends the
  function without a result for the plot.
\<close>

definition payAndDownload ::
  "aplot_env \<Rightarrow> PlotData \<Rightarrow> string option \<Rightarrow> affection_agent \<Rightarrow>
   failure option \<times> affection_agent" where
  "payAndDownload env plot appId st =
     (case a_payNowObservation env of
        Inl msg \<Rightarrow> (Some (Failure msg), st)
      | Inr obs \<Rightarrow>
          (case find isAffectionPayNow obs of
             None \<Rightarrow> (None, st)
           | Some payNowButton \<Rightarrow>
               (let r = retry (a_payNowClick env) clickOptions;
                    st1 = st\<lparr>a_events := a_events st @
                            replicate (calls r) (PayNowClick (plotNumber plot))\<rparr> in
                case outcome_of r of
                  Inl t \<Rightarrow> (Some (Failure (thrownMessage t)), st1)
                | Inr u \<Rightarrow>
                    (case a_afterPayment env of
                       Some msg \<Rightarrow> (Some (Failure msg), st1)
                     | None \<Rightarrow>
                         (case a_downloadPageObservation env of
                            Inl msg \<Rightarrow> (Some (Failure msg), st1)
                          | Inr page \<Rightarrow>
                              (case find isAffectionDownload page of
                                 None \<Rightarrow>
                                   (None, pushResult (plotResult plot appId True False None) st1)
                               | Some downloadButton \<Rightarrow>
                                   (let d = retry (a_downloadClick env) clickOptions;
                                        st2 = st1\<lparr>a_events := a_events st1 @
                                                replicate (calls d)
                                                  (DownloadClick (plotNumber plot))\<rparr> in
                                    (None,
                                     pushResult
                                       (plotResult plot appId True
                                          (case outcome_of d of Inl t \<Rightarrow> False | Inr u \<Rightarrow> True)
                                          None)
                                       st2))))))))"

text \<open>
  Lines 1119-1196: the funds. \<open>isFirstPlot\<close> is \<open>this.results.length === 0\<close>, and
  \<open>totalPlots\<close> is the length of \<open>this.plots\<close>. The amounts, their product and their
  difference are exact rationals; they are the code's doubles when the amounts are
  whole numbers and the product is below \<open>2 ^ 53\<close>.
\<close>

definition checkFunds ::
  "PlotData list \<Rightarrow> aplot_env \<Rightarrow> PlotData \<Rightarrow> string option \<Rightarrow> rat \<Rightarrow> rat \<Rightarrow>
   affection_agent \<Rightarrow> failure option \<times> affection_agent" where
  "checkFunds plots env plot appId balance amount st =
     (let isFirstPlot = (length (results st) = 0) in
      if isFirstPlot then
        (let totalPlots = length plots;
             totalRequired = amount * of_nat totalPlots in
         if balance < totalRequired then
           (Some (InsufficientBalance totalRequired totalPlots balance (totalRequired - balance)),
            pushResult
              (plotResult plot appId False False
                 (Some (InsufficientForBatch totalRequired totalPlots balance))) st)
         else payAndDownload env plot appId st)
      else
        (if balance < amount then
           (None,
            pushResult
              (plotResult plot appId False False (Some (InsufficientForPlot (amount - balance))))
              st)
         else payAndDownload env plot appId st))"

text \<open>Lines 1040-1117: the wallet option and the two amounts.\<close>

definition readFunds ::
  "PlotData list \<Rightarrow> aplot_env \<Rightarrow> PlotData \<Rightarrow> string option \<Rightarrow> affection_agent \<Rightarrow>
   failure option \<times> affection_agent" where
  "readFunds plots env plot appId st =
     (case a_walletSteps env of
        Some msg \<Rightarrow> (Some (Failure msg), st)
      | None \<Rightarrow>
          (case a_paymentDetails env of
             Inl msg \<Rightarrow> (Some (Failure msg), st)
           | Inr (walletBalanceText, paymentAmountText) \<Rightarrow>
               (case (parseAmount walletBalanceText, parseAmount paymentAmountText) of
                  (Some balance, Some amount) \<Rightarrow> checkFunds plots env plot appId balance amount st
                | _ \<Rightarrow>
                    (None,
                     pushResult (plotResult plot appId False False (Some CouldNotParse)) st))))"

text \<open>
  Lines 996-1032: the application id, from the extraction or, failing that, from
  \<open>/(\d{14,})/\<close> on the page text.
\<close>

definition readApplicationId ::
  "PlotData list \<Rightarrow> aplot_env \<Rightarrow> PlotData \<Rightarrow> affection_agent \<Rightarrow>
   failure option \<times> affection_agent" where
  "readApplicationId plots env plot st =
     (case a_pageContent env of
        Inl msg \<Rightarrow> (Some (Failure msg), st)
      | Inr (hasApplicationId, extracted) \<Rightarrow>
          (if hasApplicationId \<and> truthy extracted then readFunds plots env plot extracted st
           else
             (let st1 = st\<lparr>a_events := a_events st @ [AppIdFallback (plotNumber plot)]\<rparr> in
              case a_idText env of
                Inl msg \<Rightarrow> (Some (Failure msg), st1)
              | Inr pageTextContent \<Rightarrow>
                  (case (case pageTextContent of None \<Rightarrow> None
                         | Some t \<Rightarrow> firstRun isDigit 14 [] t) of
                     Some appIdMatch \<Rightarrow> readFunds plots env plot (Some appIdMatch) st1
                   | None \<Rightarrow>
                       (None,
                        pushResult
                          (plotResult plot None False False (Some ApplicationIdNotFound))
                          st1)))))"

text \<open>
  \<open>searchAndFilterPlot\<close> (lines 622-1479). Nothing in it is caught: what a step
  throws leaves the function, with the results pushed so far in place.
\<close>

definition searchAndFilterPlot ::
  "PlotData list \<Rightarrow> aplot_env \<Rightarrow> PlotData \<Rightarrow> affection_agent \<Rightarrow>
   failure option \<times> affection_agent" where
  "searchAndFilterPlot plots env plot st =
     (case a_searchSteps env of
        Some msg \<Rightarrow> (Some (Failure msg), st)
      | None \<Rightarrow>
          (case a_resultsObservation env of
             Inl msg \<Rightarrow> (Some (Failure msg), st)
           | Inr obs \<Rightarrow>
               (case a_pageText env of
                  Inl msg \<Rightarrow> (Some (Failure msg), st)
                | Inr text \<Rightarrow>
                    (if plotNotFound text obs then
                       (case a_navigateBack env of
                          Some msg \<Rightarrow>
                            (Some (Failure msg),
                             pushResult (plotResult plot None False False (Some PlotNotFound))
                               st)
                        | None \<Rightarrow>
                            (None,
                             pushResult (plotResult plot None False False (Some PlotNotFound))
                               st))
                     else
                       (case a_selectSteps env of
                          Some msg \<Rightarrow> (Some (Failure msg), st)
                        | None \<Rightarrow> readApplicationId plots env plot st)))))"

subsection \<open>The batch (executeWorkflow, lines 1639-1794)\<close>

text \<open>
  The test both \<open>catch\<close> blocks apply to the message of what was thrown. The message
  of \<open>InsufficientBalance\<close> contains \<open>need\<close>, \<open>for\<close> and \<open>plots\<close>.
\<close>

fun batchValidationError :: "failure \<Rightarrow> bool" where
  "batchValidationError (InsufficientBalance totalRequired totalPlots balance shortage) = True"
| "batchValidationError (Failure m) =
     (str_includes m ''Insufficient balance for batch'' \<or>
      str_includes m ''need'' \<and> str_includes m ''for'' \<and> str_includes m ''plots'')"

text \<open>
  The loop over \<open>this.plots\<close>. A batch validation error is thrown on; any other error
  is recorded for the plot, unless the plot has a result already, and the loop goes
  on. Going back to the service page between plots can throw, which is caught.
\<close>

fun processPlotList ::
  "PlotData list \<Rightarrow> (nat \<Rightarrow> aplot_env) \<Rightarrow> nat \<Rightarrow> PlotData list \<Rightarrow> affection_agent \<Rightarrow>
   failure option \<times> affection_agent" where
  "processPlotList plots envs i [] st = (None, st)"
| "processPlotList plots envs i (plot # rest) st =
     (case searchAndFilterPlot plots (envs i) plot st of
        (None, st1) \<Rightarrow> processPlotList plots envs (Suc i) rest st1
      | (Some plotError, st1) \<Rightarrow>
          (if batchValidationError plotError then (Some plotError, st1)
           else
             processPlotList plots envs (Suc i) rest
               (if list_ex (\<lambda>r. plotNumber r = plotNumber plot) (results st1) then st1
                else pushResult (plotResult plot None False False (Some (Uncaught plotError)))
                       st1)))"

text \<open>
  How a run ends: all plots gone through, stopped by the batch validation (the outer
  \<open>catch\<close> prints the amount to add and returns), or failed with the error thrown on.
\<close>

datatype run_end = Completed | Stopped failure | Failed failure

record arun_env =
  a_beforePlots :: "string option"
  a_plotNumbers :: "string + PlotData list"
  a_plotEnvs :: "nat \<Rightarrow> aplot_env"

definition endOfRun :: "failure \<Rightarrow> run_end" where
  "endOfRun e = (if batchValidationError e then Stopped e else Failed e)"

definition affectionWorkflow :: "arun_env \<Rightarrow> affection_agent \<Rightarrow> run_end \<times> affection_agent" where
  "affectionWorkflow env st =
     (case a_beforePlots env of
        Some msg \<Rightarrow> (endOfRun (Failure msg), st)
      | None \<Rightarrow>
          (case a_plotNumbers env of
             Inl msg \<Rightarrow> (endOfRun (Failure msg), st)
           | Inr plots \<Rightarrow>
               (case processPlotList plots (a_plotEnvs env) 0 plots st of
                  (None, st1) \<Rightarrow> (Completed, st1)
                | (Some e, st1) \<Rightarrow> (endOfRun e, st1))))"

section \<open>Scenarios\<close>

definition flaky :: "nat \<Rightarrow> nat outcome" where
  "flaky k = (if k < 2 then Rejects (ErrorObj ''timeout'') else Resolves 7)"



definition paid_once :: storage where
  "paid_once =
     \<lparr>persistedApplications =
        [(''A-1'', \<lparr>p_plotNumber = ''A-1'', p_applicationId = ''REQ-1001'',
                    paymentDate = ''2025-01-01'', downloaded = True,
                    lastChecked = ''2025-01-02''\<rparr>)],
      storageFile = NoFile, fileWritable = True\<rparr>"

definition read_only :: storage where
  "read_only = \<lparr>persistedApplications = [], storageFile = NoFile, fileWritable = False\<rparr>"


text \<open>Pages, plots and agents for the concrete runs below.\<close>

definition el :: "string \<Rightarrow> string \<Rightarrow> element" where
  "el d m = \<lparr>description = Some d, method_of = m\<rparr>"

definition succeeds :: "nat \<Rightarrow> unit outcome" where
  "succeeds k = Resolves ()"

definition button_appears :: download_env where
  "button_appears =
     \<lparr>dlLoadState = None, startUrl = ''https://www.dari.ae/en/app/payment/result'',
      pageStateObservation = (\<lambda>k. Inr [el ''Download Certificate button'' ''click'']),
      downloadClick = (\<lambda>k. succeeds), loopLoadState = (\<lambda>k. None),
      currentUrl = (\<lambda>k. ''https://www.dari.ae/en/app/payment/result'')\<rparr>"

definition never_appears :: download_env where
  "never_appears =
     button_appears\<lparr>pageStateObservation :=
       (\<lambda>k. Inr [el ''Generating your certificate, please wait'' ''none''])\<rparr>"

definition fails_third :: download_env where
  "fails_third =
     button_appears\<lparr>pageStateObservation :=
       (\<lambda>k. if k = 3 then Inr [el ''Certificate generation failed'' ''none'']
             else Inr [el ''Generating your certificate, please wait'' ''none''])\<rparr>"

definition applications_ready :: applications_env where
  "applications_ready =
     \<lparr>navigateToApplicationsPage = None, searchApplicationById = None,
      viewEnv = \<lparr>viewClick = succeeds, viewLoadState = None,
                 headerObservation = (\<lambda>k. Inr [el ''Download Certificate button'' ''click'']),
                 viewDownloadClick = (\<lambda>k. succeeds)\<rparr>\<rparr>"

definition owned_plot :: plot_env where
  "owned_plot =
     \<lparr>clock = ''2025-03-01T10:00:00Z'',
      applications = applications_ready,
      searchSteps = None,
      postSearchUrl = ''https://www.dari.ae/en/app/services/site-plan'',
      renavigate = None,
      resultsObservation = Inr [el ''Property card of the plot'' ''click''],
      pageText = Inr (Some ''1 property''),
      selectSteps = None,
      proceedObserve = Inr [el ''Cancel button'' ''click'', el ''Proceed button'' ''click''],
      proceedClick = None,
      pageCheck = (\<lambda>k. Inr [el ''DARI wallet payment option'' ''click'']),
      certificateUrl = ''https://www.dari.ae/en/app/services/site-plan/pay'',
      extraction = Inr (Some ''REQ-2002''),
      idFallback = Inr None,
      paymentOptions = Inr [el ''Credit card radio button'' ''click'',
                            el ''DARI wallet radio button'' ''click''],
      walletSelected = True,
      paymentDetailsCheck = None,
      walletBalance = Some ''AED 150.50'',
      paymentAmount = Some ''AED 100'',
      payNowObservation = Inr [el ''Pay now button'' ''click''],
      payNowClick = succeeds,
      postPaymentObservation = Inr [el ''Payment received'' ''none''],
      download = button_appears\<rparr>"

definition unreadable_id :: plot_env where
  "unreadable_id = owned_plot\<lparr>extraction := Inr (Some ''''), download := never_appears\<rparr>"

definition live :: site_config where
  "live = \<lparr>paymentEnabled = True\<rparr>"

definition plotA1 :: PlotData where
  "plotA1 = \<lparr>plotNumber = ''A-1'', rowIndex = 2\<rparr>"

definition new_agent :: site_agent where
  "new_agent = \<lparr>persistedApplications = [], storageFile = NoFile, fileWritable = True,
                 sitePlans = [], events = []\<rparr>"

definition returning_agent :: site_agent where
  "returning_agent =
     \<lparr>persistedApplications =
        [(''A-1'', \<lparr>p_plotNumber = ''A-1'', p_applicationId = ''REQ-1001'',
                    paymentDate = ''2025-01-01'', downloaded = False,
                    lastChecked = ''2025-01-02''\<rparr>)],
      storageFile = NoFile, fileWritable = True, sitePlans = [], events = []\<rparr>"

definition approved :: login_env where
  "approved =
     \<lparr>loginUrl = (\<lambda>k. if k < 4 then ''https://stg-id.uaepass.ae/idshub/login''
                        else ''https://www.dari.ae/en/app/home''),
      loginObservation = (\<lambda>k j. Inr [el ''User profile avatar'' ''click''])\<rparr>"

definition not_approved :: login_env where
  "not_approved =
     \<lparr>loginUrl = (\<lambda>k. ''https://stg-id.uaepass.ae/idshub/login''),
      loginObservation = (\<lambda>k j. Inr [el ''User profile avatar'' ''click''])\<rparr>"

definition no_indicators :: login_env where
  "no_indicators =
     \<lparr>loginUrl = (\<lambda>k. ''https://www.dari.ae/en/app/home''),
      loginObservation = (\<lambda>k j. Inr [])\<rparr>"

definition one_plot_run :: run_env where
  "one_plot_run =
     \<lparr>initialize = None, plotNumbers = Inr [plotA1], loginSteps = None, login = approved,
      afterLogin = None, plotEnvs = (\<lambda>i k. unreadable_id),
      recoveryEnvs = (\<lambda>i. applications_ready), recoveryClock = ''2025-03-01T11:00:00Z''\<rparr>"

definition a_owned :: "string \<Rightarrow> string \<Rightarrow> aplot_env" where
  "a_owned balance fee =
     \<lparr>a_searchSteps = None,
      a_resultsObservation = Inr [el ''Property card of the plot'' ''click''],
      a_pageText = Inr (Some ''1 property''),
      a_navigateBack = None,
      a_selectSteps = None,
      a_pageContent = Inr (True, Some ''20250301000123''),
      a_idText = Inr (Some ''Application 20250301000123''),
      a_walletSteps = None,
      a_paymentDetails = Inr (balance, fee),
      a_payNowObservation = Inr [el ''Pay now button'' ''click''],
      a_payNowClick = succeeds,
      a_afterPayment = None,
      a_downloadPageObservation = Inr [el ''Download certificate button'' ''click''],
      a_downloadClick = succeeds\<rparr>"

definition a_not_owned :: aplot_env where
  "a_not_owned =
     (a_owned '''' '''')\<lparr>a_resultsObservation := Inr [],
        a_pageText := Inr (Some ''You don't own any property'')\<rparr>"

definition a_no_id :: aplot_env where
  "a_no_id =
     (a_owned ''AED 150'' ''AED 100'')\<lparr>a_pageContent := Inr (False, None),
        a_idText := Inr (Some ''Reference 2025-03'')\<rparr>"

definition a_no_button :: "string \<Rightarrow> string \<Rightarrow> aplot_env" where
  "a_no_button balance fee = (a_owned balance fee)\<lparr>a_payNowObservation := Inr []\<rparr>"

definition plotA2 :: PlotData where
  "plotA2 = \<lparr>plotNumber = ''A-2'', rowIndex = 3\<rparr>"

definition plotA3 :: PlotData where
  "plotA3 = \<lparr>plotNumber = ''A-3'', rowIndex = 4\<rparr>"

definition a_new :: affection_agent where
  "a_new = \<lparr>results = [], a_events = []\<rparr>"

definition first_not_owned :: arun_env where
  "first_not_owned =
     \<lparr>a_beforePlots = None, a_plotNumbers = Inr [plotA1, plotA2, plotA3],
      a_plotEnvs = (\<lambda>i. if i = 0 then a_not_owned
                         else if i = 1 then a_owned ''AED 150'' ''AED 100''
                         else a_owned ''AED 50'' ''AED 100'')\<rparr>"

definition button_missing_first :: arun_env where
  "button_missing_first =
     \<lparr>a_beforePlots = None, a_plotNumbers = Inr [plotA1, plotA2, plotA3],
      a_plotEnvs = (\<lambda>i. if i = 0 then a_no_button ''AED 500'' ''AED 100''
                         else if i = 1 then a_owned ''AED 50'' ''AED 100''
                         else a_owned ''AED 500'' ''AED 100'')\<rparr>"

definition paid_record :: "string option \<Rightarrow> SitePlanRecord" where
  "paid_record appId = (newRecord plotA1)\<lparr>applicationId := appId, paid := True\<rparr>"

definition applications_down :: applications_env where
  "applications_down = applications_ready\<lparr>navigateToApplicationsPage := Some ''Navigation timeout''\<rparr>"

definition after_batch :: site_agent where
  "after_batch =
     new_agent\<lparr>sitePlans :=
       [(newRecord plotA1)\<lparr>applicationId := Some ''REQ-1001'', paid := True\<rparr>,
        (newRecord plotA2)\<lparr>paid := True\<rparr>,
        (newRecord plotA3)\<lparr>applicationId := Some ''REQ-3003'', paid := True\<rparr>]\<rparr>"
section \<open>Properties of JavaScript numbers\<close>









section \<open>Properties of the retry wrapper\<close>

lemma retry_loop_over:
  "maxA < of_nat attempt \<Longrightarrow>
   retry_loop fn maxA d m cb attempt le n sl nt =
     \<lparr>outcome_of = Inl (throwLast le), calls = n, sleeps = sl, notified = nt\<rparr>"
  by (simp add: retry_loop.simps)











text \<open>
  C10. With \<open>maxAttempts \<le> 0\<close> the loop body never runs: \<open>fn\<close> is not invoked, nothing
  is waited for, and \<open>throw lastError!\<close> throws the uninitialised variable, that is
  \<open>undefined\<close>, which is not an \<open>Error\<close>.
\<close>

theorem retry_nonpositive_maxAttempts:
  "maxA \<le> 0 \<Longrightarrow>
   retry fn \<lparr>maxAttempts = Some maxA, delayMs = d, backoffMultiplier = m, onRetry = cb\<rparr> =
     \<lparr>outcome_of = Inl ThrowUndefined, calls = 0, sleeps = [], notified = []\<rparr>"
  by (simp add: retry_def retry_loop_over)

theorem retry_nonpositive_maxAttempts_witness:
  "retry flaky \<lparr>maxAttempts = Some 0, delayMs = None, backoffMultiplier = None, onRetry = False\<rparr> =
     \<lparr>outcome_of = Inl ThrowUndefined, calls = 0, sleeps = [], notified = []\<rparr> \<and>
   retry flaky \<lparr>maxAttempts = Some (- 2), delayMs = Some (Finite 5), backoffMultiplier = None,
                onRetry = True\<rparr> =
     \<lparr>outcome_of = Inl ThrowUndefined, calls = 0, sleeps = [], notified = []\<rparr>"
  using retry_nonpositive_maxAttempts[of 0 flaky None None False]
        retry_nonpositive_maxAttempts[of "- 2" flaky "Some (Finite 5)" None True]
  by simp

section \<open>Properties of the persisted application history\<close>

lemma update_fresh: "k \<notin> fst ` set m \<Longrightarrow> AList.update k v m = m @ [(k, v)]"
  by (induction m) auto

lemma reload_aux:
  "distinct (map fst (acc @ m)) \<Longrightarrow> list_all (\<lambda>kv. p_plotNumber (snd kv) = fst kv) m \<Longrightarrow>
   foldl (\<lambda>m app. AList.update (p_plotNumber app) app m) acc (map snd m) = acc @ m"
proof (induction m arbitrary: acc)
  case Nil
  then show ?case by simp
next
  case (Cons kv m)
  obtain k v where kv: "kv = (k, v)" by (cases kv)
  from Cons.prems kv have pk: "p_plotNumber v = k" by simp
  from Cons.prems kv have fresh: "k \<notin> fst ` set acc" by auto
  have d: "distinct (map fst ((acc @ [(k, v)]) @ m))" using Cons.prems(1) kv by simp
  have l: "list_all (\<lambda>kv. p_plotNumber (snd kv) = fst kv) m" using Cons.prems(2) by simp
  show ?case using Cons.IH[OF d l] by (simp add: kv pk update_fresh[OF fresh])
qed

lemma reload_saved:
  "ledger_ok m \<Longrightarrow> foldl (\<lambda>m app. AList.update (p_plotNumber app) app m) [] (map snd m) = m"
  using reload_aux[of "[]" m] by (simp add: ledger_ok_def)

lemma list_all_update:
  "list_all P m \<Longrightarrow> P (k, v) \<Longrightarrow> list_all P (AList.update k v m)"
  by (induction m) auto

lemma ledger_ok_update:
  "ledger_ok m \<Longrightarrow> p_plotNumber v = k \<Longrightarrow> ledger_ok (AList.update k v m)"
  unfolding ledger_ok_def
  by (simp add: AList.distinct_update list_all_update)

lemma ledger_ok_Nil: "ledger_ok []"
  by (simp add: ledger_ok_def)

lemma ledger_ok_fold:
  "ledger_ok acc \<Longrightarrow>
   ledger_ok (foldl (\<lambda>m app. AList.update (p_plotNumber app) app m) acc apps)"
  by (induction apps arbitrary: acc) (simp_all add: ledger_ok_update)

lemma ledger_ok_map_of:
  "ledger_ok m \<Longrightarrow> map_of m k = Some v \<Longrightarrow> p_plotNumber v = k"
  unfolding ledger_ok_def by (induction m) (auto split: if_splits)

text \<open>The invariant holds at every step of an agent's life.\<close>

lemma ledger_ok_load:
  "ledger_ok (persistedApplications st) \<Longrightarrow>
   ledger_ok (persistedApplications (loadPersistedApplications st))"
  by (cases "storageFile st") (simp_all add: loadPersistedApplications_def ledger_ok_fold)

lemma ledger_ok_add:
  "ledger_ok (persistedApplications st) \<Longrightarrow>
   ledger_ok (persistedApplications (addPersistedApplication now p a d st))"
  by (simp add: addPersistedApplication_def savePersistedApplications_def ledger_ok_update)

lemma ledger_ok_mark:
  "ledger_ok (persistedApplications st) \<Longrightarrow>
   ledger_ok (persistedApplications (updatePersistedApplicationDownloadStatus now p d st))"
  by (cases "map_of (persistedApplications st) p")
     (auto simp: updatePersistedApplicationDownloadStatus_def savePersistedApplications_def
        intro!: ledger_ok_update dest: ledger_ok_map_of)

text \<open>
  C3 (as the code has it). \<open>addPersistedApplication\<close> has no check for an existing
  entry: it sets the entry of the plot to the new application id, payment date and
  download flag whether or not one was there, and leaves every other plot's entry
  alone. The map never holds two entries for one plot number.
\<close>

theorem addPersistedApplication_sets_entry:
  "map_of (persistedApplications (addPersistedApplication now p a d st)) p =
     Some \<lparr>p_plotNumber = p, p_applicationId = a, paymentDate = now, downloaded = d,
           lastChecked = now\<rparr> \<and>
   (\<forall>q. q \<noteq> p \<longrightarrow>
      map_of (persistedApplications (addPersistedApplication now p a d st)) q =
      map_of (persistedApplications st) q) \<and>
   (distinct (map fst (persistedApplications st)) \<longrightarrow>
      distinct (map fst (persistedApplications (addPersistedApplication now p a d st))))"
  by (simp add: addPersistedApplication_def savePersistedApplications_def
      AList.update_conv' AList.distinct_update)

theorem addPersistedApplication_sets_entry_witness:
  "map_of (persistedApplications
      (addPersistedApplication ''2025-02-01'' ''A-2'' ''REQ-2002'' False paid_once)) ''A-2'' =
     Some \<lparr>p_plotNumber = ''A-2'', p_applicationId = ''REQ-2002'', paymentDate = ''2025-02-01'',
           downloaded = False, lastChecked = ''2025-02-01''\<rparr> \<and>
   map_of (persistedApplications
      (addPersistedApplication ''2025-02-01'' ''A-2'' ''REQ-2002'' False paid_once)) ''A-1'' =
     map_of (persistedApplications paid_once) ''A-1'' \<and>
   distinct (map fst (persistedApplications paid_once)) \<and>
   distinct (map fst (persistedApplications
      (addPersistedApplication ''2025-02-01'' ''A-2'' ''REQ-2002'' False paid_once)))"
proof -
  have d: "distinct (map fst (persistedApplications paid_once))"
    by (simp add: paid_once_def)
  have n: "''A-1'' \<noteq> ''A-2''" by simp
  note T = addPersistedApplication_sets_entry
    [of "''2025-02-01''" "''A-2''" "''REQ-2002''" False paid_once]
  from T have 1: "map_of (persistedApplications
      (addPersistedApplication ''2025-02-01'' ''A-2'' ''REQ-2002'' False paid_once)) ''A-2'' =
     Some \<lparr>p_plotNumber = ''A-2'', p_applicationId = ''REQ-2002'', paymentDate = ''2025-02-01'',
           downloaded = False, lastChecked = ''2025-02-01''\<rparr>"
    by (rule conjunct1)
  from T have 2: "\<forall>q. q \<noteq> ''A-2'' \<longrightarrow>
      map_of (persistedApplications
        (addPersistedApplication ''2025-02-01'' ''A-2'' ''REQ-2002'' False paid_once)) q =
      map_of (persistedApplications paid_once) q"
    by (rule conjunct1[OF conjunct2])
  from T have 3: "distinct (map fst (persistedApplications paid_once)) \<longrightarrow>
      distinct (map fst (persistedApplications
        (addPersistedApplication ''2025-02-01'' ''A-2'' ''REQ-2002'' False paid_once)))"
    by (rule conjunct2[OF conjunct2])
  from 2 n have w2: "map_of (persistedApplications
      (addPersistedApplication ''2025-02-01'' ''A-2'' ''REQ-2002'' False paid_once)) ''A-1'' =
     map_of (persistedApplications paid_once) ''A-1''"
    by simp
  from 3 d have w3: "distinct (map fst (persistedApplications
      (addPersistedApplication ''2025-02-01'' ''A-2'' ''REQ-2002'' False paid_once)))"
    by (rule mp)
  show ?thesis by (intro conjI 1 w2 d w3)
qed

text \<open>
  The claim as the specification states it fails: an entry that exists is replaced,
  with a different application id, and its download flag is reset.
\<close>

theorem addPersistedApplication_overwrites:
  "map_of (persistedApplications paid_once) ''A-1'' =
     Some \<lparr>p_plotNumber = ''A-1'', p_applicationId = ''REQ-1001'', paymentDate = ''2025-01-01'',
           downloaded = True, lastChecked = ''2025-01-02''\<rparr> \<and>
   map_of (persistedApplications
      (addPersistedApplication ''2025-02-01'' ''A-1'' ''REQ-2002'' False paid_once)) ''A-1'' =
     Some \<lparr>p_plotNumber = ''A-1'', p_applicationId = ''REQ-2002'', paymentDate = ''2025-02-01'',
           downloaded = False, lastChecked = ''2025-02-01''\<rparr>"
  by (simp add: paid_once_def addPersistedApplication_def savePersistedApplications_def)

text \<open>
  C4 (as the code has it). When \<open>writeFileSync\<close> succeeds, recording a payment and
  marking a download leave the whole map in the file before they return: an agent
  constructed afterwards that loads the file has the same map, with the new entry (or
  the new download flag) in it. A write that throws is caught and logged, and the
  operation returns all the same.
\<close>

theorem ledger_write_through:
  "fileWritable st \<and> ledger_ok (persistedApplications st) \<longrightarrow>
     storageFile (addPersistedApplication now p a d st) =
       JsonArray (map snd (persistedApplications (addPersistedApplication now p a d st))) \<and>
     persistedApplications
       (loadPersistedApplications (restart (addPersistedApplication now p a d st))) =
       persistedApplications (addPersistedApplication now p a d st) \<and>
     map_of (persistedApplications
       (loadPersistedApplications (restart (addPersistedApplication now p a d st)))) p =
       Some \<lparr>p_plotNumber = p, p_applicationId = a, paymentDate = now, downloaded = d,
             lastChecked = now\<rparr> \<and>
     (\<forall>e. map_of (persistedApplications st) p = Some e \<longrightarrow>
        storageFile (updatePersistedApplicationDownloadStatus now p d st) =
          JsonArray (map snd (persistedApplications
            (updatePersistedApplicationDownloadStatus now p d st))) \<and>
        map_of (persistedApplications (loadPersistedApplications (restart
          (updatePersistedApplicationDownloadStatus now p d st)))) p =
          Some (e\<lparr>downloaded := d, lastChecked := now\<rparr>))"
proof (intro impI)
  assume h: "fileWritable st \<and> ledger_ok (persistedApplications st)"
  let ?new = "\<lparr>p_plotNumber = p, p_applicationId = a, paymentDate = now, downloaded = d,
             lastChecked = now\<rparr>"
  let ?m = "AList.update p ?new (persistedApplications st)"
  have okm: "ledger_ok ?m" using h by (simp add: ledger_ok_update)
  have add: "persistedApplications (addPersistedApplication now p a d st) = ?m"
    "storageFile (addPersistedApplication now p a d st) = JsonArray (map snd ?m)"
    using h by (simp_all add: addPersistedApplication_def savePersistedApplications_def)
  have load: "persistedApplications
       (loadPersistedApplications (restart (addPersistedApplication now p a d st))) = ?m"
    using reload_saved[OF okm]
    by (simp add: loadPersistedApplications_def restart_def add)
  have look: "map_of ?m p = Some ?new" by (simp add: AList.update_conv')
  have mark: "storageFile (updatePersistedApplicationDownloadStatus now p d st) =
          JsonArray (map snd (persistedApplications
            (updatePersistedApplicationDownloadStatus now p d st))) \<and>
        map_of (persistedApplications (loadPersistedApplications (restart
          (updatePersistedApplicationDownloadStatus now p d st)))) p =
          Some (e\<lparr>downloaded := d, lastChecked := now\<rparr>)"
    if e: "map_of (persistedApplications st) p = Some e" for e
  proof -
    let ?u = "AList.update p (e\<lparr>downloaded := d, lastChecked := now\<rparr>) (persistedApplications st)"
    have pe: "p_plotNumber e = p" using h e by (auto dest: ledger_ok_map_of)
    have oku: "ledger_ok ?u" using h pe by (simp add: ledger_ok_update)
    have u: "persistedApplications (updatePersistedApplicationDownloadStatus now p d st) = ?u"
      "storageFile (updatePersistedApplicationDownloadStatus now p d st) = JsonArray (map snd ?u)"
      using h e
      by (simp_all add: updatePersistedApplicationDownloadStatus_def savePersistedApplications_def)
    have "persistedApplications (loadPersistedApplications (restart
          (updatePersistedApplicationDownloadStatus now p d st))) = ?u"
      using reload_saved[OF oku] by (simp add: loadPersistedApplications_def restart_def u)
    then show ?thesis by (simp add: u AList.update_conv')
  qed
  from add load look mark
  show "storageFile (addPersistedApplication now p a d st) =
       JsonArray (map snd (persistedApplications (addPersistedApplication now p a d st))) \<and>
     persistedApplications
       (loadPersistedApplications (restart (addPersistedApplication now p a d st))) =
       persistedApplications (addPersistedApplication now p a d st) \<and>
     map_of (persistedApplications
       (loadPersistedApplications (restart (addPersistedApplication now p a d st)))) p =
       Some ?new \<and>
     (\<forall>e. map_of (persistedApplications st) p = Some e \<longrightarrow>
        storageFile (updatePersistedApplicationDownloadStatus now p d st) =
          JsonArray (map snd (persistedApplications
            (updatePersistedApplicationDownloadStatus now p d st))) \<and>
        map_of (persistedApplications (loadPersistedApplications (restart
          (updatePersistedApplicationDownloadStatus now p d st)))) p =
          Some (e\<lparr>downloaded := d, lastChecked := now\<rparr>))"
    by simp
qed

theorem ledger_write_through_witness:
  "fileWritable paid_once \<and> ledger_ok (persistedApplications paid_once) \<and>
   map_of (persistedApplications (loadPersistedApplications (restart
     (addPersistedApplication ''2025-02-01'' ''A-2'' ''REQ-2002'' False paid_once)))) ''A-2'' =
     Some \<lparr>p_plotNumber = ''A-2'', p_applicationId = ''REQ-2002'', paymentDate = ''2025-02-01'',
           downloaded = False, lastChecked = ''2025-02-01''\<rparr> \<and>
   map_of (persistedApplications (loadPersistedApplications (restart
     (updatePersistedApplicationDownloadStatus ''2025-02-01'' ''A-1'' False paid_once)))) ''A-1'' =
     Some \<lparr>p_plotNumber = ''A-1'', p_applicationId = ''REQ-1001'', paymentDate = ''2025-01-01'',
           downloaded = False, lastChecked = ''2025-02-01''\<rparr>"
proof -
  have h: "fileWritable paid_once \<and> ledger_ok (persistedApplications paid_once)"
    by (simp add: paid_once_def ledger_ok_def)
  have e: "map_of (persistedApplications paid_once) ''A-1'' =
     Some \<lparr>p_plotNumber = ''A-1'', p_applicationId = ''REQ-1001'', paymentDate = ''2025-01-01'',
           downloaded = True, lastChecked = ''2025-01-02''\<rparr>"
    by (simp add: paid_once_def)
  note A = ledger_write_through[of paid_once "''2025-02-01''" "''A-2''" "''REQ-2002''" False,
      THEN mp, OF h]
  note M = ledger_write_through[of paid_once "''2025-02-01''" "''A-1''" "''REQ-2002''" False,
      THEN mp, OF h]
  have 1: "map_of (persistedApplications (loadPersistedApplications (restart
     (addPersistedApplication ''2025-02-01'' ''A-2'' ''REQ-2002'' False paid_once)))) ''A-2'' =
     Some \<lparr>p_plotNumber = ''A-2'', p_applicationId = ''REQ-2002'', paymentDate = ''2025-02-01'',
           downloaded = False, lastChecked = ''2025-02-01''\<rparr>"
    by (rule A[THEN conjunct2, THEN conjunct2, THEN conjunct1])
  have 2: "map_of (persistedApplications (loadPersistedApplications (restart
     (updatePersistedApplicationDownloadStatus ''2025-02-01'' ''A-1'' False paid_once)))) ''A-1'' =
     Some (\<lparr>p_plotNumber = ''A-1'', p_applicationId = ''REQ-1001'', paymentDate = ''2025-01-01'',
           downloaded = True, lastChecked = ''2025-01-02''\<rparr>
             \<lparr>downloaded := False, lastChecked := ''2025-02-01''\<rparr>)"
    by (rule M[THEN conjunct2, THEN conjunct2, THEN conjunct2, rule_format, OF e, THEN conjunct2])
  from h 1 2 show ?thesis by simp
qed

text \<open>
  The claim as the specification states it fails where the file cannot be written:
  \<open>addPersistedApplication\<close> returns, and an agent constructed afterwards finds no
  entry.
\<close>

theorem unwritable_history_loses_payment:
  "map_of (persistedApplications (loadPersistedApplications (restart
     (addPersistedApplication ''2025-02-01'' ''A-1'' ''REQ-1001'' False read_only)))) ''A-1'' = None"
  by (simp add: read_only_def addPersistedApplication_def savePersistedApplications_def
      restart_def loadPersistedApplications_def)
section \<open>Stepping through the site plan agent\<close>

lemma readyLoop_iff:
  "readyLoop observe m a = (\<exists>j. a \<le> j \<and> j \<le> m \<and> (\<exists>ob. observe j = Inr ob \<and> ob \<noteq> []))"
proof (induction observe m a rule: readyLoop.induct)
  case (1 observe m a)
  show ?case
  proof (cases "a \<le> m")
    case False
    then show ?thesis by (subst readyLoop.simps) auto
  next
    case le: True
    have split: "(\<exists>j. a \<le> j \<and> j \<le> m \<and> (\<exists>ob. observe j = Inr ob \<and> ob \<noteq> [])) =
       ((\<exists>ob. observe a = Inr ob \<and> ob \<noteq> []) \<or>
        (\<exists>j. Suc a \<le> j \<and> j \<le> m \<and> (\<exists>ob. observe j = Inr ob \<and> ob \<noteq> [])))"
      using le by (metis Suc_leI le_neq_implies_less order_refl Suc_leD)
    show ?thesis
    proof (cases "observe a")
      case (Inl msg)
      with le "1.IH"(1)[OF le Inl] show ?thesis
        unfolding split by (subst readyLoop.simps) simp
    next
      case (Inr ob)
      show ?thesis
      proof (cases "ob = []")
        case True
        with le Inr "1.IH"(2)[OF le Inr] show ?thesis
          unfolding split by (subst readyLoop.simps) simp
      next
        case False
        with le Inr show ?thesis
          unfolding split by (subst readyLoop.simps) simp
      qed
    qed
  qed
qed

lemma approvalLoop_iff:
  "approvalLoop env a =
     (\<exists>k. a \<le> k \<and> k \<le> MAX_WAIT_ATTEMPTS \<and> leftAuthDomain (loginUrl env k) \<and>
          intelligentWaitUntilPageReady (loginObservation env k) 60)"
proof (induction env a rule: approvalLoop.induct)
  case (1 env a)
  let ?P = "\<lambda>k. leftAuthDomain (loginUrl env k) \<and>
          intelligentWaitUntilPageReady (loginObservation env k) 60"
  show ?case
  proof (cases "a \<le> MAX_WAIT_ATTEMPTS")
    case False
    then show ?thesis by (subst approvalLoop.simps) auto
  next
    case le: True
    have split: "(\<exists>k. a \<le> k \<and> k \<le> MAX_WAIT_ATTEMPTS \<and> ?P k) =
       (?P a \<or> (\<exists>k. Suc a \<le> k \<and> k \<le> MAX_WAIT_ATTEMPTS \<and> ?P k))"
      using le by (metis Suc_leI le_neq_implies_less order_refl Suc_leD)
    show ?thesis
    proof (cases "leftAuthDomain (loginUrl env a)")
      case False
      with le "1.IH"(2)[OF le False] show ?thesis
        unfolding split by (subst approvalLoop.simps) simp
    next
      case left: True
      show ?thesis
      proof (cases "intelligentWaitUntilPageReady (loginObservation env a) 60")
        case True
        with le left show ?thesis unfolding split by (subst approvalLoop.simps) simp
      next
        case False
        with le left "1.IH"(1)[OF le left False] show ?thesis
          unfolding split by (subst approvalLoop.simps) simp
      qed
    qed
  qed
qed

lemma login_iff:
  "(waitForUAEPassApproval env = Inr ()) =
     (\<exists>k. 1 \<le> k \<and> k \<le> 60 \<and> leftAuthDomain (loginUrl env k) \<and>
          (\<exists>j. 1 \<le> j \<and> j \<le> 20 \<and> (\<exists>ob. loginObservation env k j = Inr ob \<and> ob \<noteq> [])))"
  by (auto simp: waitForUAEPassApproval_def approvalLoop_iff intelligentWaitUntilPageReady_def
      readyLoop_iff MAX_WAIT_ATTEMPTS_def)

lemma downloadLoop_step:
  assumes "observationCount < MAX_OBSERVATIONS" "stillWaiting env (Suc observationCount)"
  shows "downloadLoop env now False observationCount record st =
         downloadLoop env now False (Suc observationCount) record
           (st\<lparr>events := events st @
              [ObserveDownload (plotNumber record) (Suc observationCount)]\<rparr>)"
  using assms
  by (subst downloadLoop.simps)
     (auto simp: stillWaiting_def Let_def split: sum.splits option.splits)

lemma downloadLoop_quiet:
  "c \<le> m \<Longrightarrow> m \<le> MAX_OBSERVATIONS \<Longrightarrow> (\<forall>j. c < j \<and> j \<le> m \<longrightarrow> stillWaiting env j) \<Longrightarrow>
   downloadLoop env now False c record st =
   downloadLoop env now False m record
     (st\<lparr>events := events st @ map (ObserveDownload (plotNumber record)) [Suc c..<Suc m]\<rparr>)"
proof (induction m)
  case 0
  then show ?case by simp
next
  case (Suc m)
  show ?case
  proof (cases "c = Suc m")
    case True
    then show ?thesis by simp
  next
    case False
    with Suc.prems have cm: "c \<le> m" "m \<le> MAX_OBSERVATIONS" "m < MAX_OBSERVATIONS"
      and q: "\<forall>j. c < j \<and> j \<le> m \<longrightarrow> stillWaiting env j" and w: "stillWaiting env (Suc m)"
      by auto
    have up: "[Suc c..<Suc (Suc m)] = [Suc c..<Suc m] @ [Suc m]" using cm by simp
    show ?thesis
      unfolding Suc.IH[OF cm(1,2) q] downloadLoop_step[OF cm(3) w] up
      by simp
  qed
qed

lemma downloadLoop_error:
  assumes "observationCount < MAX_OBSERVATIONS"
    and "pageStateObservation env (Suc observationCount) = Inr obs"
    and "find isErrorMessage obs \<noteq> None"
  shows "downloadLoop env now False observationCount record st =
         (True, False, record\<lparr>error := Some ''Certificate generation failed''\<rparr>,
          st\<lparr>events := events st @
              [ObserveDownload (plotNumber record) (Suc observationCount)]\<rparr>)"
  using assms by (subst downloadLoop.simps) (simp add: Let_def)

lemma downloadLoop_cap:
  "downloadLoop env now found MAX_OBSERVATIONS record st = (False, found, record, st)"
  by (subst downloadLoop.simps) simp

lemma downloadLoop_error_at:
  assumes k: "1 \<le> k" "k \<le> MAX_OBSERVATIONS"
    and q: "\<forall>j. 1 \<le> j \<and> j < k \<longrightarrow> stillWaiting env j"
    and e: "pageStateObservation env k = Inr obs" "find isErrorMessage obs \<noteq> None"
  shows "downloadLoop env now False 0 record st =
         (True, False, record\<lparr>error := Some ''Certificate generation failed''\<rparr>,
          st\<lparr>events := events st @ map (ObserveDownload (plotNumber record)) [1..<Suc k]\<rparr>)"
proof -
  obtain m where m: "k = Suc m" using k by (cases k) auto
  have 1: "0 \<le> m" "m \<le> MAX_OBSERVATIONS" "m < MAX_OBSERVATIONS" using k m by auto
  have 2: "\<forall>j. 0 < j \<and> j \<le> m \<longrightarrow> stillWaiting env j" using q m by auto
  have up: "[Suc 0..<Suc (Suc m)] = [Suc 0..<Suc m] @ [Suc m]" by simp
  show ?thesis
    unfolding downloadLoop_quiet[OF 1(1,2) 2]
      downloadLoop_error[OF 1(3) e(1)[unfolded m] e(2)] m
    by (simp add: up del: upt_Suc)
qed

lemma downloadLoop_exhausted:
  assumes q: "\<forall>j. 1 \<le> j \<and> j \<le> MAX_OBSERVATIONS \<longrightarrow> stillWaiting env j"
  shows "downloadLoop env now False 0 record st =
         (False, False, record,
          st\<lparr>events := events st @
             map (ObserveDownload (plotNumber record)) [1..<Suc MAX_OBSERVATIONS]\<rparr>)"
proof -
  have 2: "\<forall>j. 0 < j \<and> j \<le> MAX_OBSERVATIONS \<longrightarrow> stillWaiting env j" using q by auto
  show ?thesis
    unfolding downloadLoop_quiet[OF le0 order_refl 2] downloadLoop_cap by simp
qed

lemma downloadCertificate_error_at:
  assumes "startOk env" "1 \<le> k" "k \<le> MAX_OBSERVATIONS"
    and "\<forall>j. 1 \<le> j \<and> j < k \<longrightarrow> stillWaiting env j"
    and "pageStateObservation env k = Inr obs" "find isErrorMessage obs \<noteq> None"
  shows "downloadCertificate env now record st =
     (record\<lparr>downloadAttempts := Suc (downloadAttempts record),
             lastDownloadAttemptTime := Some now,
             error := Some ''Certificate generation failed''\<rparr>,
      st\<lparr>events := events st @ map (ObserveDownload (plotNumber record)) [1..<Suc k]\<rparr>)"
  using assms(1)
  by (simp add: downloadCertificate_def startOk_def Let_def
      downloadLoop_error_at[OF assms(2-6)])

lemma downloadCertificate_exhausted:
  assumes "startOk env"
    and "\<forall>j. 1 \<le> j \<and> j \<le> MAX_OBSERVATIONS \<longrightarrow> stillWaiting env j"
  shows "downloadCertificate env now record st =
     (record\<lparr>downloadAttempts := Suc (downloadAttempts record),
             lastDownloadAttemptTime := Some now,
             error := Some (extendError (error record) ''Download button never appeared''
                ''Download button did not appear after extended observations'')\<rparr>,
      st\<lparr>events := events st @
         map (ObserveDownload (plotNumber record)) [1..<Suc MAX_OBSERVATIONS]\<rparr>)"
  using assms(1)
  by (simp add: downloadCertificate_def startOk_def Let_def
      downloadLoop_exhausted[OF assms(2)])

lemma recoveryAttempts_append:
  "recoveryAttempts (a @ b) = recoveryAttempts a @ recoveryAttempts b"
  by (induction a rule: recoveryAttempts.induct) simp_all

lemma recoveryAttempts_clicks: "recoveryAttempts (replicate n (DownloadClick p)) = []"
  by (induction n) simp_all

lemma events_mark:
  "events (updatePersistedApplicationDownloadStatus now p d st) = events st"
  by (simp add: updatePersistedApplicationDownloadStatus_def savePersistedApplications_def
      split: option.splits)

lemma payClicks_append: "payClicks (a @ b) = payClicks a @ payClicks b"
  by (induction a rule: payClicks.induct) simp_all

lemma payClicks_clicks: "payClicks (replicate n (DownloadClick p)) = []"
  by (induction n) simp_all

text \<open>The applications page adds download clicks to the events, and nothing else.\<close>

lemma viewLoop_events:
  "\<exists>n. events (snd (snd (viewLoop env now a rcd st))) =
        events st @ replicate n (DownloadClick (plotNumber rcd))"
proof (induction env now a rcd st rule: viewLoop.induct)
  case (1 env now a rcd st)
  show ?case
  proof (cases "a < MAX_ATTEMPTS")
    case False
    then have "events (snd (snd (viewLoop env now a rcd st))) =
        events st @ replicate 0 (DownloadClick (plotNumber rcd))"
      by (subst viewLoop.simps) simp
    then show ?thesis by blast
  next
    case lt: True
    show ?thesis
    proof (cases "headerObservation env (Suc a)")
      case (Inl msg)
      with lt "1.IH"(1)[OF lt Inl] show ?thesis by (subst viewLoop.simps) simp
    next
      case (Inr obs)
      show ?thesis
      proof (cases "find isHeaderDownloadButton obs")
        case None
        with lt Inr "1.IH"(2)[OF lt Inr None] show ?thesis by (subst viewLoop.simps) simp
      next
        case (Some b)
        let ?r = "retry (viewDownloadClick env (Suc a)) clickOptions"
        let ?st1 = "st\<lparr>events := events st @
                               replicate (calls ?r) (DownloadClick (plotNumber rcd))\<rparr>"
        show ?thesis
        proof (cases "outcome_of ?r")
          case (Inl t)
          from "1.IH"(3)[OF lt Inr Some refl refl Inl]
          obtain n where n: "events (snd (snd (viewLoop env now (Suc a) rcd ?st1))) =
              events ?st1 @ replicate n (DownloadClick (plotNumber rcd))" by blast
          have "events (snd (snd (viewLoop env now a rcd st))) =
              events st @ replicate (calls ?r + n) (DownloadClick (plotNumber rcd))"
            using lt Inr Some Inl n
            by (subst viewLoop.simps) (simp add: Let_def replicate_add)
          then show ?thesis by blast
        next
          case (Inr u)
          have "events (snd (snd (viewLoop env now a rcd st))) =
              events st @ replicate (calls ?r) (DownloadClick (plotNumber rcd))"
            using lt \<open>headerObservation env (Suc a) = Inr obs\<close> Some Inr
            by (subst viewLoop.simps) (simp add: Let_def events_mark)
          then show ?thesis by blast
        qed
      qed
    qed
  qed
qed

lemma viewLoop_recoveryAttempts:
  "recoveryAttempts (events (snd (snd (viewLoop env now a rcd st)))) =
   recoveryAttempts (events st)"
  using viewLoop_events[of env now a rcd st]
  by (auto simp: recoveryAttempts_append recoveryAttempts_clicks)

lemma viewLoop_payClicks:
  "payClicks (events (snd (snd (viewLoop env now a rcd st)))) = payClicks (events st)"
  using viewLoop_events[of env now a rcd st]
  by (auto simp: payClicks_append payClicks_clicks)

lemma openAndDownload_payClicks:
  assumes "openAndDownload env now rcd st = Inr (r2, st2)"
  shows "payClicks (events st2) = payClicks (events st)"
proof -
  from viewLoop_payClicks[of "viewEnv env" now 0 rcd st] assms
  show ?thesis
    by (cases "viewLoop (viewEnv env) now 0 rcd st")
       (auto simp: openAndDownload_def viewAndDownloadApplication_def
          split: option.splits sum.splits if_splits)
qed

lemma recoverOne_recoveryAttempts:
  "recoveryAttempts (events (snd (recoverOne env now record st))) =
   recoveryAttempts (events st) @ [plotNumber record]"
proof -
  let ?st1 = "st\<lparr>events := events st @ [RecoveryAttempt (plotNumber record)]\<rparr>"
  have a: "recoveryAttempts (events ?st1) = recoveryAttempts (events st) @ [plotNumber record]"
    by (simp add: recoveryAttempts_append)
  have v: "recoveryAttempts (events (snd (snd (viewLoop (viewEnv env) now 0 record ?st1)))) =
     recoveryAttempts (events ?st1)"
    by (rule viewLoop_recoveryAttempts)
  show ?thesis
    using a v
    by (cases "viewLoop (viewEnv env) now 0 record ?st1")
       (auto simp: recoverOne_def openAndDownload_def viewAndDownloadApplication_def Let_def
          split: option.splits sum.splits)
qed

lemma recoverAll_recoveryAttempts:
  "recoveryAttempts (events (snd (recoverAll envs now i plans st))) =
   recoveryAttempts (events st) @ map plotNumber (filter failedDownload plans)"
proof (induction envs now i plans st rule: recoverAll.induct)
  case (1 envs now i st)
  then show ?case by simp
next
  case (2 envs now i rcd rest st)
  show ?case
  proof (cases "failedDownload rcd")
    case False
    with "2.IH"(2)[OF False] show ?thesis by (auto split: prod.splits)
  next
    case True
    obtain rcd1 st1 where r: "recoverOne (envs i) now rcd st = (rcd1, st1)"
      by (cases "recoverOne (envs i) now rcd st")
    from recoverOne_recoveryAttempts[of "envs i" now rcd st] r
    have s1: "recoveryAttempts (events st1) = recoveryAttempts (events st) @ [plotNumber rcd]"
      by simp
    from "2.IH"(1)[OF True r[symmetric]] s1 True r
    show ?thesis by (auto split: prod.splits)
  qed
qed

lemma events_save: "events (savePersistedApplications st) = events st"
  by (simp add: savePersistedApplications_def)

lemma processFailedDownloads_recoveryAttempts:
  "recoveryAttempts (events (processFailedDownloads envs now st)) =
   recoveryAttempts (events st) @ map plotNumber (failedDownloads (sitePlans st))"
proof (cases "failedDownloads (sitePlans st) = []")
  case True
  then show ?thesis by (simp add: processFailedDownloads_def)
next
  case False
  obtain plans st1 where r: "recoverAll envs now 0 (sitePlans st) st = (plans, st1)"
    by (cases "recoverAll envs now 0 (sitePlans st) st")
  from recoverAll_recoveryAttempts[of envs now 0 "sitePlans st" st] r False
  show ?thesis by (simp add: processFailedDownloads_def events_save failedDownloads_def)
qed

lemma processPlotFrom_reaches:
  assumes "reachesCertificatePage (envs 0)"
  shows "processPlotFrom False cfg envs plot 0 st =
         Some (identify cfg (envs 0) (newRecord plot) st)"
proof -
  from assms obtain n where n: "awaitCertificatePage (pageCheck (envs 0)) 0 = Some (Inr n)"
    by (auto simp: reachesCertificatePage_def)
  from assms have a: "afterProceed cfg (envs 0) (newRecord plot) st =
      Some (identify cfg (envs 0) (newRecord plot) st)"
    by (simp add: afterProceed_def n reachesCertificatePage_def)
  from assms have s: "selectAndProceed cfg (envs 0) (newRecord plot) st =
      afterProceed cfg (envs 0) (newRecord plot) st"
    by (auto simp: selectAndProceed_def reachesCertificatePage_def split: sum.splits)
  from assms show ?thesis
    by (subst processPlotFrom.simps)
       (simp add: preCheck_def s a reachesCertificatePage_def)
qed

lemma paymentSection_reaches:
  "reachesFunds env \<Longrightarrow> paymentSection cfg env rcd st = validateFunds cfg env rcd st"
  by (auto simp: paymentSection_def reachesFunds_def split: sum.splits option.splits)

lemma identify_without_id:
  assumes "extraction env = Inr x" "usableId x = None" "idFallback env = Inr m" "\<not> truthy m"
  shows "identify cfg env rcd st =
         paymentSection cfg env rcd (st\<lparr>events := events st @ [AppIdFallback (plotNumber rcd)]\<rparr>)"
  using assms by (simp add: identify_def extractApplicationId_def Let_def truthy_def)


lemma retry_first_call:
  "fn 0 = Resolves v \<Longrightarrow>
   retry fn clickOptions = \<lparr>outcome_of = Inr v, calls = 1, sleeps = [], notified = []\<rparr>"
  by (simp add: retry_def clickOptions_def retry_loop.simps)

lemma payNow_at_once:
  assumes "paysAtOnce env"
  shows "payNow env rcd st =
     downloadCertificate (download env) (clock env) (rcd\<lparr>paid := True\<rparr>)
       (st\<lparr>events := events st @ [PayNowClick (plotNumber rcd)]\<rparr>)"
proof -
  from assms have c: "payNowClick env 0 = Resolves ()" by (simp add: paysAtOnce_def)
  from assms show ?thesis
    by (auto simp: payNow_def paysAtOnce_def retry_first_call[of "payNowClick env", OF c] Let_def
        split: sum.splits option.splits)
qed

lemma validateFunds_sufficient:
  assumes "walletBalance env = Some wb" "wb \<noteq> []" "paymentAmount env = Some pa" "pa \<noteq> []"
    and "parseAmount wb = Some b" "parseAmount pa = Some a" "a \<le> b" "paymentEnabled cfg"
  shows "validateFunds cfg env rcd st =
         payNow env (rcd\<lparr>walletBalanceSufficient := True\<rparr>) st"
  using assms by (simp add: validateFunds_def truthy_def)

lemma validateFunds_insufficient:
  assumes "walletBalance env = Some wb" "wb \<noteq> []" "paymentAmount env = Some pa" "pa \<noteq> []"
    and "parseAmount wb = Some b" "parseAmount pa = Some a" "b < a"
  shows "validateFunds cfg env rcd st =
         (rcd\<lparr>walletBalanceSufficient := False,
               error := Some (''Insufficient balance: '' @ wb @ '' < '' @ pa)\<rparr>, st)"
  using assms by (simp add: validateFunds_def truthy_def)

lemma events_add: "events (addPersistedApplication now p a d st) = events st"
  by (simp add: addPersistedApplication_def savePersistedApplications_def)

lemmas page_defs = desc_def el_def toLowerCase_def lower_char_def

lemma parse_150_50: "parseAmount ''AED 150.50'' = Some (301 / 2)"
  by (simp add: parseAmount_def parseFloat_def isDigit_def digitsValue_def digitValue_def Let_def)

lemma parse_100: "parseAmount ''AED 100'' = Some 100"
  by (simp add: parseAmount_def parseFloat_def isDigit_def digitsValue_def digitValue_def Let_def)

lemma await_owned: "awaitCertificatePage (pageCheck owned_plot) 0 = Some (Inr 1)"
  by (subst awaitCertificatePage.simps)
     (simp add: owned_plot_def certificateContent_def page_defs)

lemma owned_reaches: "reachesCertificatePage owned_plot"
  unfolding reachesCertificatePage_def
  apply (intro conjI)
          apply (simp_all add: await_owned)
         apply (simp_all add: owned_plot_def paymentGateway_def noPropertyMessage_def
      isProceedAction_def page_defs)
  done

lemma owned_funds: "reachesFunds owned_plot"
  by (simp add: reachesFunds_def owned_plot_def isDariWallet_def page_defs)

lemma owned_pays: "paysAtOnce owned_plot"
  by (simp add: paysAtOnce_def owned_plot_def isPayNowButton_def isErrorMessage_def
      succeeds_def page_defs)

lemma identify_with_id:
  assumes "extraction env = Inr x" "usableId x = Some i" "i \<noteq> []"
  shows "identify cfg env rcd st =
         paymentSection cfg env (rcd\<lparr>applicationId := Some i\<rparr>)
           (addPersistedApplication (clock env) (plotNumber rcd) i False st)"
  using assms by (simp add: identify_def extractApplicationId_def truthy_def)

lemma usable_REQ: "usableId (Some ''REQ-2002'') = Some ''REQ-2002''"
  by (simp add: usableId_def truthy_def trim_def isSpace_def isIdChar_def isDigit_def
      lower_char_def)

lemma usable_empty: "usableId (Some '''') = None"
  by (simp add: usableId_def truthy_def)

lemma owned_run:
  "searchAndProcessPlot live (\<lambda>k. owned_plot) plotA1 st =
   Some (downloadCertificate button_appears ''2025-03-01T10:00:00Z''
          ((newRecord plotA1)\<lparr>applicationId := Some ''REQ-2002'',
              walletBalanceSufficient := True, paid := True\<rparr>)
          ((addPersistedApplication ''2025-03-01T10:00:00Z'' ''A-1'' ''REQ-2002'' False st)
             \<lparr>events := events st @ [PayNowClick ''A-1'']\<rparr>))"
proof -
  have x: "extraction owned_plot = Inr (Some ''REQ-2002'')" by (simp add: owned_plot_def)
  have w: "walletBalance owned_plot = Some ''AED 150.50''" "paymentAmount owned_plot = Some ''AED 100''"
    "clock owned_plot = ''2025-03-01T10:00:00Z''" "download owned_plot = button_appears"
    by (simp_all add: owned_plot_def)
  have l: "paymentEnabled live" by (simp add: live_def)
  have p: "plotNumber (newRecord plotA1) = ''A-1''" by (simp add: newRecord_def plotA1_def)
  show ?thesis
    unfolding searchAndProcessPlot_def prePayCheckEnabled_def
      processPlotFrom_reaches[of "\<lambda>k. owned_plot", OF owned_reaches]
      identify_with_id[OF x usable_REQ, simplified]
      paymentSection_reaches[OF owned_funds]
      validateFunds_sufficient[OF w(1) _ w(2) _ parse_150_50 parse_100 _ l, simplified]
      payNow_at_once[OF owned_pays]
    by (simp add: w p events_add)
qed

lemma never_appears_waits: "stillWaiting never_appears j"
  by (simp add: stillWaiting_def never_appears_def button_appears_def isErrorMessage_def
      isDownloadButton_def page_defs)

lemma never_appears_start: "startOk never_appears"
  by (simp add: startOk_def never_appears_def button_appears_def)

lemma unreadable_reaches: "reachesCertificatePage unreadable_id"
  using owned_reaches
  by (simp add: reachesCertificatePage_def unreadable_id_def cong: sum.case_cong)

lemma unreadable_funds: "reachesFunds unreadable_id"
  using owned_funds by (simp add: reachesFunds_def unreadable_id_def cong: sum.case_cong)

lemma unreadable_pays: "paysAtOnce unreadable_id"
  using owned_pays by (simp add: paysAtOnce_def unreadable_id_def cong: sum.case_cong)

lemma unreadable_run:
  "searchAndProcessPlot live (\<lambda>k. unreadable_id) plotA1 st =
   Some ((newRecord plotA1)\<lparr>walletBalanceSufficient := True, paid := True,
            downloadAttempts := 1, lastDownloadAttemptTime := Some ''2025-03-01T10:00:00Z'',
            error := Some ''Download button did not appear after extended observations''\<rparr>,
         st\<lparr>events := events st @ [AppIdFallback ''A-1'', PayNowClick ''A-1''] @
            map (ObserveDownload ''A-1'') [1..<Suc MAX_OBSERVATIONS]\<rparr>)"
proof -
  have x: "extraction unreadable_id = Inr (Some '''')" "idFallback unreadable_id = Inr None"
    by (simp_all add: unreadable_id_def owned_plot_def)
  have w: "walletBalance unreadable_id = Some ''AED 150.50''"
    "paymentAmount unreadable_id = Some ''AED 100''"
    "clock unreadable_id = ''2025-03-01T10:00:00Z''" "download unreadable_id = never_appears"
    by (simp_all add: unreadable_id_def owned_plot_def)
  have l: "paymentEnabled live" by (simp add: live_def)
  have p: "plotNumber (newRecord plotA1) = ''A-1''" by (simp add: newRecord_def plotA1_def)
  have t: "\<not> truthy None" by (simp add: truthy_def)
  have q: "\<forall>j. 1 \<le> j \<and> j \<le> MAX_OBSERVATIONS \<longrightarrow> stillWaiting never_appears j"
    by (simp add: never_appears_waits)
  show ?thesis
    unfolding searchAndProcessPlot_def prePayCheckEnabled_def
      processPlotFrom_reaches[of "\<lambda>k. unreadable_id", OF unreadable_reaches]
      identify_without_id[OF x(1) usable_empty x(2) t]
      paymentSection_reaches[OF unreadable_funds]
      validateFunds_sufficient[OF w(1) _ w(2) _ parse_150_50 parse_100 _ l, simplified]
      payNow_at_once[OF unreadable_pays] w
      downloadCertificate_exhausted[OF never_appears_start q]
    by (simp add: p newRecord_def plotA1_def extendError_def)
qed

lemmas affection_defs =
  searchAndFilterPlot_def readApplicationId_def readFunds_def checkFunds_def
  payAndDownload_def plotNotFound_def isAffectionPayNow_def isAffectionDownload_def
  pushResult_def plotResult_def

lemmas amount_defs =
  parseAmount_def parseFloat_def isDigit_def digitsValue_def digitValue_def

lemma parse_150: "parseAmount ''AED 150'' = Some 150"
  by (simp add: amount_defs Let_def)

lemma parse_50: "parseAmount ''AED 50'' = Some 50"
  by (simp add: amount_defs Let_def)

lemma parse_500: "parseAmount ''AED 500'' = Some 500"
  by (simp add: amount_defs Let_def)

lemma retry_succeeds:
  "retry succeeds clickOptions = \<lparr>outcome_of = Inr (), calls = 1, sleeps = [], notified = []\<rparr>"
  by (rule retry_first_call) (simp add: succeeds_def)

lemma a_not_owned_step:
  "searchAndFilterPlot plots a_not_owned plot st =
     (None, pushResult (plotResult plot None False False (Some PlotNotFound)) st)"
  by (simp add: searchAndFilterPlot_def a_not_owned_def a_owned_def plotNotFound_def)

lemma a_owned_reads:
  "parseAmount balance = Some b \<Longrightarrow> parseAmount fee = Some a \<Longrightarrow>
   searchAndFilterPlot plots (a_owned balance fee) plot st =
     checkFunds plots (a_owned balance fee) plot (Some ''20250301000123'') b a st"
  by (simp add: searchAndFilterPlot_def readApplicationId_def readFunds_def a_owned_def
      plotNotFound_def truthy_def toLowerCase_def lower_char_def)

lemma a_owned_pays:
  "payAndDownload (a_owned balance fee) plot appId st =
     (None, pushResult (plotResult plot appId True True None)
        (st\<lparr>a_events := a_events st @
            [PayNowClick (plotNumber plot), DownloadClick (plotNumber plot)]\<rparr>))"
  by (simp add: payAndDownload_def a_owned_def isAffectionPayNow_def isAffectionDownload_def
      page_defs retry_succeeds Let_def)

lemma first_not_owned_run:
  "affectionWorkflow first_not_owned a_new =
     (Completed,
      \<lparr>results =
         [plotResult plotA1 None False False (Some PlotNotFound),
          plotResult plotA2 (Some ''20250301000123'') True True None,
          plotResult plotA3 (Some ''20250301000123'') False False
            (Some (InsufficientForPlot 50))],
       a_events = [PayNowClick ''A-2'', DownloadClick ''A-2'']\<rparr>)"
  by (simp add: affectionWorkflow_def first_not_owned_def a_new_def a_not_owned_step
      a_owned_reads[OF parse_150 parse_100] a_owned_reads[OF parse_50 parse_100]
      checkFunds_def a_owned_pays pushResult_def plotA2_def)

lemma download_button_appears:
  "downloadCertificate button_appears now rcd st =
     (rcd\<lparr>downloadAttempts := Suc (downloadAttempts rcd), lastDownloadAttemptTime := Some now,
          certificateDownloaded := True\<rparr>,
      updatePersistedApplicationDownloadStatus now (plotNumber rcd) True
        (st\<lparr>events := events st @ [ObserveDownload (plotNumber rcd) 1,
                                     DownloadClick (plotNumber rcd)]\<rparr>))"
  apply (simp add: downloadCertificate_def button_appears_def Let_def)
  apply (subst downloadLoop.simps)
  apply (simp add: MAX_OBSERVATIONS_def Let_def retry_succeeds isErrorMessage_def
      isDownloadButton_def page_defs)
  done

lemma applications_ready_downloads:
  "openAndDownload applications_ready now rcd st =
     Inr (rcd\<lparr>certificateDownloaded := True, downloadedViaFallback := True\<rparr>,
          updatePersistedApplicationDownloadStatus now (plotNumber rcd) True
            (st\<lparr>events := events st @ [DownloadClick (plotNumber rcd)]\<rparr>))"
  apply (simp add: openAndDownload_def applications_ready_def viewAndDownloadApplication_def
      retry_succeeds)
  apply (subst viewLoop.simps)
  apply (simp add: MAX_ATTEMPTS_def isHeaderDownloadButton_def page_defs retry_succeeds Let_def)
  done

subsection \<open>The records of the recovery pass\<close>

lemma viewLoop_record:
  "fst (viewLoop env now a rcd st') = fst (viewLoop env now a rcd st) \<and>
   fst (snd (viewLoop env now a rcd st')) = fst (snd (viewLoop env now a rcd st))"
proof (induction env now a rcd st arbitrary: st' rule: viewLoop.induct)
  case (1 env now a rcd st)
  show ?case
  proof (cases "a < MAX_ATTEMPTS")
    case False
    have L: "viewLoop env now a rcd s = (False, rcd, s)" for s
      by (subst viewLoop.simps) (use False in simp)
    show ?thesis by (simp add: L)
  next
    case lt: True
    show ?thesis
    proof (cases "headerObservation env (Suc a)")
      case (Inl msg)
      have L: "viewLoop env now a rcd s = viewLoop env now (Suc a) rcd s" for s
        using lt Inl by (subst viewLoop.simps) simp
      from "1.IH"(1)[OF lt Inl, of st'] show ?thesis unfolding L .
    next
      case (Inr obs)
      show ?thesis
      proof (cases "find isHeaderDownloadButton obs")
        case None
        have L: "viewLoop env now a rcd s = viewLoop env now (Suc a) rcd s" for s
          using lt Inr None by (subst viewLoop.simps) simp
        from "1.IH"(2)[OF lt Inr None, of st'] show ?thesis unfolding L .
      next
        case (Some b)
        define r where "r = retry (viewDownloadClick env (Suc a)) clickOptions"
        define clicked where
          "clicked = (\<lambda>s :: site_agent. s\<lparr>events := events s @
                        replicate (calls r) (DownloadClick (plotNumber rcd))\<rparr>)"
        show ?thesis
        proof (cases "outcome_of r")
          case (Inl t)
          have L: "viewLoop env now a rcd s = viewLoop env now (Suc a) rcd (clicked s)" for s
            using lt Inr Some Inl
            by (subst viewLoop.simps) (simp add: Let_def clicked_def r_def)
          from Inl have Inl': "outcome_of (retry (viewDownloadClick env (Suc a)) clickOptions) = Inl t"
            by (simp add: r_def)
          from "1.IH"(3)[OF lt Inr Some refl refl Inl', of "clicked st'"]
          show ?thesis unfolding L by (simp add: clicked_def r_def)
        next
          case ok: (Inr u)
          have L: "viewLoop env now a rcd s =
              (True, rcd\<lparr>certificateDownloaded := True, downloadedViaFallback := True\<rparr>,
               updatePersistedApplicationDownloadStatus now (plotNumber rcd) True (clicked s))"
            for s
            using lt Inr Some ok
            by (subst viewLoop.simps) (simp add: Let_def clicked_def r_def)
          show ?thesis by (simp add: L)
        qed
      qed
    qed
  qed
qed

lemma openAndDownload_record:
  "map_sum id fst (openAndDownload env now rcd st') = map_sum id fst (openAndDownload env now rcd st)"
proof -
  obtain a r1 s1 where L: "viewLoop (viewEnv env) now 0 rcd st = (a, r1, s1)"
    by (cases "viewLoop (viewEnv env) now 0 rcd st") auto
  obtain a' r1' s1' where L': "viewLoop (viewEnv env) now 0 rcd st' = (a', r1', s1')"
    by (cases "viewLoop (viewEnv env) now 0 rcd st'") auto
  from viewLoop_record[of "viewEnv env" now 0 rcd st' st] L L'
  have e: "a' = a" "r1' = r1" by simp_all
  show ?thesis
    by (simp add: openAndDownload_def viewAndDownloadApplication_def L L' e
        split: option.splits sum.splits)
qed

text \<open>
  What the recovery pass makes of one record: the record the applications page
  returns or, when a step there throws, the record with the message added to its
  error.
\<close>

lemma recoverOne_record:
  "fst (recoverOne env now rcd st) =
     (case openAndDownload env now rcd st' of
        Inr (r', s') \<Rightarrow> r'
      | Inl msg \<Rightarrow> rcd\<lparr>error := Some (extendError (error rcd) (''Fallback failed: '' @ msg)
                                      (''Fallback recovery failed: '' @ msg))\<rparr>)"
proof -
  let ?st1 = "st\<lparr>events := events st @ [RecoveryAttempt (plotNumber rcd)]\<rparr>"
  from openAndDownload_record[of env now rcd ?st1 st']
  show ?thesis
    by (cases "openAndDownload env now rcd ?st1"; cases "openAndDownload env now rcd st'")
       (auto simp: recoverOne_def Let_def)
qed

lemma recoverAll_records:
  "length (fst (recoverAll envs now i plans st)) = length plans \<and>
   (\<forall>j<length plans.
      fst (recoverAll envs now i plans st) ! j =
        (if failedDownload (plans ! j)
         then fst (recoverOne (envs (i + length (filter failedDownload (take j plans)))) now
                     (plans ! j) st)
         else plans ! j))"
proof (induction envs now i plans st rule: recoverAll.induct)
  case (1 envs now i st)
  then show ?case by simp
next
  case (2 envs now i rcd rest st)
  have indep: "fst (recoverOne e now r s) = fst (recoverOne e now r s')" for e r s s'
    using recoverOne_record[of e now r s s] recoverOne_record[of e now r s' s] by simp
  show ?case
  proof (cases "failedDownload rcd")
    case False
    obtain rest1 st2 where r: "recoverAll envs now i rest st = (rest1, st2)"
      by (cases "recoverAll envs now i rest st")
    from "2.IH"(2)[OF False] r
    have IH: "length rest1 = length rest"
      "\<forall>j<length rest. rest1 ! j = (if failedDownload (rest ! j)
         then fst (recoverOne (envs (i + length (filter failedDownload (take j rest)))) now
                     (rest ! j) st)
         else rest ! j)" by simp_all
    have res: "fst (recoverAll envs now i (rcd # rest) st) = rcd # rest1"
      using False r by simp
    show ?thesis
    proof (intro conjI allI impI)
      show "length (fst (recoverAll envs now i (rcd # rest) st)) = length (rcd # rest)"
        unfolding res using IH(1) by simp
    next
      fix j assume j: "j < length (rcd # rest)"
      show "fst (recoverAll envs now i (rcd # rest) st) ! j =
        (if failedDownload ((rcd # rest) ! j)
         then fst (recoverOne (envs (i + length (filter failedDownload (take j (rcd # rest)))))
                     now ((rcd # rest) ! j) st)
         else (rcd # rest) ! j)"
      proof (cases j)
        case 0
        then show ?thesis unfolding res using False by simp
      next
        case (Suc k)
        with j have "k < length rest" by simp
        with IH(2) Suc False show ?thesis unfolding res by simp
      qed
    qed
  next
    case True
    obtain rcd1 st1 where o: "recoverOne (envs i) now rcd st = (rcd1, st1)"
      by (cases "recoverOne (envs i) now rcd st")
    obtain rest1 st2 where r: "recoverAll envs now (Suc i) rest st1 = (rest1, st2)"
      by (cases "recoverAll envs now (Suc i) rest st1")
    from "2.IH"(1)[OF True o[symmetric]] r
    have IH: "length rest1 = length rest"
      "\<forall>j<length rest. rest1 ! j = (if failedDownload (rest ! j)
         then fst (recoverOne (envs (Suc i + length (filter failedDownload (take j rest)))) now
                     (rest ! j) st1)
         else rest ! j)" by simp_all
    have res: "fst (recoverAll envs now i (rcd # rest) st) = rcd1 # rest1"
      using True o r by simp
    show ?thesis
    proof (intro conjI allI impI)
      show "length (fst (recoverAll envs now i (rcd # rest) st)) = length (rcd # rest)"
        unfolding res using IH(1) by simp
    next
      fix j assume j: "j < length (rcd # rest)"
      show "fst (recoverAll envs now i (rcd # rest) st) ! j =
        (if failedDownload ((rcd # rest) ! j)
         then fst (recoverOne (envs (i + length (filter failedDownload (take j (rcd # rest)))))
                     now ((rcd # rest) ! j) st)
         else (rcd # rest) ! j)"
      proof (cases j)
        case 0
        then show ?thesis unfolding res using True o by simp
      next
        case (Suc k)
        with j have k: "k < length rest" by simp
        from IH(2) k have "rest1 ! k = (if failedDownload (rest ! k)
         then fst (recoverOne (envs (Suc i + length (filter failedDownload (take k rest)))) now
                     (rest ! k) st1)
         else rest ! k)" by simp
        then show ?thesis unfolding res using Suc True
          by (simp add: indep[of _ _ st1 st])
      qed
    qed
  qed
qed

lemma processFailedDownloads_records:
  "length (sitePlans (processFailedDownloads envs now st)) = length (sitePlans st) \<and>
   (\<forall>j<length (sitePlans st).
      sitePlans (processFailedDownloads envs now st) ! j =
        (if failedDownload (sitePlans st ! j)
         then fst (recoverOne (envs (length (failedDownloads (take j (sitePlans st))))) now
                     (sitePlans st ! j) st)
         else sitePlans st ! j))"
proof (cases "failedDownloads (sitePlans st) = []")
  case True
  then have "\<forall>r \<in> set (sitePlans st). \<not> failedDownload r"
    by (simp add: failedDownloads_def filter_empty_conv)
  then have "\<forall>j<length (sitePlans st). \<not> failedDownload (sitePlans st ! j)" by simp
  with True show ?thesis by (simp add: processFailedDownloads_def)
next
  case False
  obtain plans st1 where r: "recoverAll envs now 0 (sitePlans st) st = (plans, st1)"
    by (cases "recoverAll envs now 0 (sitePlans st) st")
  have s: "sitePlans (processFailedDownloads envs now st) = plans"
    using False r by (simp add: processFailedDownloads_def savePersistedApplications_def)
  from recoverAll_records[of envs now 0 "sitePlans st" st] r
  show ?thesis by (simp add: s failedDownloads_def)
qed


section \<open>The site plan agent and the history\<close>

text \<open>
  With the switch off, one pass through a plot reads nothing of the history: two
  agents with the same events get the same record and do the same things, whatever
  their histories and files hold.
\<close>

lemma downloadLoop_history:
  "events st' = events st \<Longrightarrow>
   fst (downloadLoop env now f c rcd st') = fst (downloadLoop env now f c rcd st) \<and>
   fst (snd (downloadLoop env now f c rcd st')) = fst (snd (downloadLoop env now f c rcd st)) \<and>
   fst (snd (snd (downloadLoop env now f c rcd st'))) =
     fst (snd (snd (downloadLoop env now f c rcd st))) \<and>
   events (snd (snd (snd (downloadLoop env now f c rcd st')))) =
     events (snd (snd (snd (downloadLoop env now f c rcd st))))"
proof (induction env now f c rcd st arbitrary: st' rule: downloadLoop.induct)
  case (1 env now f c rcd st)
  define next_state where
    "next_state = (\<lambda>s :: site_agent.
        s\<lparr>events := events s @ [ObserveDownload (plotNumber rcd) (Suc c)]\<rparr>)"
  have e1: "events (next_state st') = events (next_state st)"
    using "1.prems" by (simp add: next_state_def)
  show ?case
  proof (cases "\<not> f \<and> c < MAX_OBSERVATIONS")
    case False
    have L: "downloadLoop env now f c rcd s = (False, f, rcd, s)" for s
      by (subst downloadLoop.simps) (use False in auto)
    show ?thesis using "1.prems" by (simp add: L)
  next
    case go: True
    show ?thesis
    proof (cases "pageStateObservation env (Suc c)")
      case (Inl msg)
      have L: "downloadLoop env now f c rcd s = downloadLoop env now f (Suc c) rcd (next_state s)"
        for s
        using go Inl by (subst downloadLoop.simps) (simp add: Let_def next_state_def)
      from "1.IH"(1)[OF go refl Inl, of "next_state st'"] e1
      show ?thesis unfolding L by (simp add: next_state_def)
    next
      case (Inr obs)
      show ?thesis
      proof (cases "find isErrorMessage obs \<noteq> None")
        case True
        have L: "downloadLoop env now f c rcd s =
            (True, f, rcd\<lparr>error := Some ''Certificate generation failed''\<rparr>, next_state s)"
          for s
          using go Inr True by (subst downloadLoop.simps) (simp add: Let_def next_state_def)
        show ?thesis using e1 by (simp add: L)
      next
        case ne: False
        show ?thesis
        proof (cases "find isDownloadButton obs")
          case (Some b)
          define r where "r = retry (downloadClick env (Suc c)) clickOptions"
          define clicked where
            "clicked = (\<lambda>s :: site_agent. (next_state s)\<lparr>events := events (next_state s) @
                          replicate (calls r) (DownloadClick (plotNumber rcd))\<rparr>)"
          have e2: "events (clicked st') = events (clicked st)"
            using "1.prems" by (simp add: clicked_def next_state_def)
          show ?thesis
          proof (cases "outcome_of r")
            case (Inl t)
            have L: "downloadLoop env now f c rcd s =
                downloadLoop env now True (Suc c) rcd (clicked s)" for s
              using go Inr ne Some Inl
              by (subst downloadLoop.simps)
                 (simp add: Let_def next_state_def clicked_def r_def)
            from Inl have Inl': "outcome_of (retry (downloadClick env (Suc c)) clickOptions) = Inl t"
              by (simp add: r_def)
            from "1.IH"(4)[OF go refl Inr ne Some refl refl Inl', of "clicked st'"] e2
            show ?thesis unfolding L by (simp add: clicked_def next_state_def r_def)
          next
            case ok: (Inr u)
            have L: "downloadLoop env now f c rcd s =
                (False, True, rcd\<lparr>certificateDownloaded := True\<rparr>,
                 updatePersistedApplicationDownloadStatus now (plotNumber rcd) True (clicked s))"
              for s
              using go Inr ne Some ok
              by (subst downloadLoop.simps)
                 (simp add: Let_def next_state_def clicked_def r_def)
            show ?thesis using e2 by (simp add: L events_mark)
          qed
        next
          case None
          show ?thesis
          proof (cases "loopLoadState env (Suc c)")
            case (Some msg)
            have L: "downloadLoop env now f c rcd s =
                downloadLoop env now f (Suc c) rcd (next_state s)" for s
              using go Inr ne None Some
              by (subst downloadLoop.simps) (simp add: Let_def next_state_def)
            from "1.IH"(3)[OF go refl Inr ne None Some, of "next_state st'"] e1
            show ?thesis unfolding L by (simp add: next_state_def)
          next
            case nl: None
            show ?thesis
            proof (cases "currentUrl env (Suc c) \<noteq> startUrl env \<and>
                    (str_includes (currentUrl env (Suc c)) ''error'' \<or>
                     str_includes (currentUrl env (Suc c)) ''404'')")
              case True
              have L: "downloadLoop env now f c rcd s =
                  (False, f, rcd\<lparr>error := Some ''Page navigated to error during download wait''\<rparr>,
                   next_state s)" for s
                using go Inr ne None nl True
                by (subst downloadLoop.simps) (simp add: Let_def next_state_def)
              show ?thesis using e1 by (simp add: L)
            next
              case False
              have L: "downloadLoop env now f c rcd s =
                  downloadLoop env now f (Suc c) rcd (next_state s)" for s
                using go Inr ne None nl False
                by (subst downloadLoop.simps) (auto simp add: Let_def next_state_def)
              from "1.IH"(2)[OF go refl Inr ne None nl False, of "next_state st'"] e1
              show ?thesis unfolding L by (simp add: next_state_def)
            qed
          qed
        qed
      qed
    qed
  qed
qed

lemma downloadCertificate_history:
  assumes "events st' = events st"
  shows "map_prod id events (downloadCertificate env now rcd st') =
         map_prod id events (downloadCertificate env now rcd st)"
proof -
  define r0 where "r0 = rcd\<lparr>downloadAttempts := Suc (downloadAttempts rcd),
                            lastDownloadAttemptTime := Some now\<rparr>"
  obtain a b r1 s1 where L: "downloadLoop env now False 0 r0 st = (a, b, r1, s1)"
    by (cases "downloadLoop env now False 0 r0 st") auto
  obtain a' b' r1' s1' where L': "downloadLoop env now False 0 r0 st' = (a', b', r1', s1')"
    by (cases "downloadLoop env now False 0 r0 st'") auto
  from downloadLoop_history[OF assms, of env now False 0 r0] L L'
  have e: "a' = a" "b' = b" "r1' = r1" "events s1' = events s1" by simp_all
  show ?thesis
    using assms e
    by (simp add: downloadCertificate_def Let_def r0_def[symmetric] L L' split: option.splits)
qed

lemma payNow_history:
  assumes "events st' = events st"
  shows "map_prod id events (payNow env rcd st') = map_prod id events (payNow env rcd st)"
  using assms
  by (auto simp: payNow_def caught_def Let_def split: sum.splits option.splits
      intro!: downloadCertificate_history)

lemma validateFunds_history:
  assumes "events st' = events st"
  shows "map_prod id events (validateFunds cfg env rcd st') =
         map_prod id events (validateFunds cfg env rcd st)"
  using assms
  by (auto simp: validateFunds_def split: option.splits intro!: payNow_history)

lemma paymentSection_history:
  assumes "events st' = events st"
  shows "map_prod id events (paymentSection cfg env rcd st') =
         map_prod id events (paymentSection cfg env rcd st)"
  using assms
  by (auto simp: paymentSection_def caught_def split: sum.splits option.splits
      intro!: validateFunds_history)

lemma extractApplicationId_history:
  assumes "events st' = events st"
  shows "map_prod id events (extractApplicationId env p st') =
         map_prod id events (extractApplicationId env p st)"
  using assms
  by (auto simp: extractApplicationId_def Let_def split: sum.splits option.splits)

lemma identify_history:
  assumes "events st' = events st"
  shows "map_prod id events (identify cfg env rcd st') =
         map_prod id events (identify cfg env rcd st)"
proof -
  obtain x s1 where X: "extractApplicationId env (plotNumber rcd) st = (x, s1)"
    by (cases "extractApplicationId env (plotNumber rcd) st")
  obtain x' s1' where X': "extractApplicationId env (plotNumber rcd) st' = (x', s1')"
    by (cases "extractApplicationId env (plotNumber rcd) st'")
  from extractApplicationId_history[OF assms, of env "plotNumber rcd"] X X'
  have e: "x' = x" "events s1' = events s1" by simp_all
  show ?thesis
    using e
    by (auto simp: identify_def X X' events_add intro!: paymentSection_history)
qed

lemma afterProceed_history:
  assumes "events st' = events st"
  shows "map_option (map_prod id events) (afterProceed cfg env rcd st') =
         map_option (map_prod id events) (afterProceed cfg env rcd st)"
  using assms
  by (auto simp: afterProceed_def caught_def split: sum.splits option.splits
      intro!: identify_history)

lemma selectAndProceed_history:
  assumes "events st' = events st"
  shows "map_option (map_prod id events) (selectAndProceed cfg env rcd st') =
         map_option (map_prod id events) (selectAndProceed cfg env rcd st)"
  using assms
  by (auto simp: selectAndProceed_def caught_def split: sum.splits option.splits
      intro!: afterProceed_history)

lemma processPlotFrom_history_some:
  assumes "processPlotFrom enabled cfg envs plot k st = Some y"
  shows "enabled = False \<longrightarrow>
         (\<forall>st'. events st' = events st \<longrightarrow>
            (\<exists>s'. processPlotFrom False cfg envs plot k st' = Some (fst y, s') \<and>
                  events s' = events (snd y)))"
proof (rule processPlotFrom.raw_induct[where P = "\<lambda>enabled cfg envs plot k st y.
         enabled = False \<longrightarrow>
         (\<forall>st'. events st' = events st \<longrightarrow>
            (\<exists>s'. processPlotFrom False cfg envs plot k st' = Some (fst y, s') \<and>
                  events s' = events (snd y)))", OF _ assms], goal_cases)
  case (1 f enabled cfg envs plot k st y)
  note IH = 1(1) and hyps = 1(2)
  show ?case
  proof (intro impI allI)
    fix st' :: site_agent
    assume off: "enabled = False" and ev: "events st' = events st"
    have pre: "preCheck False (envs k) (newRecord plot) s = (False, newRecord plot, s)" for s
      by (simp add: preCheck_def)
    show "\<exists>s'. processPlotFrom False cfg envs plot k st' = Some (fst y, s') \<and>
               events s' = events (snd y)"
    proof (cases "searchSteps (envs k)")
      case (Some msg)
      from hyps off Some have y: "y = caught msg (newRecord plot) st" by (simp add: pre)
      have "processPlotFrom False cfg envs plot k st' = Some (caught msg (newRecord plot) st')"
        by (subst processPlotFrom.simps) (simp add: pre Some)
      with y ev show ?thesis by (simp add: caught_def)
    next
      case None
      show ?thesis
      proof (cases "paymentGateway (postSearchUrl (envs k))")
        case True
        show ?thesis
        proof (cases "renavigate (envs k)")
          case (Some msg)
          from hyps off None True Some have y: "y = caught msg (newRecord plot) st"
            by (simp add: pre)
          have "processPlotFrom False cfg envs plot k st' = Some (caught msg (newRecord plot) st')"
            by (subst processPlotFrom.simps) (simp add: pre None True Some)
          with y ev show ?thesis by (simp add: caught_def)
        next
          case rn: None
          from hyps off None True rn have "f False cfg envs plot (Suc k) st = Some y"
            by (simp add: pre)
          from IH[OF this] ev obtain s' where
            s': "processPlotFrom False cfg envs plot (Suc k) st' = Some (fst y, s')"
              "events s' = events (snd y)" by blast
          have "processPlotFrom False cfg envs plot k st' =
                processPlotFrom False cfg envs plot (Suc k) st'"
            by (subst processPlotFrom.simps) (simp add: pre None True rn)
          with s' show ?thesis by simp
        qed
      next
        case False
        from hyps off None False
        have sel: "selectAndProceed cfg (envs k) (newRecord plot) st = Some y"
          by (simp add: pre)
        have p: "processPlotFrom False cfg envs plot k st' =
                 selectAndProceed cfg (envs k) (newRecord plot) st'"
          by (subst processPlotFrom.simps) (simp add: pre None False)
        from selectAndProceed_history[OF ev, of cfg "envs k" "newRecord plot"] sel
        obtain y' where y': "selectAndProceed cfg (envs k) (newRecord plot) st' = Some y'"
          "map_prod id events y' = map_prod id events y"
          by (cases "selectAndProceed cfg (envs k) (newRecord plot) st'") auto
        then have "fst y' = fst y" "events (snd y') = events (snd y)"
          by (cases y', cases y, simp)+
        with y' p show ?thesis by (cases y') auto
      qed
    qed
  qed
qed

lemma processPlotFrom_history:
  assumes "events st' = events st"
  shows "map_option (map_prod id events) (processPlotFrom False cfg envs plot k st') =
         map_option (map_prod id events) (processPlotFrom False cfg envs plot k st)"
proof (cases "processPlotFrom False cfg envs plot k st")
  case (Some y)
  from processPlotFrom_history_some[OF Some] assms obtain s' where
    "processPlotFrom False cfg envs plot k st' = Some (fst y, s')" "events s' = events (snd y)"
    by blast
  with Some show ?thesis by (cases y) simp
next
  case None
  have "processPlotFrom False cfg envs plot k st' = None"
  proof (cases "processPlotFrom False cfg envs plot k st'")
    case (Some y)
    from processPlotFrom_history_some[OF Some] assms obtain s where
      "processPlotFrom False cfg envs plot k st = Some (fst y, s)"
      by (metis)
    with None show ?thesis by simp
  qed simp
  with None show ?thesis by simp
qed

text \<open>The download wait pays nothing and leaves \<open>paid\<close> as it is.\<close>

lemma payClicks_observe: "payClicks [ObserveDownload p k] = []"
  by simp

lemma downloadLoop_pays:
  "paid (fst (snd (snd (downloadLoop env now f c rcd st)))) = paid rcd \<and>
   plotNumber (fst (snd (snd (downloadLoop env now f c rcd st)))) = plotNumber rcd \<and>
   payClicks (events (snd (snd (snd (downloadLoop env now f c rcd st))))) = payClicks (events st)"
proof (induction env now f c rcd st rule: downloadLoop.induct)
  case (1 env now f c rcd st)
  define st1 where
    "st1 = st\<lparr>events := events st @ [ObserveDownload (plotNumber rcd) (Suc c)]\<rparr>"
  have p1: "payClicks (events st1) = payClicks (events st)"
    by (simp add: st1_def payClicks_append)
  show ?case
  proof (cases "\<not> f \<and> c < MAX_OBSERVATIONS")
    case False
    have L: "downloadLoop env now f c rcd st = (False, f, rcd, st)"
      by (subst downloadLoop.simps) (use False in auto)
    show ?thesis by (simp add: L)
  next
    case go: True
    show ?thesis
    proof (cases "pageStateObservation env (Suc c)")
      case (Inl msg)
      have L: "downloadLoop env now f c rcd st = downloadLoop env now f (Suc c) rcd st1"
        using go Inl by (subst downloadLoop.simps) (simp add: Let_def st1_def)
      from "1.IH"(1)[OF go refl Inl] p1
      show ?thesis unfolding L by (simp add: st1_def)
    next
      case (Inr obs)
      show ?thesis
      proof (cases "find isErrorMessage obs \<noteq> None")
        case True
        have L: "downloadLoop env now f c rcd st =
            (True, f, rcd\<lparr>error := Some ''Certificate generation failed''\<rparr>, st1)"
          using go Inr True by (subst downloadLoop.simps) (simp add: Let_def st1_def)
        show ?thesis using p1 by (simp add: L)
      next
        case ne: False
        show ?thesis
        proof (cases "find isDownloadButton obs")
          case (Some b)
          define r where "r = retry (downloadClick env (Suc c)) clickOptions"
          define st2 where
            "st2 = st1\<lparr>events := events st1 @
                          replicate (calls r) (DownloadClick (plotNumber rcd))\<rparr>"
          have p2: "payClicks (events st2) = payClicks (events st)"
            using p1 by (simp add: st2_def payClicks_append payClicks_clicks)
          show ?thesis
          proof (cases "outcome_of r")
            case (Inl t)
            have L: "downloadLoop env now f c rcd st = downloadLoop env now True (Suc c) rcd st2"
              using go Inr ne Some Inl
              by (subst downloadLoop.simps) (simp add: Let_def st1_def st2_def r_def)
            from Inl have Inl': "outcome_of (retry (downloadClick env (Suc c)) clickOptions) = Inl t"
              by (simp add: r_def)
            from "1.IH"(4)[OF go refl Inr ne Some refl refl Inl'] p2
            show ?thesis unfolding L by (simp add: st1_def st2_def r_def)
          next
            case ok: (Inr u)
            have L: "downloadLoop env now f c rcd st =
                (False, True, rcd\<lparr>certificateDownloaded := True\<rparr>,
                 updatePersistedApplicationDownloadStatus now (plotNumber rcd) True st2)"
              using go Inr ne Some ok
              by (subst downloadLoop.simps) (simp add: Let_def st1_def st2_def r_def)
            show ?thesis using p2 by (simp add: L events_mark)
          qed
        next
          case None
          show ?thesis
          proof (cases "loopLoadState env (Suc c)")
            case (Some msg)
            have L: "downloadLoop env now f c rcd st = downloadLoop env now f (Suc c) rcd st1"
              using go Inr ne None Some
              by (subst downloadLoop.simps) (simp add: Let_def st1_def)
            from "1.IH"(3)[OF go refl Inr ne None Some] p1
            show ?thesis unfolding L by (simp add: st1_def)
          next
            case nl: None
            show ?thesis
            proof (cases "currentUrl env (Suc c) \<noteq> startUrl env \<and>
                    (str_includes (currentUrl env (Suc c)) ''error'' \<or>
                     str_includes (currentUrl env (Suc c)) ''404'')")
              case True
              have L: "downloadLoop env now f c rcd st =
                  (False, f, rcd\<lparr>error := Some ''Page navigated to error during download wait''\<rparr>,
                   st1)"
                using go Inr ne None nl True
                by (subst downloadLoop.simps) (simp add: Let_def st1_def)
              show ?thesis using p1 by (simp add: L)
            next
              case False
              have L: "downloadLoop env now f c rcd st = downloadLoop env now f (Suc c) rcd st1"
                using go Inr ne None nl False
                by (subst downloadLoop.simps) (auto simp add: Let_def st1_def)
              from "1.IH"(2)[OF go refl Inr ne None nl False] p1
              show ?thesis unfolding L by (simp add: st1_def)
            qed
          qed
        qed
      qed
    qed
  qed
qed

lemma downloadCertificate_pays:
  "paid (fst (downloadCertificate env now rcd st)) = paid rcd \<and>
   plotNumber (fst (downloadCertificate env now rcd st)) = plotNumber rcd \<and>
   payClicks (events (snd (downloadCertificate env now rcd st))) = payClicks (events st)"
proof -
  define r0 where "r0 = rcd\<lparr>downloadAttempts := Suc (downloadAttempts rcd),
                            lastDownloadAttemptTime := Some now\<rparr>"
  obtain a b r1 s1 where L: "downloadLoop env now False 0 r0 st = (a, b, r1, s1)"
    by (cases "downloadLoop env now False 0 r0 st") auto
  from downloadLoop_pays[of env now False 0 r0 st] L
  have e: "paid r1 = paid rcd" "plotNumber r1 = plotNumber rcd"
    "payClicks (events s1) = payClicks (events st)"
    by (simp_all add: r0_def)
  show ?thesis
    using e
    by (simp add: downloadCertificate_def Let_def r0_def[symmetric] L split: option.splits)
       (simp add: r0_def)
qed

lemma identify_to_payment:
  "\<exists>rcd' st1. identify cfg env rcd st = paymentSection cfg env rcd' st1 \<and>
      plotNumber rcd' = plotNumber rcd \<and> payClicks (events st1) = payClicks (events st)"
proof -
  obtain x s1 where X: "extractApplicationId env (plotNumber rcd) st = (x, s1)"
    by (cases "extractApplicationId env (plotNumber rcd) st")
  then have s1: "payClicks (events s1) = payClicks (events st)"
    by (auto simp: extractApplicationId_def Let_def payClicks_append
        split: sum.splits option.splits if_splits)
  show ?thesis
  proof (cases "truthy x")
    case True
    have "identify cfg env rcd st = paymentSection cfg env (rcd\<lparr>applicationId := x\<rparr>)
        (addPersistedApplication (clock env) (plotNumber rcd) (the x) False s1)"
      using True by (simp add: identify_def X)
    moreover have "plotNumber (rcd\<lparr>applicationId := x\<rparr>) = plotNumber rcd" by simp
    moreover have "payClicks (events (addPersistedApplication (clock env) (plotNumber rcd)
        (the x) False s1)) = payClicks (events st)"
      using s1 by (simp add: events_add)
    ultimately show ?thesis by blast
  next
    case False
    have "identify cfg env rcd st = paymentSection cfg env rcd s1"
      using False by (simp add: identify_def X)
    with s1 show ?thesis by blast
  qed
qed

lemma validateFunds_suffice:
  "fundsSuffice env \<Longrightarrow> paymentEnabled cfg \<Longrightarrow>
   validateFunds cfg env rcd st = payNow env (rcd\<lparr>walletBalanceSufficient := True\<rparr>) st"
  by (auto simp: validateFunds_def fundsSuffice_def split: option.splits)

lemma processPlot_pays:
  assumes "reachesCertificatePage (envs 0)" "reachesFunds (envs 0)" "fundsSuffice (envs 0)"
    "paymentEnabled cfg" "paysAtOnce (envs 0)"
  shows "\<exists>r s. processPlotFrom False cfg envs plot 0 st = Some (r, s) \<and> paid r \<and>
           payClicks (events s) = payClicks (events st) @ [plotNumber plot]"
proof -
  from identify_to_payment[of cfg "envs 0" "newRecord plot" st]
  obtain rcd' st1 where i: "identify cfg (envs 0) (newRecord plot) st =
      paymentSection cfg (envs 0) rcd' st1" "plotNumber rcd' = plotNumber (newRecord plot)"
      "payClicks (events st1) = payClicks (events st)" by blast
  define rcd2 where "rcd2 = rcd'\<lparr>walletBalanceSufficient := True\<rparr>"
  define st2 where "st2 = st1\<lparr>events := events st1 @ [PayNowClick (plotNumber rcd2)]\<rparr>"
  define final where
    "final = downloadCertificate (download (envs 0)) (clock (envs 0)) (rcd2\<lparr>paid := True\<rparr>) st2"
  have run: "processPlotFrom False cfg envs plot 0 st = Some final"
    unfolding processPlotFrom_reaches[where envs=envs, OF assms(1)] i(1)
      paymentSection_reaches[OF assms(2)] validateFunds_suffice[OF assms(3,4)]
      payNow_at_once[OF assms(5)] final_def st2_def rcd2_def ..
  have pn: "plotNumber rcd2 = plotNumber plot" using i(2) by (simp add: rcd2_def newRecord_def)
  from downloadCertificate_pays[of "download (envs 0)" "clock (envs 0)" "rcd2\<lparr>paid := True\<rparr>" st2]
  have "paid (fst final)" "payClicks (events (snd final)) = payClicks (events st2)"
    by (simp_all add: final_def)
  moreover have "payClicks (events st2) = payClicks (events st) @ [plotNumber plot]"
    using i(3) pn by (simp add: st2_def payClicks_append)
  ultimately show ?thesis using run by (cases final) auto
qed

section \<open>The login\<close>

lemma executeWorkflow_login_fails:
  assumes "waitForUAEPassApproval (login renv) \<noteq> Inr ()"
  shows "\<exists>msg. executeWorkflow cfg renv st = Some (Some msg, st)"
proof -
  from assms obtain m where m: "waitForUAEPassApproval (login renv) = Inl m"
    by (cases "waitForUAEPassApproval (login renv)") auto
  show ?thesis
    by (auto simp: executeWorkflow_def prePayCheckEnabled_def m
        split: option.splits sum.splits)
qed

lemma executeWorkflow_login_timeout:
  assumes "waitForUAEPassApproval (login renv) \<noteq> Inr ()"
    and "initialize renv = None" "plotNumbers renv = Inr plots" "loginSteps renv = None"
  shows "executeWorkflow cfg renv st =
     Some (Some ''Login verification timeout. Please check if UAE Pass approval was completed.'',
           st)"
proof -
  from assms(1) have
    "waitForUAEPassApproval (login renv) =
       Inl ''Login verification timeout. Please check if UAE Pass approval was completed.''"
    by (simp add: waitForUAEPassApproval_def split: if_splits)
  with assms(2-4) show ?thesis
    by (simp add: executeWorkflow_def prePayCheckEnabled_def)
qed

text \<open>
  C9. \<open>waitForUAEPassApproval\<close> succeeds exactly when, at one of its 60 attempts, the
  URL has none of the markers \<open>login\<close>, \<open>auth\<close>, \<open>uaepass\<close> and one of the 20
  observations for the logged-in indicators (profile, avatar, logout button, account
  menu) made at that attempt finds an element. When it does not succeed the run
  throws and leaves the agent as it was, with no plot processed; the error is the
  login timeout when the steps before the wait went through.
\<close>

theorem login_needs_url_and_indicators:
  "(waitForUAEPassApproval (login renv) = Inr ()) =
     (\<exists>k. 1 \<le> k \<and> k \<le> 60 \<and> leftAuthDomain (loginUrl (login renv) k) \<and>
          (\<exists>j. 1 \<le> j \<and> j \<le> 20 \<and>
               (\<exists>ob. loginObservation (login renv) k j = Inr ob \<and> ob \<noteq> []))) \<and>
   (waitForUAEPassApproval (login renv) \<noteq> Inr () \<longrightarrow>
      (\<exists>msg. executeWorkflow cfg renv st = Some (Some msg, st)) \<and>
      (initialize renv = None \<and> (\<exists>plots. plotNumbers renv = Inr plots) \<and>
       loginSteps renv = None \<longrightarrow>
         executeWorkflow cfg renv st =
           Some (Some ''Login verification timeout. Please check if UAE Pass approval was completed.'',
                 st)))"
  using login_iff[of "login renv"] executeWorkflow_login_fails[of renv cfg st]
    executeWorkflow_login_timeout[of renv _ cfg st]
  by auto

lemma not_approved_fails: "waitForUAEPassApproval not_approved \<noteq> Inr ()"
  by (simp add: login_iff leftAuthDomain_def not_approved_def)

lemma no_indicators_fails: "waitForUAEPassApproval no_indicators \<noteq> Inr ()"
  by (simp add: login_iff no_indicators_def)

lemma approved_succeeds: "waitForUAEPassApproval approved = Inr ()"
proof -
  have "1 \<le> (4::nat) \<and> (4::nat) \<le> 60 \<and> leftAuthDomain (loginUrl approved 4) \<and>
        (\<exists>j. 1 \<le> j \<and> j \<le> 20 \<and> (\<exists>ob. loginObservation approved 4 j = Inr ob \<and> ob \<noteq> []))"
    by (auto simp: approved_def leftAuthDomain_def el_def intro!: exI[of _ "1::nat"])
  then show ?thesis unfolding login_iff by (rule exI)
qed

theorem login_needs_url_and_indicators_witness:
  "waitForUAEPassApproval (login (one_plot_run\<lparr>login := not_approved\<rparr>)) \<noteq> Inr () \<and>
   waitForUAEPassApproval (login (one_plot_run\<lparr>login := no_indicators\<rparr>)) \<noteq> Inr () \<and>
   executeWorkflow live (one_plot_run\<lparr>login := not_approved\<rparr>) new_agent =
     Some (Some ''Login verification timeout. Please check if UAE Pass approval was completed.'',
           new_agent) \<and>
   executeWorkflow live (one_plot_run\<lparr>login := no_indicators\<rparr>) new_agent =
     Some (Some ''Login verification timeout. Please check if UAE Pass approval was completed.'',
           new_agent)"
proof -
  have a: "waitForUAEPassApproval (login (one_plot_run\<lparr>login := not_approved\<rparr>)) \<noteq> Inr ()"
    using not_approved_fails by simp
  have b: "waitForUAEPassApproval (login (one_plot_run\<lparr>login := no_indicators\<rparr>)) \<noteq> Inr ()"
    using no_indicators_fails by simp
  have pre: "initialize (one_plot_run\<lparr>login := l\<rparr>) = None \<and>
      (\<exists>plots. plotNumbers (one_plot_run\<lparr>login := l\<rparr>) = Inr plots) \<and>
      loginSteps (one_plot_run\<lparr>login := l\<rparr>) = None" for l
    by (simp add: one_plot_run_def)
  note T1 = login_needs_url_and_indicators[of "one_plot_run\<lparr>login := not_approved\<rparr>" live
      new_agent, THEN conjunct2, THEN mp, OF a, THEN conjunct2, THEN mp, OF pre]
  note T2 = login_needs_url_and_indicators[of "one_plot_run\<lparr>login := no_indicators\<rparr>" live
      new_agent, THEN conjunct2, THEN mp, OF b, THEN conjunct2, THEN mp, OF pre]
  show ?thesis by (intro conjI a b T1 T2)
qed


section \<open>The wait for the certificate and the recovery pass\<close>

text \<open>
  C6 (as the code has it). Once the download wait has started, an observation that
  shows an error indicator ends it there: \<open>downloadCertificate\<close> returns after exactly
  that many observations with the record's error set to \<open>Certificate generation
  failed\<close>. When all 120 observations leave the wait going, \<open>downloadCertificate\<close>
  returns all the same (it has no way to throw), with a message in the record's error;
  a record that was paid and not downloaded stays so, and it is among the records the
  recovery pass takes up exactly when its application id is known. The recovery pass
  takes up the records of \<open>failedDownloads\<close>, each once, in order: each of them is
  opened on the applications page and replaced by the record that page returns
  (downloaded, when the download there succeeds) or, when a step there throws, gets
  the message added to its error; every other record is left as it is.
\<close>

theorem download_wait_outcomes:
  "(startOk env \<longrightarrow>
      (\<forall>k obs. 1 \<le> k \<and> k \<le> MAX_OBSERVATIONS \<and>
          (\<forall>j. 1 \<le> j \<and> j < k \<longrightarrow> stillWaiting env j) \<and>
          pageStateObservation env k = Inr obs \<and> find isErrorMessage obs \<noteq> None \<longrightarrow>
          downloadCertificate env now rcd st =
            (rcd\<lparr>downloadAttempts := Suc (downloadAttempts rcd),
                  lastDownloadAttemptTime := Some now,
                  error := Some ''Certificate generation failed''\<rparr>,
             st\<lparr>events := events st @
                 map (ObserveDownload (plotNumber rcd)) [1..<Suc k]\<rparr>)) \<and>
      ((\<forall>j. 1 \<le> j \<and> j \<le> MAX_OBSERVATIONS \<longrightarrow> stillWaiting env j) \<longrightarrow>
          downloadCertificate env now rcd st =
            (rcd\<lparr>downloadAttempts := Suc (downloadAttempts rcd),
                  lastDownloadAttemptTime := Some now,
                  error := Some (extendError (error rcd) ''Download button never appeared''
                     ''Download button did not appear after extended observations'')\<rparr>,
             st\<lparr>events := events st @
                 map (ObserveDownload (plotNumber rcd)) [1..<Suc MAX_OBSERVATIONS]\<rparr>) \<and>
          (paid rcd \<and> \<not> certificateDownloaded rcd \<longrightarrow>
             paid (fst (downloadCertificate env now rcd st)) \<and>
             \<not> certificateDownloaded (fst (downloadCertificate env now rcd st)) \<and>
             failedDownload (fst (downloadCertificate env now rcd st)) =
               truthy (applicationId rcd)))) \<and>
   recoveryAttempts (events (processFailedDownloads envs t agent)) =
     recoveryAttempts (events agent) @ map plotNumber (failedDownloads (sitePlans agent)) \<and>
   length (sitePlans (processFailedDownloads envs t agent)) = length (sitePlans agent) \<and>
   (\<forall>j st'. j < length (sitePlans agent) \<longrightarrow>
      (if failedDownload (sitePlans agent ! j) then
         (case openAndDownload (envs (length (failedDownloads (take j (sitePlans agent))))) t
                 (sitePlans agent ! j) st' of
            Inr (r', s') \<Rightarrow> sitePlans (processFailedDownloads envs t agent) ! j = r'
          | Inl msg \<Rightarrow>
              sitePlans (processFailedDownloads envs t agent) ! j =
                (sitePlans agent ! j)\<lparr>error :=
                   Some (extendError (error (sitePlans agent ! j)) (''Fallback failed: '' @ msg)
                           (''Fallback recovery failed: '' @ msg))\<rparr>)
       else sitePlans (processFailedDownloads envs t agent) ! j = sitePlans agent ! j))"
proof (intro conjI impI allI)
  fix k obs
  assume s: "startOk env"
    and h: "1 \<le> k \<and> k \<le> MAX_OBSERVATIONS \<and>
          (\<forall>j. 1 \<le> j \<and> j < k \<longrightarrow> stillWaiting env j) \<and>
          pageStateObservation env k = Inr obs \<and> find isErrorMessage obs \<noteq> None"
  from h have 1: "1 \<le> k" and 2: "k \<le> MAX_OBSERVATIONS"
    and 3: "\<forall>j. 1 \<le> j \<and> j < k \<longrightarrow> stillWaiting env j"
    and 4: "pageStateObservation env k = Inr obs" and 5: "find isErrorMessage obs \<noteq> None"
    by simp_all
  show "downloadCertificate env now rcd st =
            (rcd\<lparr>downloadAttempts := Suc (downloadAttempts rcd),
                  lastDownloadAttemptTime := Some now,
                  error := Some ''Certificate generation failed''\<rparr>,
             st\<lparr>events := events st @
                 map (ObserveDownload (plotNumber rcd)) [1..<Suc k]\<rparr>)"
    by (rule downloadCertificate_error_at[OF s 1 2 3 4 5])
next
  assume s: "startOk env"
    and q: "\<forall>j. 1 \<le> j \<and> j \<le> MAX_OBSERVATIONS \<longrightarrow> stillWaiting env j"
  note e = downloadCertificate_exhausted[OF s q, of now rcd st]
  show "downloadCertificate env now rcd st =
            (rcd\<lparr>downloadAttempts := Suc (downloadAttempts rcd),
                  lastDownloadAttemptTime := Some now,
                  error := Some (extendError (error rcd) ''Download button never appeared''
                     ''Download button did not appear after extended observations'')\<rparr>,
             st\<lparr>events := events st @
                 map (ObserveDownload (plotNumber rcd)) [1..<Suc MAX_OBSERVATIONS]\<rparr>)"
    by (rule e)
  assume p: "paid rcd \<and> \<not> certificateDownloaded rcd"
  from p show "paid (fst (downloadCertificate env now rcd st))"
    unfolding e by simp
  from p show "\<not> certificateDownloaded (fst (downloadCertificate env now rcd st))"
    unfolding e by simp
  from p show "failedDownload (fst (downloadCertificate env now rcd st)) =
               truthy (applicationId rcd)"
    unfolding e by (simp add: failedDownload_def)
next
  show "recoveryAttempts (events (processFailedDownloads envs t agent)) =
     recoveryAttempts (events agent) @ map plotNumber (failedDownloads (sitePlans agent))"
    by (rule processFailedDownloads_recoveryAttempts)
next
  show "length (sitePlans (processFailedDownloads envs t agent)) = length (sitePlans agent)"
    using processFailedDownloads_records[of envs t agent] by simp
next
  fix j st'
  assume j: "j < length (sitePlans agent)"
  define rcd' where "rcd' = sitePlans agent ! j"
  define e where "e = envs (length (failedDownloads (take j (sitePlans agent))))"
  from processFailedDownloads_records[of envs t agent] j
  have r: "sitePlans (processFailedDownloads envs t agent) ! j =
        (if failedDownload rcd' then fst (recoverOne e t rcd' agent) else rcd')"
    by (simp add: rcd'_def e_def)
  show "if failedDownload (sitePlans agent ! j) then
         (case openAndDownload (envs (length (failedDownloads (take j (sitePlans agent))))) t
                 (sitePlans agent ! j) st' of
            Inr (r', s') \<Rightarrow> sitePlans (processFailedDownloads envs t agent) ! j = r'
          | Inl msg \<Rightarrow>
              sitePlans (processFailedDownloads envs t agent) ! j =
                (sitePlans agent ! j)\<lparr>error :=
                   Some (extendError (error (sitePlans agent ! j)) (''Fallback failed: '' @ msg)
                           (''Fallback recovery failed: '' @ msg))\<rparr>)
       else sitePlans (processFailedDownloads envs t agent) ! j = sitePlans agent ! j"
    unfolding rcd'_def[symmetric] e_def[symmetric] r
    by (cases "openAndDownload e t rcd' st'")
       (auto simp: recoverOne_record[of e t rcd' agent st'])
qed

lemma fails_third_start: "startOk fails_third"
  by (simp add: startOk_def fails_third_def button_appears_def)

lemma fails_third_waits: "j < 3 \<Longrightarrow> stillWaiting fails_third j"
  by (simp add: stillWaiting_def fails_third_def button_appears_def isErrorMessage_def
      isDownloadButton_def page_defs)

lemma fails_third_error:
  "pageStateObservation fails_third 3 = Inr [el ''Certificate generation failed'' ''none''] \<and>
   find isErrorMessage [el ''Certificate generation failed'' ''none''] \<noteq> None"
  by (simp add: fails_third_def button_appears_def isErrorMessage_def page_defs)

lemma after_batch_selects:
  "failedDownload (sitePlans after_batch ! 0) \<and> \<not> failedDownload (sitePlans after_batch ! 1) \<and>
   failedDownload (sitePlans after_batch ! 2) \<and>
   failedDownloads (take 0 (sitePlans after_batch)) = [] \<and>
   length (failedDownloads (take 2 (sitePlans after_batch))) = 1"
  by (simp add: after_batch_def failedDownloads_def failedDownload_def truthy_def newRecord_def
      numeral_2_eq_2)

lemma applications_down_throws:
  "openAndDownload applications_down now rcd st = Inl ''Navigation timeout''"
  by (simp add: openAndDownload_def applications_down_def)

theorem download_wait_outcomes_witness:
  "startOk fails_third \<and> startOk never_appears \<and>
   downloadCertificate fails_third ''2025-03-01T10:00:00Z'' (paid_record (Some ''REQ-2002''))
       new_agent =
     ((paid_record (Some ''REQ-2002''))\<lparr>downloadAttempts := 1,
          lastDownloadAttemptTime := Some ''2025-03-01T10:00:00Z'',
          error := Some ''Certificate generation failed''\<rparr>,
      new_agent\<lparr>events := [ObserveDownload ''A-1'' 1, ObserveDownload ''A-1'' 2,
                              ObserveDownload ''A-1'' 3]\<rparr>) \<and>
   error (fst (downloadCertificate never_appears ''2025-03-01T10:00:00Z''
       (paid_record (Some ''REQ-2002'')) new_agent)) =
     Some ''Download button did not appear after extended observations'' \<and>
   length (events (snd (downloadCertificate never_appears ''2025-03-01T10:00:00Z''
       (paid_record (Some ''REQ-2002'')) new_agent))) = 120 \<and>
   failedDownload (fst (downloadCertificate never_appears ''2025-03-01T10:00:00Z''
       (paid_record (Some ''REQ-2002'')) new_agent)) \<and>
   map (\<lambda>r. (plotNumber r, applicationId r, paid r, certificateDownloaded r,
             downloadedViaFallback r, error r))
     (sitePlans (processFailedDownloads
        (\<lambda>i. if i = 0 then applications_ready else applications_down)
        ''2025-03-01T11:00:00Z'' after_batch)) =
   [(''A-1'', Some ''REQ-1001'', True, True, True, None),
    (''A-2'', None, True, False, False, None),
    (''A-3'', Some ''REQ-3003'', True, False, False,
       Some ''Fallback recovery failed: Navigation timeout'')] \<and>
   recoveryAttempts (events (processFailedDownloads
        (\<lambda>i. if i = 0 then applications_ready else applications_down)
        ''2025-03-01T11:00:00Z'' after_batch)) = [''A-1'', ''A-3'']"
proof -
  note T = download_wait_outcomes[of fails_third "''2025-03-01T10:00:00Z''"
      "paid_record (Some ''REQ-2002'')" new_agent "\<lambda>i. applications_ready" "''2025-03-01T11:00:00Z''" new_agent,
      THEN conjunct1, THEN mp, OF fails_third_start, THEN conjunct1, rule_format,
      of 3 "[el ''Certificate generation failed'' ''none'']"]
  have h: "1 \<le> (3::nat) \<and> 3 \<le> MAX_OBSERVATIONS \<and>
      (\<forall>j. 1 \<le> j \<and> j < 3 \<longrightarrow> stillWaiting fails_third j) \<and>
      pageStateObservation fails_third 3 = Inr [el ''Certificate generation failed'' ''none''] \<and>
      find isErrorMessage [el ''Certificate generation failed'' ''none''] \<noteq> None"
    using fails_third_error by (simp add: MAX_OBSERVATIONS_def fails_third_waits)
  have p: "plotNumber (paid_record (Some ''REQ-2002'')) = ''A-1''"
    "downloadAttempts (paid_record (Some ''REQ-2002'')) = 0"
    "error (paid_record (Some ''REQ-2002'')) = None"
    "paid (paid_record (Some ''REQ-2002'')) \<and>
     \<not> certificateDownloaded (paid_record (Some ''REQ-2002''))"
    "truthy (applicationId (paid_record (Some ''REQ-2002'')))"
    by (simp_all add: paid_record_def newRecord_def plotA1_def truthy_def)
  have up: "[Suc 0..<4] = [Suc 0, 2, 3]" by (simp add: upt_rec)
  have 1: "downloadCertificate fails_third ''2025-03-01T10:00:00Z''
       (paid_record (Some ''REQ-2002'')) new_agent =
     ((paid_record (Some ''REQ-2002''))\<lparr>downloadAttempts := 1,
          lastDownloadAttemptTime := Some ''2025-03-01T10:00:00Z'',
          error := Some ''Certificate generation failed''\<rparr>,
      new_agent\<lparr>events := [ObserveDownload ''A-1'' 1, ObserveDownload ''A-1'' 2,
                              ObserveDownload ''A-1'' 3]\<rparr>)"
    using T[OF h] by (simp add: p up new_agent_def)
  note U = download_wait_outcomes[of never_appears "''2025-03-01T10:00:00Z''"
      "paid_record (Some ''REQ-2002'')" new_agent "\<lambda>i. applications_ready" "''2025-03-01T11:00:00Z''" new_agent,
      THEN conjunct1, THEN mp, OF never_appears_start, THEN conjunct2, THEN mp]
  have q: "\<forall>j. 1 \<le> j \<and> j \<le> MAX_OBSERVATIONS \<longrightarrow> stillWaiting never_appears j"
    by (simp add: never_appears_waits)
  from U[OF q, THEN conjunct1]
  have 2: "error (fst (downloadCertificate never_appears ''2025-03-01T10:00:00Z''
       (paid_record (Some ''REQ-2002'')) new_agent)) =
     Some ''Download button did not appear after extended observations''"
    and 3: "length (events (snd (downloadCertificate never_appears ''2025-03-01T10:00:00Z''
       (paid_record (Some ''REQ-2002'')) new_agent))) = 120"
    by (simp_all add: p extendError_def new_agent_def MAX_OBSERVATIONS_def)
  from U[OF q, THEN conjunct2, THEN mp, OF p(4)] p(5)
  have 4: "failedDownload (fst (downloadCertificate never_appears ''2025-03-01T10:00:00Z''
       (paid_record (Some ''REQ-2002'')) new_agent))"
    by simp
  define envs where "envs = (\<lambda>i::nat. if i = 0 then applications_ready else applications_down)"
  define out where "out = sitePlans (processFailedDownloads envs ''2025-03-01T11:00:00Z'' after_batch)"
  note R = download_wait_outcomes[of fails_third "''2025-03-01T10:00:00Z''"
      "paid_record None" new_agent envs "''2025-03-01T11:00:00Z''" after_batch,
      THEN conjunct2]
  have len: "length (sitePlans after_batch) = 3" by (simp add: after_batch_def)
  from R[THEN conjunct2, THEN conjunct1] have l: "length out = 3" by (simp add: out_def len)
  note S = after_batch_selects
  have e0: "envs 0 = applications_ready" and e1: "envs (Suc 0) = applications_down"
    by (simp_all add: envs_def)
  from R[THEN conjunct2, THEN conjunct2, rule_format, of 0 new_agent] S
  have r0: "out ! 0 = (sitePlans after_batch ! 0)\<lparr>certificateDownloaded := True,
             downloadedViaFallback := True\<rparr>"
    by (simp add: len e0 applications_ready_downloads out_def)
  from R[THEN conjunct2, THEN conjunct2, rule_format, of 1 new_agent] S
  have r1: "out ! Suc 0 = sitePlans after_batch ! Suc 0"
    by (simp add: len out_def)
  from R[THEN conjunct2, THEN conjunct2, rule_format, of 2 new_agent] S
  have r2: "out ! 2 = (sitePlans after_batch ! 2)\<lparr>error :=
      Some (extendError (error (sitePlans after_batch ! 2))
              (''Fallback failed: '' @ ''Navigation timeout'')
              (''Fallback recovery failed: '' @ ''Navigation timeout''))\<rparr>"
    by (simp add: len e1 applications_down_throws out_def)
  have out: "out = [out ! 0, out ! Suc 0, out ! 2]"
    using l by (auto simp: list_eq_iff_nth_eq less_Suc_eq numeral_3_eq_3 numeral_2_eq_2)
  have a: "map (\<lambda>r. (plotNumber r, applicationId r, paid r, certificateDownloaded r,
             downloadedViaFallback r, error r)) out =
   [(''A-1'', Some ''REQ-1001'', True, True, True, None),
    (''A-2'', None, True, False, False, None),
    (''A-3'', Some ''REQ-3003'', True, False, False,
       Some ''Fallback recovery failed: Navigation timeout'')]"
    by (subst out)
       (simp add: r0 r1 r2 after_batch_def newRecord_def plotA1_def plotA2_def plotA3_def
          extendError_def)
  from R[THEN conjunct1]
  have b: "recoveryAttempts (events (processFailedDownloads envs ''2025-03-01T11:00:00Z''
      after_batch)) = [''A-1'', ''A-3'']"
    by (simp add: after_batch_def new_agent_def failedDownloads_def failedDownload_def truthy_def
        newRecord_def plotA1_def plotA2_def plotA3_def)
  from a have a': "map (\<lambda>r. (plotNumber r, applicationId r, paid r, certificateDownloaded r,
             downloadedViaFallback r, error r))
     (sitePlans (processFailedDownloads
        (\<lambda>i. if i = 0 then applications_ready else applications_down)
        ''2025-03-01T11:00:00Z'' after_batch)) =
   [(''A-1'', Some ''REQ-1001'', True, True, True, None),
    (''A-2'', None, True, False, False, None),
    (''A-3'', Some ''REQ-3003'', True, False, False,
       Some ''Fallback recovery failed: Navigation timeout'')]"
    unfolding out_def envs_def .
  from b have b': "recoveryAttempts (events (processFailedDownloads
        (\<lambda>i. if i = 0 then applications_ready else applications_down)
        ''2025-03-01T11:00:00Z'' after_batch)) = [''A-1'', ''A-3'']"
    unfolding envs_def .
  show ?thesis by (intro conjI fails_third_start never_appears_start 1 2 3 4 a' b')
qed

text \<open>
  The claim as the specification states it fails for a plot whose application id
  could not be read: the site plan agent pays for it all the same, the download
  button never appears, and the recovery pass, which selects the records with an
  application id, does not take the plot up.
\<close>

lemma one_plot_processed:
  "processAllPlots live (\<lambda>i k. unreadable_id) [plotA1] new_agent =
   Some (new_agent\<lparr>storageFile := JsonArray [],
      sitePlans := [(newRecord plotA1)\<lparr>walletBalanceSufficient := True, paid := True,
            downloadAttempts := 1, lastDownloadAttemptTime := Some ''2025-03-01T10:00:00Z'',
            error := Some ''Download button did not appear after extended observations''\<rparr>],
      events := [AppIdFallback ''A-1'', PayNowClick ''A-1''] @
            map (ObserveDownload ''A-1'') [1..<Suc MAX_OBSERVATIONS]\<rparr>)"
  by (simp add: processAllPlots_def unreadable_run new_agent_def savePersistedApplications_def)

theorem paid_without_id_is_not_recovered:
  "map_option
     (\<lambda>(thrown, st).
        (thrown,
         map (\<lambda>r. (plotNumber r, paid r, certificateDownloaded r, applicationId r))
           (sitePlans st),
         payClicks (events st), recoveryAttempts (events st)))
     (executeWorkflow live one_plot_run new_agent) =
   Some (None, [(''A-1'', True, False, None)], [''A-1''], [])"
proof -
  have f: "initialize one_plot_run = None" "plotNumbers one_plot_run = Inr [plotA1]"
    "loginSteps one_plot_run = None" "login one_plot_run = approved"
    "afterLogin one_plot_run = None" "plotEnvs one_plot_run = (\<lambda>i k. unreadable_id)"
    by (simp_all add: one_plot_run_def)
  have pc: "payClicks (map (ObserveDownload p) ks) = []" for p ks
    by (induction ks) simp_all
  have ra: "recoveryAttempts (map (ObserveDownload p) ks) = []" for p ks
    by (induction ks) simp_all
  define final where "final = new_agent\<lparr>storageFile := JsonArray [],
      sitePlans := [(newRecord plotA1)\<lparr>walletBalanceSufficient := True, paid := True,
            downloadAttempts := 1, lastDownloadAttemptTime := Some ''2025-03-01T10:00:00Z'',
            error := Some ''Download button did not appear after extended observations''\<rparr>],
      events := [AppIdFallback ''A-1'', PayNowClick ''A-1''] @
            map (ObserveDownload ''A-1'') [1..<Suc MAX_OBSERVATIONS]\<rparr>"
  have pa: "processAllPlots live (\<lambda>i k. unreadable_id) [plotA1] new_agent = Some final"
    unfolding final_def by (rule one_plot_processed)
  have nf: "failedDownloads (sitePlans final) = []"
    by (simp add: final_def failedDownloads_def failedDownload_def truthy_def newRecord_def)
  have rc: "processFailedDownloads envs t final = final" for envs t
    by (simp add: processFailedDownloads_def nf)
  have run: "executeWorkflow live one_plot_run new_agent = Some (None, final)"
    by (simp add: executeWorkflow_def prePayCheckEnabled_def f approved_succeeds pa rc)
  show ?thesis
    unfolding run
    by (simp add: final_def newRecord_def plotA1_def payClicks_append recoveryAttempts_append
        pc ra)
qed


section \<open>The check of the history before a plot\<close>

text \<open>
  C1 (as the code has it). The ledger check at the start of \<open>searchAndProcessPlot\<close>
  stands behind the switch \<open>prePayCheckEnabled\<close>, which is false in the agent. As
  shipped, the function does not look at the history: two agents with the same events
  get the same record and do the same things for a plot, whatever their histories
  hold. So a plot is taken through the search for every plot, and when the pass reaches
  the certificate page and the funds, the balance covers the amount, payments are
  enabled and the \<open>Pay now\<close> click goes through, the plot is paid for, with or without
  an entry. With the switch on, a plot that has an entry goes to the applications page
  first; when the download there succeeds the function returns that record, marks the
  entry downloaded, and no \<open>Pay now\<close> click has been made.
\<close>

theorem preCheck_behind_switch:
  "preCheck prePayCheckEnabled env rcd st = (False, rcd, st) \<and>
   searchAndProcessPlot cfg envs plot st = processPlotFrom False cfg envs plot 0 st \<and>
   (\<forall>st'. events st' = events st \<longrightarrow>
      map_option (map_prod id events) (searchAndProcessPlot cfg envs plot st') =
      map_option (map_prod id events) (searchAndProcessPlot cfg envs plot st)) \<and>
   (reachesCertificatePage (envs 0) \<and> reachesFunds (envs 0) \<and> fundsSuffice (envs 0) \<and>
    paymentEnabled cfg \<and> paysAtOnce (envs 0) \<longrightarrow>
      (\<exists>r s. searchAndProcessPlot cfg envs plot st = Some (r, s) \<and> paid r \<and>
             payClicks (events s) = payClicks (events st) @ [plotNumber plot])) \<and>
   (\<forall>persisted r2 st2.
      map_of (persistedApplications st) (plotNumber plot) = Some persisted \<and>
      openAndDownload (applications (envs k)) (clock (envs k))
        ((newRecord plot)\<lparr>applicationId := Some (p_applicationId persisted), paid := True,
                            alreadyExistedInApplications := True\<rparr>) st = Inr (r2, st2) \<and>
      certificateDownloaded r2 \<longrightarrow>
      processPlotFrom True cfg envs plot k st =
        Some (r2, updatePersistedApplicationDownloadStatus (clock (envs k)) (plotNumber plot)
                    True st2) \<and>
      payClicks (events (updatePersistedApplicationDownloadStatus (clock (envs k))
                    (plotNumber plot) True st2)) = payClicks (events st))"
proof (intro conjI allI impI)
  show "preCheck prePayCheckEnabled env rcd st = (False, rcd, st)"
    by (simp add: preCheck_def prePayCheckEnabled_def)
  show "searchAndProcessPlot cfg envs plot st = processPlotFrom False cfg envs plot 0 st"
    by (simp add: searchAndProcessPlot_def prePayCheckEnabled_def)
next
  fix st' :: site_agent
  assume "events st' = events st"
  then show "map_option (map_prod id events) (searchAndProcessPlot cfg envs plot st') =
      map_option (map_prod id events) (searchAndProcessPlot cfg envs plot st)"
    unfolding searchAndProcessPlot_def prePayCheckEnabled_def by (rule processPlotFrom_history)
next
  assume "reachesCertificatePage (envs 0) \<and> reachesFunds (envs 0) \<and> fundsSuffice (envs 0) \<and>
    paymentEnabled cfg \<and> paysAtOnce (envs 0)"
  then show "\<exists>r s. searchAndProcessPlot cfg envs plot st = Some (r, s) \<and> paid r \<and>
             payClicks (events s) = payClicks (events st) @ [plotNumber plot]"
    unfolding searchAndProcessPlot_def prePayCheckEnabled_def
    using processPlot_pays[of envs cfg plot st] by blast
next
  fix persisted r2 st2
  assume h: "map_of (persistedApplications st) (plotNumber plot) = Some persisted \<and>
      openAndDownload (applications (envs k)) (clock (envs k))
        ((newRecord plot)\<lparr>applicationId := Some (p_applicationId persisted), paid := True,
                            alreadyExistedInApplications := True\<rparr>) st = Inr (r2, st2) \<and>
      certificateDownloaded r2"
  have p: "plotNumber (newRecord plot) = plotNumber plot" by (simp add: newRecord_def)
  from h have pre: "preCheck True (envs k) (newRecord plot) st =
      (True, r2, updatePersistedApplicationDownloadStatus (clock (envs k)) (plotNumber plot)
                    True st2)"
    by (simp add: preCheck_def p Let_def)
  show "processPlotFrom True cfg envs plot k st =
        Some (r2, updatePersistedApplicationDownloadStatus (clock (envs k)) (plotNumber plot)
                    True st2)"
    by (subst processPlotFrom.simps) (simp add: pre)
  from h have o: "openAndDownload (applications (envs k)) (clock (envs k))
        ((newRecord plot)\<lparr>applicationId := Some (p_applicationId persisted), paid := True,
                            alreadyExistedInApplications := True\<rparr>) st = Inr (r2, st2)"
    by simp
  show "payClicks (events (updatePersistedApplicationDownloadStatus (clock (envs k))
                    (plotNumber plot) True st2)) = payClicks (events st)"
    by (simp add: events_mark openAndDownload_payClicks[OF o])
qed

lemma owned_suffices: "fundsSuffice owned_plot"
  using parse_150_50 parse_100 by (simp add: fundsSuffice_def owned_plot_def truthy_def)

theorem preCheck_behind_switch_witness:
  "map_of (persistedApplications returning_agent) ''A-1'' =
     Some \<lparr>p_plotNumber = ''A-1'', p_applicationId = ''REQ-1001'', paymentDate = ''2025-01-01'',
           downloaded = False, lastChecked = ''2025-01-02''\<rparr> \<and>
   map_of (persistedApplications new_agent) ''A-1'' = None \<and>
   map_option (map_prod id events)
     (searchAndProcessPlot live (\<lambda>k. owned_plot) plotA1 new_agent) =
   map_option (map_prod id events)
     (searchAndProcessPlot live (\<lambda>k. owned_plot) plotA1 returning_agent) \<and>
   (\<exists>r s. searchAndProcessPlot live (\<lambda>k. owned_plot) plotA1 returning_agent = Some (r, s) \<and>
          paid r \<and> payClicks (events s) = [''A-1'']) \<and>
   map_option (\<lambda>(r, st). (applicationId r, paid r, certificateDownloaded r,
                            alreadyExistedInApplications r, payClicks (events st)))
     (processPlotFrom True live (\<lambda>k. owned_plot) plotA1 0 returning_agent) =
   Some (Some ''REQ-1001'', True, True, True, [])"
proof -
  let ?p = "\<lparr>p_plotNumber = ''A-1'', p_applicationId = ''REQ-1001'', paymentDate = ''2025-01-01'',
           downloaded = False, lastChecked = ''2025-01-02''\<rparr>"
  let ?r1 = "(newRecord plotA1)\<lparr>applicationId := Some (p_applicationId ?p), paid := True,
                            alreadyExistedInApplications := True\<rparr>"
  define r2 where "r2 = ?r1\<lparr>certificateDownloaded := True, downloadedViaFallback := True\<rparr>"
  define st2 where "st2 = updatePersistedApplicationDownloadStatus ''2025-03-01T10:00:00Z''
      (plotNumber ?r1) True
      (returning_agent\<lparr>events := events returning_agent @ [DownloadClick (plotNumber ?r1)]\<rparr>)"
  have m: "map_of (persistedApplications returning_agent) (plotNumber plotA1) = Some ?p"
    by (simp add: returning_agent_def plotA1_def)
  have n: "map_of (persistedApplications new_agent) ''A-1'' = None"
    by (simp add: new_agent_def)
  have f: "applications ((\<lambda>k. owned_plot) (0::nat)) = applications_ready"
    "clock ((\<lambda>k. owned_plot) (0::nat)) = ''2025-03-01T10:00:00Z''"
    by (simp_all add: owned_plot_def)
  have o: "openAndDownload (applications ((\<lambda>k. owned_plot) (0::nat)))
      (clock ((\<lambda>k. owned_plot) (0::nat))) ?r1 returning_agent = Inr (r2, st2)"
    unfolding f r2_def st2_def by (rule applications_ready_downloads)
  have c: "certificateDownloaded r2" by (simp add: r2_def)
  note C = preCheck_behind_switch[of owned_plot "newRecord plotA1" returning_agent live
      "\<lambda>k. owned_plot" plotA1 0, THEN conjunct2, THEN conjunct2]
  have ev: "events new_agent = events returning_agent"
    by (simp add: new_agent_def returning_agent_def)
  note I = C[THEN conjunct1, rule_format, OF ev]
  have h: "reachesCertificatePage ((\<lambda>k. owned_plot) (0::nat)) \<and>
      reachesFunds ((\<lambda>k. owned_plot) (0::nat)) \<and> fundsSuffice ((\<lambda>k. owned_plot) (0::nat)) \<and>
      paymentEnabled live \<and> paysAtOnce ((\<lambda>k. owned_plot) (0::nat))"
    using owned_reaches owned_funds owned_suffices owned_pays by (simp add: live_def)
  note P = C[THEN conjunct2, THEN conjunct1, THEN mp, OF h]
  note T = C[THEN conjunct2, THEN conjunct2, rule_format, of ?p r2 st2, OF conjI[OF m conjI[OF o c]]]
  have e: "payClicks (events returning_agent) = []" by (simp add: returning_agent_def)
  from P e have p: "\<exists>r s. searchAndProcessPlot live (\<lambda>k. owned_plot) plotA1 returning_agent =
          Some (r, s) \<and> paid r \<and> payClicks (events s) = [''A-1'']"
    by (simp add: plotA1_def)
  from T[THEN conjunct1] T[THEN conjunct2] e
  have t: "map_option (\<lambda>(r, st). (applicationId r, paid r, certificateDownloaded r,
                            alreadyExistedInApplications r, payClicks (events st)))
     (processPlotFrom True live (\<lambda>k. owned_plot) plotA1 0 returning_agent) =
   Some (Some ''REQ-1001'', True, True, True, [])"
    by (simp add: r2_def)
  from m have m': "map_of (persistedApplications returning_agent) ''A-1'' = Some ?p"
    by (simp add: plotA1_def)
  show ?thesis by (intro conjI m' n I p t)
qed

text \<open>
  The claim as the specification states it fails: the agent as shipped pays for a
  plot that has an entry in the history.
\<close>

theorem ledger_entry_does_not_stop_payment:
  "map_of (persistedApplications returning_agent) ''A-1'' =
     Some \<lparr>p_plotNumber = ''A-1'', p_applicationId = ''REQ-1001'', paymentDate = ''2025-01-01'',
           downloaded = False, lastChecked = ''2025-01-02''\<rparr> \<and>
   map_option (\<lambda>(r, st). (applicationId r, paid r, alreadyExistedInApplications r,
                            payClicks (events st)))
     (searchAndProcessPlot live (\<lambda>k. owned_plot) plotA1 returning_agent) =
   Some (Some ''REQ-2002'', True, False, [''A-1'']) \<and>
   map_option (\<lambda>(r, st). payClicks (events st))
     (Option.bind (searchAndProcessPlot live (\<lambda>k. owned_plot) plotA1 returning_agent)
        (\<lambda>(r, st). searchAndProcessPlot live (\<lambda>k. owned_plot) plotA1 st)) =
   Some [''A-1'', ''A-1'']"
proof -
  have m: "map_of (persistedApplications returning_agent) ''A-1'' =
     Some \<lparr>p_plotNumber = ''A-1'', p_applicationId = ''REQ-1001'', paymentDate = ''2025-01-01'',
           downloaded = False, lastChecked = ''2025-01-02''\<rparr>"
    by (simp add: returning_agent_def)
  have e: "events returning_agent = []" by (simp add: returning_agent_def)
  have 1: "map_option (\<lambda>(r, st). (applicationId r, paid r, alreadyExistedInApplications r,
                            payClicks (events st)))
     (searchAndProcessPlot live (\<lambda>k. owned_plot) plotA1 returning_agent) =
   Some (Some ''REQ-2002'', True, False, [''A-1''])"
    unfolding owned_run download_button_appears
    by (simp add: events_mark events_add e newRecord_def)
  have 2: "map_option (\<lambda>(r, st). payClicks (events st))
     (Option.bind (searchAndProcessPlot live (\<lambda>k. owned_plot) plotA1 returning_agent)
        (\<lambda>(r, st). searchAndProcessPlot live (\<lambda>k. owned_plot) plotA1 st)) =
   Some [''A-1'', ''A-1'']"
    unfolding owned_run download_button_appears
    by (simp add: events_mark events_add e newRecord_def payClicks_append)
  from m 1 2 show ?thesis by simp
qed


section \<open>The application id\<close>

text \<open>
  C5 (as the code has it). In the affection plan agent, when the extraction gives no
  application id, the page text is read once for \<open>/(\d{14,})/\<close>, and when that finds
  nothing the plot ends with the result \<open>Application ID not found\<close>: nothing is thrown,
  and no \<open>Pay now\<close> click is made. In the site plan agent, when the extracted id is
  not usable, the page text is read once for the four patterns, and when they find
  nothing the plot has no application id and goes on to the payment section.
\<close>

theorem id_fallback_read_once:
  "(a_searchSteps aenv = None \<and> a_resultsObservation aenv = Inr obs \<and>
    a_pageText aenv = Inr text \<and> \<not> plotNotFound text obs \<and> a_selectSteps aenv = None \<and>
    a_pageContent aenv = Inr (has, x) \<and> \<not> (has \<and> truthy x) \<and> a_idText aenv = Inr t \<and>
    (case t of None \<Rightarrow> None | Some s \<Rightarrow> firstRun isDigit 14 [] s) = None \<longrightarrow>
      searchAndFilterPlot plots aenv plot ast =
        (None,
         ast\<lparr>results := results ast @
                 [plotResult plot None False False (Some ApplicationIdNotFound)],
              a_events := a_events ast @ [AppIdFallback (plotNumber plot)]\<rparr>)) \<and>
   (reachesCertificatePage (envs 0) \<and> extraction (envs 0) = Inr y \<and> usableId y = None \<and>
    idFallback (envs 0) = Inr m \<and> \<not> truthy m \<longrightarrow>
      searchAndProcessPlot cfg envs plot st =
        Some (paymentSection cfg (envs 0) (newRecord plot)
                (st\<lparr>events := events st @ [AppIdFallback (plotNumber plot)]\<rparr>)))"
proof (intro conjI impI)
  assume h: "a_searchSteps aenv = None \<and> a_resultsObservation aenv = Inr obs \<and>
    a_pageText aenv = Inr text \<and> \<not> plotNotFound text obs \<and> a_selectSteps aenv = None \<and>
    a_pageContent aenv = Inr (has, x) \<and> \<not> (has \<and> truthy x) \<and> a_idText aenv = Inr t \<and>
    (case t of None \<Rightarrow> None | Some s \<Rightarrow> firstRun isDigit 14 [] s) = None"
  then show "searchAndFilterPlot plots aenv plot ast =
        (None,
         ast\<lparr>results := results ast @
                 [plotResult plot None False False (Some ApplicationIdNotFound)],
              a_events := a_events ast @ [AppIdFallback (plotNumber plot)]\<rparr>)"
    by (auto simp add: searchAndFilterPlot_def readApplicationId_def pushResult_def Let_def)
next
  assume h: "reachesCertificatePage (envs 0) \<and> extraction (envs 0) = Inr y \<and>
    usableId y = None \<and> idFallback (envs 0) = Inr m \<and> \<not> truthy m"
  then have r: "reachesCertificatePage (envs 0)" and 1: "extraction (envs 0) = Inr y"
    and 2: "usableId y = None" and 3: "idFallback (envs 0) = Inr m" and 4: "\<not> truthy m"
    by simp_all
  have p: "plotNumber (newRecord plot) = plotNumber plot" by (simp add: newRecord_def)
  show "searchAndProcessPlot cfg envs plot st =
        Some (paymentSection cfg (envs 0) (newRecord plot)
                (st\<lparr>events := events st @ [AppIdFallback (plotNumber plot)]\<rparr>))"
    unfolding searchAndProcessPlot_def prePayCheckEnabled_def
      processPlotFrom_reaches[where envs=envs, OF r]
      identify_without_id[where env="envs 0", OF 1 2 3 4] p ..
qed

theorem id_fallback_read_once_witness:
  "searchAndFilterPlot [plotA1] a_no_id plotA1 a_new =
     (None,
      \<lparr>results = [plotResult plotA1 None False False (Some ApplicationIdNotFound)],
       a_events = [AppIdFallback ''A-1'']\<rparr>) \<and>
   reachesCertificatePage unreadable_id \<and>
   searchAndProcessPlot live (\<lambda>k. unreadable_id) plotA1 new_agent =
     Some (paymentSection live unreadable_id (newRecord plotA1)
             (new_agent\<lparr>events := [AppIdFallback ''A-1'']\<rparr>))"
proof -
  have a: "a_searchSteps a_no_id = None \<and>
    a_resultsObservation a_no_id = Inr [el ''Property card of the plot'' ''click''] \<and>
    a_pageText a_no_id = Inr (Some ''1 property'') \<and>
    \<not> plotNotFound (Some ''1 property'') [el ''Property card of the plot'' ''click''] \<and>
    a_selectSteps a_no_id = None \<and>
    a_pageContent a_no_id = Inr (False, None) \<and> \<not> (False \<and> truthy None) \<and>
    a_idText a_no_id = Inr (Some ''Reference 2025-03'') \<and>
    (case Some ''Reference 2025-03'' of None \<Rightarrow> None
     | Some s \<Rightarrow> firstRun isDigit 14 [] s) = None"
    by (simp add: a_no_id_def a_owned_def plotNotFound_def isDigit_def toLowerCase_def
        lower_char_def)
  have s: "reachesCertificatePage ((\<lambda>k. unreadable_id) (0::nat)) \<and>
    extraction ((\<lambda>k. unreadable_id) (0::nat)) = Inr (Some '''') \<and> usableId (Some '''') = None \<and>
    idFallback ((\<lambda>k. unreadable_id) (0::nat)) = Inr None \<and> \<not> truthy None"
    using unreadable_reaches usable_empty
    by (simp add: unreadable_id_def owned_plot_def truthy_def)
  note A = id_fallback_read_once[THEN conjunct1, THEN mp, OF a, of "[plotA1]" plotA1 a_new]
  note S = id_fallback_read_once[THEN conjunct2, THEN mp, OF s, of live plotA1 new_agent]
  have 1: "searchAndFilterPlot [plotA1] a_no_id plotA1 a_new =
     (None,
      \<lparr>results = [plotResult plotA1 None False False (Some ApplicationIdNotFound)],
       a_events = [AppIdFallback ''A-1'']\<rparr>)"
    using A by (simp add: a_new_def plotA1_def)
  have 2: "searchAndProcessPlot live (\<lambda>k. unreadable_id) plotA1 new_agent =
     Some (paymentSection live unreadable_id (newRecord plotA1)
             (new_agent\<lparr>events := [AppIdFallback ''A-1'']\<rparr>))"
    using S by (simp add: new_agent_def plotA1_def)
  show ?thesis by (intro conjI 1 unreadable_reaches 2)
qed

text \<open>
  The claim as the specification states it fails in the site plan agent: with no
  application id from the extraction or from the page text, the plot is paid for.
\<close>

theorem plot_without_id_is_paid:
  "extraction unreadable_id = Inr (Some '''') \<and> idFallback unreadable_id = Inr None \<and>
   map_option (\<lambda>(r, st). (applicationId r, paid r, fallbackReads (events st),
                            payClicks (events st)))
     (searchAndProcessPlot live (\<lambda>k. unreadable_id) plotA1 new_agent) =
   Some (None, True, [''A-1''], [''A-1''])"
proof -
  have pc: "payClicks (map (ObserveDownload p) ks) = []" for p ks
    by (induction ks) simp_all
  have fr: "fallbackReads (map (ObserveDownload p) ks) = []" for p ks
    by (induction ks) simp_all
  have fa: "fallbackReads (a @ b) = fallbackReads a @ fallbackReads b" for a b
    by (induction a rule: fallbackReads.induct) simp_all
  have x: "extraction unreadable_id = Inr (Some '''')" "idFallback unreadable_id = Inr None"
    by (simp_all add: unreadable_id_def owned_plot_def)
  have "map_option (\<lambda>(r, st). (applicationId r, paid r, fallbackReads (events st),
                            payClicks (events st)))
     (searchAndProcessPlot live (\<lambda>k. unreadable_id) plotA1 new_agent) =
   Some (None, True, [''A-1''], [''A-1''])"
    unfolding unreadable_run
    by (simp add: new_agent_def newRecord_def payClicks_append fa pc fr del: upt_Suc)
  with x show ?thesis by simp
qed


section \<open>The funds of a batch in the affection plan agent\<close>

lemma button_missing_first_run:
  "affectionWorkflow button_missing_first a_new =
     (Stopped (InsufficientBalance 300 3 50 250),
      \<lparr>results =
         [plotResult plotA2 (Some ''20250301000123'') False False
            (Some (InsufficientForBatch 300 3 50))],
       a_events = []\<rparr>)"
proof -
  have nb: "payAndDownload (a_no_button balance fee) plot appId st = (None, st)"
    for balance fee plot appId st
    by (simp add: payAndDownload_def a_no_button_def a_owned_def)
  have rd: "parseAmount balance = Some b \<Longrightarrow> parseAmount fee = Some a \<Longrightarrow>
      searchAndFilterPlot plots (a_no_button balance fee) plot st =
        checkFunds plots (a_no_button balance fee) plot (Some ''20250301000123'') b a st"
    for balance fee b a plots plot st
    by (simp add: searchAndFilterPlot_def readApplicationId_def readFunds_def a_owned_def
        a_no_button_def plotNotFound_def truthy_def toLowerCase_def lower_char_def)
  show ?thesis
    by (simp add: affectionWorkflow_def button_missing_first_def a_new_def
        rd[OF parse_500 parse_100] a_owned_reads[OF parse_50 parse_100]
        checkFunds_def nb pushResult_def endOfRun_def eval_nat_numeral)
qed

lemma batch_check_stops:
  assumes "results st = []" "balance < amount * of_nat (length plots)"
  shows "checkFunds plots env plot appId balance amount st =
           (Some (InsufficientBalance (amount * of_nat (length plots)) (length plots) balance
                    (amount * of_nat (length plots) - balance)),
            st\<lparr>results :=
                 [plotResult plot appId False False
                    (Some (InsufficientForBatch (amount * of_nat (length plots)) (length plots)
                       balance))]\<rparr>)"
  using assms by (simp add: checkFunds_def pushResult_def Let_def)

lemma later_plot_insufficient:
  assumes "results st \<noteq> []" "balance < amount"
  shows "checkFunds plots env plot appId balance amount st =
           (None,
            st\<lparr>results := results st @
                 [plotResult plot appId False False
                    (Some (InsufficientForPlot (amount - balance)))]\<rparr>)"
  using assms by (simp add: checkFunds_def pushResult_def Let_def)

text \<open>
  C2. The batch check \<open>balance < amount * totalPlots\<close> is made for the plot that reaches
  the funds while \<open>results\<close> is empty (\<open>isFirstPlot\<close>). In a run of three plots with fee
  100 each, where the first plot is not owned and the wallet shows 150 at the second
  plot and 50 at the third, the result of the first plot is in \<open>results\<close> before any
  balance is read, so no plot is checked against 300: the run is not stopped, the
  second plot is paid for and its certificate downloaded, and the third is recorded
  with a shortage of 50.
\<close>

theorem unowned_first_plot_skips_batch_check:
  "a_plotNumbers first_not_owned = Inr [plotA1, plotA2, plotA3] \<and>
   a_paymentDetails (a_plotEnvs first_not_owned 1) = Inr (''AED 150'', ''AED 100'') \<and>
   a_paymentDetails (a_plotEnvs first_not_owned 2) = Inr (''AED 50'', ''AED 100'') \<and>
   affectionWorkflow first_not_owned a_new =
     (Completed,
      \<lparr>results =
         [plotResult plotA1 None False False (Some PlotNotFound),
          plotResult plotA2 (Some ''20250301000123'') True True None,
          plotResult plotA3 (Some ''20250301000123'') False False
            (Some (InsufficientForPlot 50))],
       a_events = [PayNowClick ''A-2'', DownloadClick ''A-2'']\<rparr>) \<and>
   payClicks (a_events (snd (affectionWorkflow first_not_owned a_new))) = [''A-2'']"
  unfolding first_not_owned_run
  by (simp add: first_not_owned_def a_owned_def)

text \<open>
  C7. A plot whose \<open>Pay now\<close> button is not found leaves \<open>searchAndFilterPlot\<close> without a
  result, so \<open>results\<close> is still empty at the next plot and the batch check is made a
  second time. In a run of three plots with fee 100 each, where the wallet shows 500
  at the first plot (the batch check passes) and its button is not found, and the
  wallet shows 50 at the second plot, the second plot is checked against 300: the run
  is stopped there with the batch error, and the third plot is not processed.
\<close>

theorem missing_button_repeats_batch_check:
  "a_plotNumbers button_missing_first = Inr [plotA1, plotA2, plotA3] \<and>
   a_paymentDetails (a_plotEnvs button_missing_first 0) = Inr (''AED 500'', ''AED 100'') \<and>
   a_payNowObservation (a_plotEnvs button_missing_first 0) = Inr [] \<and>
   a_paymentDetails (a_plotEnvs button_missing_first 1) = Inr (''AED 50'', ''AED 100'') \<and>
   affectionWorkflow button_missing_first a_new =
     (Stopped (InsufficientBalance 300 3 50 250),
      \<lparr>results =
         [plotResult plotA2 (Some ''20250301000123'') False False
            (Some (InsufficientForBatch 300 3 50))],
       a_events = []\<rparr>)"
  unfolding button_missing_first_run
  by (simp add: button_missing_first_def a_owned_def a_no_button_def)


end
